(* ===== verification/Prelude.thy ===== *)
theory Prelude
  imports Main "HOL-Library.Word" "HOL-Library.Char_ord"
begin

text \<open>
  Shared ground of the development: the collections of rewrite rules the component
  proofs draw on, Go's fixed-width integers, Go strings as byte lists (a \<^typ>\<open>char\<close> is
  one byte), decimal rendering and parsing (\<open>strconv.FormatInt\<close>, \<open>strconv.Atoi\<close>),
  UTF-8 facts Postgres checks on text columns, and list lemmas on filters and keyed
  updates that the tables of the store use.
\<close>

named_theorems tx_simps \<open>rules that run a step of the database monad\<close>
named_theorems sql_defs \<open>definitions of the SQL statements\<close>
named_theorems schema_defs \<open>definitions of the schema's constraints\<close>

section \<open>Fixed-width integers\<close>

text \<open>Go's \<open>int64\<close>/\<open>int\<close> and \<open>int32\<close> arithmetic wraps around in two's complement.\<close>

definition wrap64 :: "int \<Rightarrow> int" where
  "wrap64 n = signed_take_bit 63 n"

definition wrap32 :: "int \<Rightarrow> int" where
  "wrap32 n = signed_take_bit 31 n"

definition int64_ok :: "int \<Rightarrow> bool" where
  "int64_ok n \<longleftrightarrow> - (2 ^ 63) \<le> n \<and> n < 2 ^ 63"

definition int32_ok :: "int \<Rightarrow> bool" where
  "int32_ok n \<longleftrightarrow> - (2 ^ 31) \<le> n \<and> n < 2 ^ 31"

lemma wrap64_id: "int64_ok n \<Longrightarrow> wrap64 n = n"
  by (simp add: wrap64_def int64_ok_def signed_take_bit_int_eq_self)

lemma wrap32_id: "int32_ok n \<Longrightarrow> wrap32 n = n"
  by (simp add: wrap32_def int32_ok_def signed_take_bit_int_eq_self)

lemma wrap64_ok: "int64_ok (wrap64 n)"
  using signed_take_bit_int_less_exp [of 63 n] signed_take_bit_int_greater_eq_minus_exp [of 63 n]
  by (simp add: wrap64_def int64_ok_def)

section \<open>Strings\<close>

text \<open>Decimal digits of a natural number, most significant first.\<close>

fun nat_digits :: "nat \<Rightarrow> nat list" where
  "nat_digits n = (if n < 10 then [n] else nat_digits (n div 10) @ [n mod 10])"

declare nat_digits.simps [simp del]

definition digit_char :: "nat \<Rightarrow> char" where
  "digit_char d = char_of (48 + d)"

definition itoa :: "int \<Rightarrow> string" where
  "itoa n = (if n < 0 then CHR ''-'' # map digit_char (nat_digits (nat (- n)))
             else map digit_char (nat_digits (nat n)))"

definition is_digit :: "char \<Rightarrow> bool" where
  "is_digit c \<longleftrightarrow> 48 \<le> (of_char c :: nat) \<and> (of_char c :: nat) \<le> 57"

definition digits_value :: "string \<Rightarrow> nat" where
  "digits_value s = foldl (\<lambda>n c. 10 * n + (of_char c - 48)) 0 s"

text \<open>
  \<open>strconv.Atoi\<close>: an optional sign, then at least one decimal digit, nothing else, and the
  value in the range of a 64-bit \<open>int\<close>.
\<close>

definition atoi :: "string \<Rightarrow> int option" where
  "atoi s =
     (let neg = (case s of c # _ \<Rightarrow> c = CHR ''-'' | [] \<Rightarrow> False);
          body = (case s of c # r \<Rightarrow> if c = CHR ''-'' \<or> c = CHR ''+'' then r else s | [] \<Rightarrow> []);
          v = (if neg then - int (digits_value body) else int (digits_value body))
      in if body \<noteq> [] \<and> list_all is_digit body \<and> int64_ok v then Some v else None)"

lemma nat_digits_less_10: "d \<in> set (nat_digits n) \<Longrightarrow> d < 10"
proof (induction n rule: nat_digits.induct)
  case (1 n)
  then show ?case
    by (cases "n < 10") (auto simp: nat_digits.simps [of n])
qed

lemma nat_digits_nonempty [simp]: "nat_digits n \<noteq> []"
  by (subst nat_digits.simps) simp

lemma digit_char_code: "d < 10 \<Longrightarrow> (of_char (digit_char d) :: nat) = 48 + d"
  by (simp add: digit_char_def)

lemma is_digit_digit_char: "d < 10 \<Longrightarrow> is_digit (digit_char d)"
  by (simp add: is_digit_def digit_char_code)

lemma digits_value_snoc: "digits_value (s @ [c]) = 10 * digits_value s + (of_char c - 48)"
  by (simp add: digits_value_def)

lemma digits_value_nat_digits: "digits_value (map digit_char (nat_digits n)) = n"
proof (induction n rule: nat_digits.induct)
  case (1 n)
  show ?case
  proof (cases "n < 10")
    case True
    then show ?thesis
      by (simp add: nat_digits.simps [of n] digits_value_def digit_char_code)
  next
    case False
    then show ?thesis
      using 1 by (simp add: nat_digits.simps [of n] digits_value_snoc digit_char_code)
  qed
qed

lemma list_all_digit_nat_digits: "list_all is_digit (map digit_char (nat_digits n))"
  by (auto simp: list_all_iff intro: is_digit_digit_char nat_digits_less_10)

lemma hd_nat_digits_not_sign:
  assumes "map digit_char (nat_digits n) = c # r"
  shows "c \<noteq> CHR ''-'' \<and> c \<noteq> CHR ''+'' \<and> c \<noteq> CHR ''|''"
proof -
  have "is_digit c" using list_all_digit_nat_digits [of n] assms by simp
  then show ?thesis by (auto simp: is_digit_def)
qed

lemma atoi_itoa: "int64_ok n \<Longrightarrow> atoi (itoa n) = Some n"
proof (cases "n < 0")
  case True
  then show "int64_ok n \<Longrightarrow> ?thesis"
    by (simp add: atoi_def itoa_def Let_def list_all_digit_nat_digits digits_value_nat_digits)
next
  case False
  obtain c r where cr: "map digit_char (nat_digits (nat n)) = c # r"
    by (cases "map digit_char (nat_digits (nat n))") auto
  have "c \<noteq> CHR ''-''" "c \<noteq> CHR ''+''" using hd_nat_digits_not_sign [OF cr] by auto
  then show "int64_ok n \<Longrightarrow> ?thesis"
    using False cr list_all_digit_nat_digits [of "nat n"] digits_value_nat_digits [of "nat n"]
    by (simp add: atoi_def itoa_def Let_def)
qed

definition int_of_text :: "string \<Rightarrow> int" where
  "int_of_text s = (case s of c # r \<Rightarrow> if c = CHR ''-'' then - int (digits_value r)
     else int (digits_value s) | [] \<Rightarrow> 0)"

lemma int_of_text_itoa: "int_of_text (itoa n) = n"
proof (cases "n < 0")
  case True
  then show ?thesis
    by (simp add: int_of_text_def itoa_def digits_value_nat_digits)
next
  case False
  obtain c r where cr: "map digit_char (nat_digits (nat n)) = c # r"
    by (cases "map digit_char (nat_digits (nat n))") auto
  have "c \<noteq> CHR ''-''" using hd_nat_digits_not_sign [OF cr] by simp
  then show ?thesis
    using False cr digits_value_nat_digits [of "nat n"]
    by (simp add: int_of_text_def itoa_def)
qed

lemma itoa_inject: "itoa a = itoa b \<longleftrightarrow> a = b"
  by (metis int_of_text_itoa)

lemma itoa_no_bar: "CHR ''|'' \<notin> set (itoa n)"
proof -
  have "CHR ''|'' \<notin> set (map digit_char (nat_digits m))" for m
  proof
    assume "CHR ''|'' \<in> set (map digit_char (nat_digits m))"
    then have "is_digit (CHR ''|'')"
      using list_all_digit_nat_digits [of m] unfolding list_all_iff by blast
    then show False by (simp add: is_digit_def)
  qed
  then show ?thesis by (simp add: itoa_def)
qed

text \<open>UTF-8: continuation bytes are \<open>10xxxxxx\<close>; the number of characters is the number of
  bytes that are not continuation bytes.\<close>

definition byte_val :: "char \<Rightarrow> nat" where
  "byte_val c = of_char c"

definition is_cont :: "char \<Rightarrow> bool" where
  "is_cont c \<longleftrightarrow> 128 \<le> byte_val c \<and> byte_val c < 192"

definition utf8_len :: "string \<Rightarrow> nat" where
  "utf8_len s = length (filter (\<lambda>c. \<not> is_cont c) s)"

text \<open>Well-formed UTF-8 (shortest form, no surrogates, at most U+10FFFF).\<close>

fun utf8_valid :: "string \<Rightarrow> bool" where
  "utf8_valid [] = True"
| "utf8_valid (a # r) =
     (let x = byte_val a in
      if x < 128 then utf8_valid r
      else if 194 \<le> x \<and> x < 224 then
        (case r of b # r1 \<Rightarrow> is_cont b \<and> utf8_valid r1 | _ \<Rightarrow> False)
      else if 224 \<le> x \<and> x < 240 then
        (case r of b # c # r2 \<Rightarrow>
           is_cont b \<and> is_cont c \<and> (x = 224 \<longrightarrow> 160 \<le> byte_val b)
           \<and> (x = 237 \<longrightarrow> byte_val b < 160) \<and> utf8_valid r2
         | _ \<Rightarrow> False)
      else if 240 \<le> x \<and> x < 245 then
        (case r of b # c # d # r3 \<Rightarrow>
           is_cont b \<and> is_cont c \<and> is_cont d \<and> (x = 240 \<longrightarrow> 144 \<le> byte_val b)
           \<and> (x = 244 \<longrightarrow> byte_val b < 144) \<and> utf8_valid r3
         | _ \<Rightarrow> False)
      else False)"

section \<open>Lists as tables\<close>

text \<open>Rows of a table are a list; a row is found by its key.\<close>

definition find_key :: "('r \<Rightarrow> 'k) \<Rightarrow> 'k \<Rightarrow> 'r list \<Rightarrow> 'r option" where
  "find_key key k rs = find (\<lambda>r. key r = k) rs"

definition update_key :: "('r \<Rightarrow> 'k) \<Rightarrow> 'k \<Rightarrow> ('r \<Rightarrow> 'r) \<Rightarrow> 'r list \<Rightarrow> 'r list" where
  "update_key key k f rs = map (\<lambda>r. if key r = k then f r else r) rs"

definition delete_key :: "('r \<Rightarrow> 'k) \<Rightarrow> 'k \<Rightarrow> 'r list \<Rightarrow> 'r list" where
  "delete_key key k rs = filter (\<lambda>r. key r \<noteq> k) rs"

lemma find_key_simps [simp]:
  "find_key key k [] = None"
  "find_key key k (r # rs) = (if key r = k then Some r else find_key key k rs)"
  by (auto simp: find_key_def)

lemma find_key_filter:
  "find_key key k rs = (case filter (\<lambda>r. key r = k) rs of [] \<Rightarrow> None | r # _ \<Rightarrow> Some r)"
  by (induction rs) auto

lemma find_key_append:
  "find_key key k (xs @ ys) = (case find_key key k xs of None \<Rightarrow> find_key key k ys | Some r \<Rightarrow> Some r)"
  by (induction xs) auto

lemma find_key_None: "find_key key k rs = None \<longleftrightarrow> k \<notin> key ` set rs"
  by (induction rs) auto

lemma find_key_SomeD: "find_key key k rs = Some r \<Longrightarrow> r \<in> set rs \<and> key r = k"
  by (induction rs) (auto split: if_splits)

lemma find_key_SomeI:
  "distinct (map key rs) \<Longrightarrow> r \<in> set rs \<Longrightarrow> find_key key (key r) rs = Some r"
  by (induction rs) (auto simp: rev_image_eqI)

lemma filter_key_unique:
  "distinct (map key rs) \<Longrightarrow> find_key key k rs = Some r \<Longrightarrow> filter (\<lambda>x. key x = k) rs = [r]"
proof (induction rs)
  case (Cons a rs)
  have "filter (\<lambda>x. key x = key a) rs = []"
    using Cons.prems(1) by (simp add: filter_empty_conv) (metis image_eqI)
  then show ?case using Cons by (auto split: if_splits)
qed simp

lemma find_key_update:
  assumes "\<And>r. key (f r) = key r"
  shows "find_key key j (update_key key k f rs)
    = (if j = k then map_option f (find_key key j rs) else find_key key j rs)"
  using assms by (induction rs) (auto simp: update_key_def)

lemma find_key_replace:
  assumes "key r' = k"
  shows "find_key key j (update_key key k (\<lambda>_. r') rs)
    = (if j = k then map_option (\<lambda>_. r') (find_key key j rs) else find_key key j rs)"
  using assms by (induction rs) (auto simp: update_key_def)

lemma map_update_key:
  assumes "\<And>r. g (f r) = g r"
  shows "map g (update_key key k f rs) = map g rs"
  using assms by (induction rs) (auto simp: update_key_def)

lemma set_update_key:
  "set (update_key key k f rs) = f ` {r \<in> set rs. key r = k} \<union> {r \<in> set rs. key r \<noteq> k}"
  by (auto simp: update_key_def)

lemma find_key_delete:
  "find_key key j (delete_key key k rs) = (if j = k then None else find_key key j rs)"
  by (induction rs) (auto simp: delete_key_def)

lemma set_delete_key: "set (delete_key key k rs) = {r \<in> set rs. key r \<noteq> k}"
  by (auto simp: delete_key_def)

lemma distinct_map_delete_key: "distinct (map key rs) \<Longrightarrow> distinct (map key (delete_key g k rs))"
  by (simp add: delete_key_def distinct_map_filter)

lemma sum_list_update_key_other:
  assumes "\<And>r. r \<in> set rs \<Longrightarrow> key r = k \<Longrightarrow> g (f r) = (g r :: int)"
  shows "sum_list (map g (update_key key k f rs)) = sum_list (map g rs)"
  using assms by (induction rs) (auto simp: update_key_def)

section \<open>Sums as results\<close>

text \<open>Go's \<open>(value, error)\<close> pair is \<open>error + value\<close>: \<^const>\<open>Inl\<close> is a non-nil error.\<close>

definition is_ok :: "'e + 'a \<Rightarrow> bool" where
  "is_ok r = (case r of Inl _ \<Rightarrow> False | Inr _ \<Rightarrow> True)"

lemma is_ok_simps [simp]: "is_ok (Inr x)" "\<not> is_ok (Inl e)"
  by (simp_all add: is_ok_def)

text \<open>A text up to the first occurrence of a character.\<close>

lemma takeWhile_until: "c \<notin> set p \<Longrightarrow> takeWhile (\<lambda>x. x \<noteq> c) (p @ c # a) = p"
  by (induction p) auto

end
