(* ===== verification/Uuid.thy ===== *)
theory Uuid
  imports Prelude
begin

text \<open>
  The \<open>uuid\<close> package of Go's standard library as the repository uses it: a UUID is 16 bytes,
  here the 128-bit number they spell in big-endian order, so that the byte-wise order of
  Postgres' \<open>uuid\<close> type is the numeric order. \<open>uuid_string\<close> is \<open>UUID.String\<close> (lower-case
  hexadecimal, grouped 8-4-4-4-12) and \<open>uuid_parse\<close> is \<open>uuid.Parse\<close>, which takes that form
  in either case, the same in braces or after \<open>urn:uuid:\<close>, and 32 bare digits.
  \<open>uuid.NewV7\<close> draws a fresh id: operations that call it take the id as an argument.
\<close>

type_synonym uuid = "128 word"

definition hex_char :: "nat \<Rightarrow> char" where
  "hex_char d = char_of (if d < 10 then 48 + d else 87 + d)"

definition hex_value :: "char \<Rightarrow> nat option" where
  "hex_value c =
     (let x = byte_val c in
      if 48 \<le> x \<and> x \<le> 57 then Some (x - 48)
      else if 97 \<le> x \<and> x \<le> 102 then Some (x - 87)
      else if 65 \<le> x \<and> x \<le> 70 then Some (x - 55)
      else None)"

fun hex_digits :: "nat \<Rightarrow> nat \<Rightarrow> string" where
  "hex_digits 0 n = []"
| "hex_digits (Suc k) n = hex_digits k (n div 16) @ [hex_char (n mod 16)]"

fun hex_number :: "nat \<Rightarrow> string \<Rightarrow> nat option" where
  "hex_number acc [] = Some acc"
| "hex_number acc (c # r) =
     (case hex_value c of None \<Rightarrow> None | Some d \<Rightarrow> hex_number (16 * acc + d) r)"

definition dashed :: "string \<Rightarrow> string" where
  "dashed h = take 8 h @ ''-'' @ take 4 (drop 8 h) @ ''-'' @ take 4 (drop 12 h) @ ''-''
     @ take 4 (drop 16 h) @ ''-'' @ drop 20 h"

definition undash :: "string \<Rightarrow> string option" where
  "undash s =
     (if length s = 36 \<and> s ! 8 = CHR ''-'' \<and> s ! 13 = CHR ''-'' \<and> s ! 18 = CHR ''-''
         \<and> s ! 23 = CHR ''-''
      then Some (take 8 s @ take 4 (drop 9 s) @ take 4 (drop 14 s) @ take 4 (drop 19 s) @ drop 24 s)
      else None)"

definition uuid_string :: "uuid \<Rightarrow> string" where
  "uuid_string u = dashed (hex_digits 32 (unat u))"

definition uuid_digits :: "string \<Rightarrow> string option" where
  "uuid_digits s =
     (if length s = 32 then Some s
      else if length s = 36 then undash s
      else if length s = 38 \<and> hd s = CHR ''{'' \<and> last s = CHR ''}'' then undash (butlast (tl s))
      else if length s = 45 \<and> take 9 s = ''urn:uuid:'' then undash (drop 9 s)
      else None)"

definition uuid_parse :: "string \<Rightarrow> uuid option" where
  "uuid_parse s =
     (case uuid_digits s of None \<Rightarrow> None
      | Some h \<Rightarrow> map_option of_nat (hex_number 0 h))"

definition uuid_nil :: uuid where
  "uuid_nil = 0"

lemma length_hex_digits [simp]: "length (hex_digits k n) = k"
  by (induction k arbitrary: n) auto

lemma hex_value_hex_char: "d < 16 \<Longrightarrow> hex_value (hex_char d) = Some d"
  by (auto simp: hex_value_def hex_char_def byte_val_def Let_def)

lemma hex_number_append:
  "hex_number acc (xs @ ys)
    = (case hex_number acc xs of None \<Rightarrow> None | Some n \<Rightarrow> hex_number n ys)"
  by (induction acc xs rule: hex_number.induct) (auto split: option.splits)

lemma hex_number_hex_digits: "hex_number acc (hex_digits k n) = Some (acc * 16 ^ k + n mod 16 ^ k)"
proof (induction k arbitrary: n)
  case 0
  then show ?case by simp
next
  case (Suc k)
  have "16 * (n div 16 mod 16 ^ k) + n mod 16 = n mod 16 ^ Suc k"
    by (simp add: mod_mult2_eq)
  then show ?case
    using Suc [of "n div 16"] by (simp add: hex_number_append hex_value_hex_char)
qed

lemma length_dashed: "length h = 32 \<Longrightarrow> length (dashed h) = 36"
  by (simp add: dashed_def)

lemma undash_dashed:
  assumes "length h = 32"
  shows "undash (dashed h) = Some h"
proof -
  have "take 8 h @ take 4 (drop 8 h) @ take 4 (drop 12 h) @ take 4 (drop 16 h) @ drop 20 h = h"
    by (simp add: append_take_drop_id flip: append_assoc take_add)
  then show ?thesis
    using assms by (simp add: undash_def dashed_def nth_append)
qed

lemma uuid_parse_string [simp]: "uuid_parse (uuid_string u) = Some u"
proof -
  have lt: "unat u < 16 ^ 32" using unsigned_less [of u] by simp
  have "uuid_digits (uuid_string u) = Some (hex_digits 32 (unat u))"
    by (simp add: uuid_digits_def uuid_string_def length_dashed undash_dashed)
  moreover have "hex_number 0 (hex_digits 32 (unat u)) = Some (unat u)"
    using lt by (simp only: hex_number_hex_digits) simp
  ultimately show ?thesis by (simp add: uuid_parse_def)
qed

lemma uuid_string_inject: "uuid_string u = uuid_string v \<longleftrightarrow> u = v"
  by (metis option.inject uuid_parse_string)

lemma uuid_string_nonempty [simp]: "uuid_string u \<noteq> []" "[] \<noteq> uuid_string u"
  by (simp_all add: uuid_string_def dashed_def)

lemma length_uuid_string [simp]: "length (uuid_string u) = 36"
  by (simp add: uuid_string_def length_dashed)

lemma uuid_parse_empty [simp]: "uuid_parse [] = None"
  by (simp add: uuid_parse_def uuid_digits_def)

end
