(* ===== verification/Go_Error.thy ===== *)
theory Go_Error
  imports Prelude
begin

text \<open>
  Go error values as the repository distinguishes them. The sentinels of \<open>domain\<close>, \<open>event\<close>
  and \<open>auth\<close>, the ones of the \<open>context\<close> package and of the Postgres driver, a server-side
  Postgres error with its SQLSTATE, a \<open>net.Error\<close>, a plain \<open>errors.New\<close> text, an error that
  quotes the offending input (\<open>fmt.Errorf("... %q", raw)\<close>), and \<open>fmt.Errorf\<close> with \<open>%w\<close> verbs,
  which keeps what it wraps. \<open>errors_is\<close>, \<open>as_pg\<close> and \<open>as_net\<close> are \<open>errors.Is\<close> and
  \<open>errors.AsType\<close> at the two types the store asks for: they search the tree of wrapped errors
  depth first. A \<open>context.DeadlineExceeded\<close> implements \<open>net.Error\<close>.
\<close>

datatype go_error =
    ErrNotFound
  | ErrUnavailable
  | ErrInsufficientStock
  | ErrProductInUse
  | ErrIdempotencyMismatch
  | ErrUndeliverable
  | ErrInvalidToken
  | CtxCanceled
  | CtxDeadlineExceeded
  | ErrNoRows
  | PgError string
  | NetError string
  | ErrText string
  | ErrQuoted string string
  | Wrapped string "go_error list"

fun errors_is :: "go_error \<Rightarrow> go_error \<Rightarrow> bool" where
  "errors_is (Wrapped m es) t = (Wrapped m es = t \<or> list_ex (\<lambda>e. errors_is e t) es)"
| "errors_is e t = (e = t)"

fun as_pg :: "go_error \<Rightarrow> string option" where
  "as_pg (PgError c) = Some c"
| "as_pg (Wrapped m es) = foldr (\<lambda>e r. case as_pg e of Some c \<Rightarrow> Some c | None \<Rightarrow> r) es None"
| "as_pg _ = None"

fun as_net :: "go_error \<Rightarrow> bool" where
  "as_net (NetError m) = True"
| "as_net CtxDeadlineExceeded = True"
| "as_net (Wrapped m es) = list_ex as_net es"
| "as_net _ = False"

text \<open>\<open>fmt.Errorf("prefix: %w", err)\<close> and \<open>fmt.Errorf("%w: %w", a, b)\<close>.\<close>

definition errorf_w :: "string \<Rightarrow> go_error \<Rightarrow> go_error" where
  "errorf_w m e = Wrapped m [e]"

definition errorf_ww :: "go_error \<Rightarrow> go_error \<Rightarrow> go_error" where
  "errorf_ww a b = Wrapped ''%w: %w'' [a, b]"

lemma errors_is_refl [simp]: "errors_is e e"
  by (cases e) auto

definition is_sentinel :: "go_error \<Rightarrow> bool" where
  "is_sentinel t = (case t of Wrapped _ _ \<Rightarrow> False | _ \<Rightarrow> True)"

lemma errors_is_errorf [simp]:
  "is_sentinel t \<Longrightarrow> errors_is (errorf_w m e) t = errors_is e t"
  "is_sentinel t \<Longrightarrow> errors_is (errorf_ww a b) t = (errors_is a t \<or> errors_is b t)"
  by (auto simp: errorf_w_def errorf_ww_def is_sentinel_def)

lemma is_sentinel_simps [simp]:
  "is_sentinel ErrNotFound" "is_sentinel ErrUnavailable" "is_sentinel ErrInsufficientStock"
  "is_sentinel ErrProductInUse" "is_sentinel ErrIdempotencyMismatch" "is_sentinel ErrUndeliverable"
  "is_sentinel ErrInvalidToken" "is_sentinel CtxCanceled" "is_sentinel CtxDeadlineExceeded"
  "is_sentinel ErrNoRows" "is_sentinel (PgError c)"
  by (simp_all add: is_sentinel_def)

end
