(* ===== verification/Domain.thy ===== *)
theory Domain
  imports Uuid Go_Error
begin

text \<open>
  Package \<open>internal/domain\<close>: currencies and money, products, orders, keyset pages and
  cursors, the idempotency key, and the validations both transports run on input.
  \<open>int64\<close> fields are mathematical integers here; every place where the code computes with
  them keeps its width.
\<close>

section \<open>Money (money.go)\<close>

type_synonym currency = string

definition CurrencyPLN :: currency where "CurrencyPLN = ''PLN''"
definition CurrencyEUR :: currency where "CurrencyEUR = ''EUR''"
definition CurrencyUSD :: currency where "CurrencyUSD = ''USD''"
definition CurrencyGBP :: currency where "CurrencyGBP = ''GBP''"
definition CurrencyCHF :: currency where "CurrencyCHF = ''CHF''"

lemmas currency_defs =
  CurrencyPLN_def CurrencyEUR_def CurrencyUSD_def CurrencyGBP_def CurrencyCHF_def

record money =
  MinorAmount :: int
  Currency :: currency

definition currency_Valid :: "currency \<Rightarrow> bool" where
  "currency_Valid c \<longleftrightarrow>
     c = CurrencyPLN \<or> c = CurrencyEUR \<or> c = CurrencyUSD \<or> c = CurrencyGBP \<or> c = CurrencyCHF"

definition money_Validate :: "money \<Rightarrow> go_error option" where
  "money_Validate m =
     (if MinorAmount m \<le> 0 then Some (ErrText ''the product price must be positive'')
      else if \<not> currency_Valid (Currency m) then Some (ErrText ''the product currency is invalid'')
      else None)"

section \<open>Products (product.go)\<close>

record product =
  prod_ID :: uuid
  prod_Name :: string
  prod_Price :: money
  prod_Stock :: int
  prod_Version :: int

record product_page =
  pp_Items :: "product list"
  pp_HasMore :: bool

definition minPurchaseQuantity :: int where
  "minPurchaseQuantity = 1"

definition maxPurchaseQuantity :: int where
  "maxPurchaseQuantity = 10000"

definition ValidPurchaseQuantity :: "int \<Rightarrow> bool" where
  "ValidPurchaseQuantity qty \<longleftrightarrow> qty \<ge> minPurchaseQuantity \<and> qty \<le> maxPurchaseQuantity"

definition product_Validate :: "product \<Rightarrow> go_error option" where
  "product_Validate p =
     (if prod_Name p = '''' then Some (ErrText ''the product name is empty'')
      else case money_Validate (prod_Price p) of
        Some err \<Rightarrow> Some err
      | None \<Rightarrow>
          if prod_Stock p < 0 then Some (ErrText ''the product stock must not be negative'')
          else None)"

definition product_NextCursor :: "product_page \<Rightarrow> string" where
  "product_NextCursor p =
     (if \<not> pp_HasMore p \<or> length (pp_Items p) = 0 then ''''
      else uuid_string (prod_ID (pp_Items p ! (length (pp_Items p) - 1))))"

section \<open>Orders (order.go)\<close>

type_synonym timestamp = int

record order =
  ord_ID :: uuid
  ord_UserID :: uuid
  ord_ProductID :: uuid
  ord_Quantity :: int
  ord_UnitPrice :: money
  ord_CreatedAt :: timestamp

record order_page =
  op_Items :: "order list"
  op_HasMore :: bool

definition order_NextCursor :: "order_page \<Rightarrow> string" where
  "order_NextCursor p =
     (if \<not> op_HasMore p \<or> length (op_Items p) = 0 then ''''
      else let last' = op_Items p ! (length (op_Items p) - 1) in uuid_string (ord_ID last'))"

section \<open>Pagination (pagination.go)\<close>

definition DefaultPageSize :: int where
  "DefaultPageSize = 50"

definition MaxPageSize :: int where
  "MaxPageSize = 200"

record cursor =
  cur_id :: uuid
  cur_valid :: bool

definition zeroCursor :: cursor where
  "zeroCursor = \<lparr>cur_id = uuid_nil, cur_valid = False\<rparr>"

definition NewCursor :: "uuid \<Rightarrow> cursor" where
  "NewCursor i = \<lparr>cur_id = i, cur_valid = True\<rparr>"

definition cursor_After :: "cursor \<Rightarrow> uuid \<times> bool" where
  "cursor_After c = (cur_id c, cur_valid c)"

definition NormalizePageSize :: "int \<Rightarrow> int" where
  "NormalizePageSize n = (if n \<le> 0 then DefaultPageSize else min n MaxPageSize)"

definition ParseCursor :: "string \<Rightarrow> go_error + cursor" where
  "ParseCursor raw =
     (if raw = '''' then Inr zeroCursor
      else case uuid_parse raw of
        None \<Rightarrow> Inl (ErrQuoted ''invalid cursor: '' raw)
      | Some i \<Rightarrow> Inr (NewCursor i))"

section \<open>Idempotency (idempotency.go)\<close>

definition MaxIdempotencyKeyLen :: nat where
  "MaxIdempotencyKeyLen = 255"

type_synonym idempotency_key = string

section \<open>Properties\<close>

lemma product_Validate_None:
  "product_Validate p = None \<longleftrightarrow>
     prod_Name p \<noteq> '''' \<and> MinorAmount (prod_Price p) > 0 \<and> currency_Valid (Currency (prod_Price p))
     \<and> prod_Stock p \<ge> 0"
  by (auto simp: product_Validate_def money_Validate_def split: if_splits)

lemma product_Validate_ErrText: "product_Validate p = Some e \<Longrightarrow> \<exists>m. e = ErrText m"
  by (auto simp: product_Validate_def money_Validate_def split: if_splits option.splits)

lemma NormalizePageSize_bounds: "0 < NormalizePageSize n \<and> NormalizePageSize n \<le> 200"
  by (simp add: NormalizePageSize_def DefaultPageSize_def MaxPageSize_def)

lemma product_NextCursor_ParseCursor:
  "ParseCursor (product_NextCursor pg) =
     Inr (if pp_HasMore pg \<and> pp_Items pg \<noteq> []
          then NewCursor (prod_ID (last (pp_Items pg))) else zeroCursor)"
  by (auto simp: product_NextCursor_def ParseCursor_def last_conv_nth)

lemma order_NextCursor_ParseCursor:
  "ParseCursor (order_NextCursor pg) =
     Inr (if op_HasMore pg \<and> op_Items pg \<noteq> []
          then NewCursor (ord_ID (last (op_Items pg))) else zeroCursor)"
  by (auto simp: order_NextCursor_def ParseCursor_def last_conv_nth)

end
