(* ===== verification/Event.thy ===== *)
theory Event
  imports Domain
begin

text \<open>
  Package \<open>internal/event\<close>: the domain event and the stored record. The event's id
  (\<open>uuid.NewV7()\<close>) and instant (\<open>time.Now()\<close>) are arguments. \<open>event_json\<close> is the value
  \<open>json.Marshal\<close> writes for an event, which the JSONB column keeps: a tree, with \<open>JTime\<close> for
  the RFC 3339 text of an instant and the \<open>omitzero\<close> field left out when it is zero.
\<close>

datatype json =
    JNull
  | JBool bool
  | JInt int
  | JNum string
  | JStr string
  | JTime timestamp
  | JArr "json list"
  | JObj "(string \<times> json) list"

definition TypeCreated :: string where "TypeCreated = ''product.created''"
definition TypeUpdated :: string where "TypeUpdated = ''product.updated''"
definition TypeDeleted :: string where "TypeDeleted = ''product.deleted''"
definition TypePurchased :: string where "TypePurchased = ''product.purchased''"

lemmas event_type_defs = TypeCreated_def TypeUpdated_def TypeDeleted_def TypePurchased_def

record event =
  EventID :: uuid
  EventType :: string
  EventProductID :: uuid
  EventVersion :: int
  OccurredAt :: timestamp
  EventQuantity :: int
  EventStock :: int

record event_record =
  MessageID :: uuid
  RecType :: string
  Payload :: json

definition event_New :: "uuid \<Rightarrow> timestamp \<Rightarrow> string \<Rightarrow> product \<Rightarrow> event" where
  "event_New newV7 now eventType p =
     \<lparr>EventID = newV7, EventType = eventType, EventProductID = prod_ID p,
      EventVersion = prod_Version p, OccurredAt = now, EventQuantity = 0, EventStock = prod_Stock p\<rparr>"

definition NewPurchased :: "uuid \<Rightarrow> timestamp \<Rightarrow> product \<Rightarrow> int \<Rightarrow> event" where
  "NewPurchased newV7 now p qty =
     (let e = event_New newV7 now TypePurchased p in e\<lparr>EventQuantity := qty\<rparr>)"

definition event_json :: "event \<Rightarrow> json" where
  "event_json e = JObj
     ([(''eventId'', JStr (uuid_string (EventID e))),
       (''type'', JStr (EventType e)),
       (''productId'', JStr (uuid_string (EventProductID e))),
       (''version'', JInt (EventVersion e)),
       (''occurredAt'', JTime (OccurredAt e))]
      @ (if EventQuantity e = 0 then [] else [(''quantity'', JInt (EventQuantity e))])
      @ [(''stock'', JInt (EventStock e))])"

lemma event_json_inject: "event_json e = event_json e' \<longleftrightarrow> e = e'"
  by (cases e; cases e') (auto simp: event_json_def uuid_string_inject split: if_splits)

end
