(* ===== verification/Database.thy ===== *)
theory Database
  imports Event
begin

text \<open>
  The Postgres schema of \<open>migrations/*.sql\<close> and the statements of
  \<open>internal/store/queries.go\<close>. A table is the list of its rows. A statement is a function of
  the transaction's \<open>now()\<close> (microseconds) and the tables: an error with the SQLSTATE the
  server answers, or its result and the new tables. The constraints checked are the ones the
  migrations declare: primary and foreign keys, CHECKs, the column types' ranges and lengths,
  and the text encoding.
\<close>

section \<open>Schema\<close>

record products_row =
  p_id :: uuid
  p_name :: string
  p_price_minor :: int
  p_currency :: string
  p_stock :: int
  p_version :: int

record orders_row =
  o_id :: uuid
  o_user_id :: uuid
  o_product_id :: uuid
  o_quantity :: int
  o_unit_price_minor :: int
  o_currency :: string
  o_created_at :: timestamp

record idempotency_row =
  ik_user_id :: uuid
  ik_key :: string
  ik_request_hash :: string
  ik_order_id :: "uuid option"
  ik_expires_at :: timestamp

record outbox_table_row =
  ob_id :: int
  ob_message_id :: uuid
  ob_event_type :: string
  ob_payload :: json
  ob_attempts :: int
  ob_next_attempt_at :: timestamp
  ob_created_at :: timestamp

record outbox_dead_row =
  od_id :: int
  od_message_id :: uuid
  od_event_type :: string
  od_payload :: json
  od_attempts :: int
  od_created_at :: timestamp
  od_dead_at :: timestamp
  od_last_error :: go_error

text \<open>
  \<open>outbox_seq\<close> is the next value of the outbox identity column, \<open>wakeups\<close> counts the
  notifications on the outbox channel, which a transaction delivers only by committing.
\<close>

record database =
  products :: "products_row list"
  orders :: "orders_row list"
  idempotency_keys :: "idempotency_row list"
  outbox :: "outbox_table_row list"
  outbox_dead :: "outbox_dead_row list"
  outbox_seq :: int
  wakeups :: nat

definition empty_database :: database where
  "empty_database = \<lparr>products = [], orders = [], idempotency_keys = [], outbox = [],
     outbox_dead = [], outbox_seq = 1, wakeups = 0\<rparr>"

abbreviation ik_pk :: "idempotency_row \<Rightarrow> uuid \<times> string" where
  "ik_pk r \<equiv> (ik_user_id r, ik_key r)"

text \<open>Text values must be valid UTF-8 without a NUL byte; \<open>VARCHAR(n)\<close> counts characters and
  silently drops excess trailing spaces.\<close>

definition text_ok :: "string \<Rightarrow> bool" where
  "text_ok s \<longleftrightarrow> utf8_valid s \<and> list_all (\<lambda>c. byte_val c \<noteq> 0) s"

definition varchar_fit :: "nat \<Rightarrow> string \<Rightarrow> string option" where
  "varchar_fit n s =
     (if utf8_len s \<le> n then Some s
      else let k = utf8_len s - n in
        if list_all (\<lambda>c. c = CHR '' '') (drop (length s - k) s) then Some (take (length s - k) s)
        else None)"

definition products_check :: "products_row \<Rightarrow> bool" where
  "products_check r \<longleftrightarrow> p_price_minor r > 0 \<and> p_stock r \<ge> 0
     \<and> p_currency r \<in> set [''PLN'', ''EUR'', ''USD'', ''GBP'', ''CHF'']"

definition orders_check :: "orders_row \<Rightarrow> bool" where
  "orders_check r \<longleftrightarrow> o_quantity r > 0 \<and> o_unit_price_minor r > 0"

text \<open>SQLSTATE codes of the errors the constraints raise.\<close>

definition string_data_right_truncation :: go_error where
  "string_data_right_truncation = PgError ''22001''"
definition numeric_value_out_of_range :: go_error where
  "numeric_value_out_of_range = PgError ''22003''"
definition character_not_in_repertoire :: go_error where
  "character_not_in_repertoire = PgError ''22021''"
definition invalid_row_count_in_limit :: go_error where
  "invalid_row_count_in_limit = PgError ''2201W''"
definition restrict_violation :: go_error where
  "restrict_violation = PgError ''23001''"
definition foreign_key_violation :: go_error where
  "foreign_key_violation = PgError ''23503''"
definition unique_violation :: go_error where
  "unique_violation = PgError ''23505''"
definition check_violation :: go_error where
  "check_violation = PgError ''23514''"

text \<open>The driver refuses to encode a 64-bit argument for an \<open>INTEGER\<close> parameter out of range.\<close>

definition int4_encode_error :: go_error where
  "int4_encode_error = ErrText ''value is out of range for int4''"

lemmas sqlstate_defs =
  string_data_right_truncation_def numeric_value_out_of_range_def character_not_in_repertoire_def
  invalid_row_count_in_limit_def restrict_violation_def foreign_key_violation_def
  unique_violation_def check_violation_def int4_encode_error_def

section \<open>Statements\<close>

type_synonym 'a sql = "timestamp \<Rightarrow> database \<Rightarrow> go_error + ('a \<times> database)"

definition sql_limit :: "int \<Rightarrow> 'r list \<Rightarrow> go_error + 'r list" where
  "sql_limit n rs = (if n < 0 then Inl invalid_row_count_in_limit else Inr (take (nat n) rs))"

definition sql_select :: "(go_error + 'a) \<Rightarrow> database \<Rightarrow> go_error + ('a \<times> database)" where
  "sql_select r db = (case r of Inl e \<Rightarrow> Inl e | Inr x \<Rightarrow> Inr (x, db))"

subsection \<open>products\<close>

definition queryInsert :: "uuid \<Rightarrow> string \<Rightarrow> int \<Rightarrow> string \<Rightarrow> int \<Rightarrow> int list sql" where
  "queryInsert i name price cur stock now db =
     (if \<not> int32_ok stock then Inl int4_encode_error
      else if \<not> text_ok name \<or> \<not> text_ok cur then Inl character_not_in_repertoire
      else case (varchar_fit 100 name, varchar_fit 3 cur) of
        (Some nm, Some c) \<Rightarrow>
          let row = \<lparr>p_id = i, p_name = nm, p_price_minor = price, p_currency = c,
                     p_stock = stock, p_version = 1\<rparr> in
          if \<not> products_check row then Inl check_violation
          else if i \<in> p_id ` set (products db) then Inl unique_violation
          else Inr ([p_version row], db\<lparr>products := products db @ [row]\<rparr>)
      | _ \<Rightarrow> Inl string_data_right_truncation)"

definition queryGetByID :: "uuid \<Rightarrow> products_row list sql" where
  "queryGetByID i now db = Inr (filter (\<lambda>r. p_id r = i) (products db), db)"

definition queryGetAll :: "int \<Rightarrow> products_row list sql" where
  "queryGetAll n now db = sql_select (sql_limit n (sort_key p_id (products db))) db"

definition queryGetAllAfterCursor :: "uuid \<Rightarrow> int \<Rightarrow> products_row list sql" where
  "queryGetAllAfterCursor i n now db =
     sql_select (sql_limit n (sort_key p_id (filter (\<lambda>r. p_id r > i) (products db)))) db"

definition queryUpdate :: "uuid \<Rightarrow> string \<Rightarrow> int \<Rightarrow> string \<Rightarrow> products_row list sql" where
  "queryUpdate i name price cur now db =
     (if \<not> text_ok name \<or> \<not> text_ok cur then Inl character_not_in_repertoire
      else case find_key p_id i (products db) of
        None \<Rightarrow> Inr ([], db)
      | Some r \<Rightarrow>
          case (varchar_fit 100 name, varchar_fit 3 cur) of
            (Some nm, Some c) \<Rightarrow>
              if \<not> int64_ok (p_version r + 1) then Inl numeric_value_out_of_range
              else
                let r' = r\<lparr>p_name := nm, p_price_minor := price, p_currency := c,
                           p_version := p_version r + 1\<rparr> in
                if \<not> products_check r' then Inl check_violation
                else Inr ([r'], db\<lparr>products := update_key p_id i (\<lambda>_. r') (products db)\<rparr>)
          | _ \<Rightarrow> Inl string_data_right_truncation)"

definition queryDelete :: "uuid \<Rightarrow> int list sql" where
  "queryDelete i now db =
     (case find_key p_id i (products db) of
        None \<Rightarrow> Inr ([], db)
      | Some r \<Rightarrow>
          if \<not> int64_ok (p_version r + 1) then Inl numeric_value_out_of_range
          else if i \<in> o_product_id ` set (orders db) then Inl restrict_violation
          else Inr ([p_version r + 1], db\<lparr>products := delete_key p_id i (products db)\<rparr>))"

definition queryPurchase :: "uuid \<Rightarrow> int \<Rightarrow> products_row list sql" where
  "queryPurchase i qty now db =
     (if \<not> int32_ok qty then Inl int4_encode_error
      else case find_key p_id i (products db) of
        None \<Rightarrow> Inr ([], db)
      | Some r \<Rightarrow>
          if \<not> p_stock r \<ge> qty then Inr ([], db)
          else if \<not> int32_ok (p_stock r - qty) \<or> \<not> int64_ok (p_version r + 1)
          then Inl numeric_value_out_of_range
          else
            let r' = r\<lparr>p_stock := p_stock r - qty, p_version := p_version r + 1\<rparr> in
            Inr ([r'], db\<lparr>products := update_key p_id i (\<lambda>_. r') (products db)\<rparr>))"

definition queryProductExists :: "uuid \<Rightarrow> bool list sql" where
  "queryProductExists i now db = Inr ([i \<in> p_id ` set (products db)], db)"

subsection \<open>outbox\<close>

definition queryInsertOutbox :: "uuid \<Rightarrow> string \<Rightarrow> json \<Rightarrow> nat sql" where
  "queryInsertOutbox mid etype payload now db =
     (let row = \<lparr>ob_id = outbox_seq db, ob_message_id = mid, ob_event_type = etype,
                 ob_payload = payload, ob_attempts = 0, ob_next_attempt_at = now,
                 ob_created_at = now\<rparr> in
      Inr (1, db\<lparr>outbox := outbox db @ [row], outbox_seq := outbox_seq db + 1\<rparr>))"

definition queryNotifyOutbox :: "unit sql" where
  "queryNotifyOutbox now db = Inr ((), db\<lparr>wakeups := Suc (wakeups db)\<rparr>)"

text \<open>\<open>locked\<close> holds for the ids another relay's transaction has locked: \<open>SKIP LOCKED\<close>.\<close>

definition queryClaimOutbox :: "(int \<Rightarrow> bool) \<Rightarrow> int \<Rightarrow> outbox_table_row list sql" where
  "queryClaimOutbox locked n now db =
     sql_select
       (sql_limit n
         (sort_key ob_id
           (filter (\<lambda>r. ob_next_attempt_at r \<le> now \<and> \<not> locked (ob_id r)) (outbox db)))) db"

definition queryDeleteOutbox :: "int list \<Rightarrow> nat sql" where
  "queryDeleteOutbox ids now db =
     Inr (length (filter (\<lambda>r. ob_id r \<in> set ids) (outbox db)),
          db\<lparr>outbox := filter (\<lambda>r. ob_id r \<notin> set ids) (outbox db)\<rparr>)"

text \<open>
  \<open>POWER(2, attempts)\<close> is double precision: it overflows, and the statement fails, from
  2 to the 1024th on. Otherwise the delay is \<open>LEAST(2 ^ attempts, 30)\<close> seconds.
\<close>

definition bump_delay :: "int \<Rightarrow> int" where
  "bump_delay attempts = (if attempts < 5 then 2 ^ nat attempts else 30) * 1000000"

definition bump_fails :: "outbox_table_row \<Rightarrow> bool" where
  "bump_fails r \<longleftrightarrow> ob_attempts r \<ge> 1024 \<or> \<not> int32_ok (ob_attempts r + 1)"

definition bump_row :: "timestamp \<Rightarrow> outbox_table_row \<Rightarrow> outbox_table_row" where
  "bump_row now r =
     r\<lparr>ob_attempts := ob_attempts r + 1, ob_next_attempt_at := now + bump_delay (ob_attempts r)\<rparr>"

definition queryBumpOutbox :: "int list \<Rightarrow> nat sql" where
  "queryBumpOutbox ids now db =
     (let hit = filter (\<lambda>r. ob_id r \<in> set ids) (outbox db) in
      if list_ex bump_fails hit then Inl numeric_value_out_of_range
      else Inr (length hit,
        db\<lparr>outbox := map (\<lambda>r. if ob_id r \<in> set ids then bump_row now r else r) (outbox db)\<rparr>))"

definition queryDeadOutbox ::
  "int \<Rightarrow> uuid \<Rightarrow> string \<Rightarrow> json \<Rightarrow> int \<Rightarrow> timestamp \<Rightarrow> go_error \<Rightarrow> nat sql" where
  "queryDeadOutbox i mid etype payload attempts created err now db =
     (let row = \<lparr>od_id = i, od_message_id = mid, od_event_type = etype, od_payload = payload,
                 od_attempts = attempts, od_created_at = created, od_dead_at = now,
                 od_last_error = err\<rparr> in
      if i \<in> od_id ` set (outbox_dead db) then Inl unique_violation
      else Inr (1, db\<lparr>outbox_dead := outbox_dead db @ [row]\<rparr>))"

subsection \<open>orders\<close>

definition queryInsertOrder ::
  "uuid \<Rightarrow> uuid \<Rightarrow> uuid \<Rightarrow> int \<Rightarrow> int \<Rightarrow> string \<Rightarrow> timestamp list sql" where
  "queryInsertOrder i uid pid qty price cur now db =
     (if \<not> text_ok cur then Inl character_not_in_repertoire
      else case varchar_fit 3 cur of
        None \<Rightarrow> Inl string_data_right_truncation
      | Some c \<Rightarrow>
          let row = \<lparr>o_id = i, o_user_id = uid, o_product_id = pid, o_quantity = qty,
                     o_unit_price_minor = price, o_currency = c, o_created_at = now\<rparr> in
          if \<not> orders_check row then Inl check_violation
          else if i \<in> o_id ` set (orders db) then Inl unique_violation
          else if pid \<notin> p_id ` set (products db) then Inl foreign_key_violation
          else Inr ([o_created_at row], db\<lparr>orders := orders db @ [row]\<rparr>))"

definition queryGetOrderByID :: "uuid \<Rightarrow> uuid \<Rightarrow> orders_row list sql" where
  "queryGetOrderByID i uid now db =
     Inr (filter (\<lambda>r. o_id r = i \<and> o_user_id r = uid) (orders db), db)"

definition queryGetOrders :: "uuid \<Rightarrow> int \<Rightarrow> orders_row list sql" where
  "queryGetOrders uid n now db =
     sql_select (sql_limit n (rev (sort_key o_id (filter (\<lambda>r. o_user_id r = uid) (orders db))))) db"

definition queryGetOrdersAfterCursor :: "uuid \<Rightarrow> uuid \<Rightarrow> int \<Rightarrow> orders_row list sql" where
  "queryGetOrdersAfterCursor uid i n now db =
     sql_select
       (sql_limit n
         (rev (sort_key o_id (filter (\<lambda>r. o_user_id r = uid \<and> o_id r < i) (orders db))))) db"

subsection \<open>idempotency keys\<close>

text \<open>
  \<open>INSERT ... ON CONFLICT (user_id, key) DO UPDATE ... WHERE expires_at < now()\<close>: one row
  affected when the key is new or its row has expired, none when a live row holds it.
  \<open>ttl\<close> is the retention in microseconds.
\<close>

definition queryInsertIdempotency :: "uuid \<Rightarrow> string \<Rightarrow> string \<Rightarrow> int \<Rightarrow> nat sql" where
  "queryInsertIdempotency uid key hash ttl now db =
     (if \<not> text_ok key then Inl character_not_in_repertoire
      else case find_key ik_pk (uid, key) (idempotency_keys db) of
        None \<Rightarrow>
          let row = \<lparr>ik_user_id = uid, ik_key = key, ik_request_hash = hash,
                     ik_order_id = None, ik_expires_at = now + ttl\<rparr> in
          Inr (1, db\<lparr>idempotency_keys := idempotency_keys db @ [row]\<rparr>)
      | Some r \<Rightarrow>
          if ik_expires_at r < now
          then Inr (1, db\<lparr>idempotency_keys :=
                 update_key ik_pk (uid, key)
                   (\<lambda>r. r\<lparr>ik_request_hash := hash, ik_order_id := None, ik_expires_at := now + ttl\<rparr>)
                   (idempotency_keys db)\<rparr>)
          else Inr (0, db))"

definition querySelectIdempotency :: "uuid \<Rightarrow> string \<Rightarrow> (string \<times> orders_row) list sql" where
  "querySelectIdempotency uid key now db =
     Inr (concat (map (\<lambda>ik. map (\<lambda>r. (ik_request_hash ik, r))
                               (filter (\<lambda>r. ik_order_id ik = Some (o_id r)) (orders db)))
             (filter (\<lambda>ik. ik_user_id ik = uid \<and> ik_key ik = key) (idempotency_keys db))), db)"

definition queryUpdateIdempotencyResult :: "uuid \<Rightarrow> string \<Rightarrow> uuid \<Rightarrow> nat sql" where
  "queryUpdateIdempotencyResult uid key oid now db =
     (let hit = filter (\<lambda>r. ik_pk r = (uid, key)) (idempotency_keys db) in
      if hit \<noteq> [] \<and> oid \<notin> o_id ` set (orders db) then Inl foreign_key_violation
      else Inr (length hit, db\<lparr>idempotency_keys :=
             update_key ik_pk (uid, key) (\<lambda>r. r\<lparr>ik_order_id := Some oid\<rparr>) (idempotency_keys db)\<rparr>))"

definition queryPurgeIdempotency :: "nat sql" where
  "queryPurgeIdempotency now db =
     Inr (length (filter (\<lambda>r. ik_expires_at r < now) (idempotency_keys db)),
          db\<lparr>idempotency_keys := filter (\<lambda>r. \<not> ik_expires_at r < now) (idempotency_keys db)\<rparr>)"

lemmas query_defs [sql_defs] =
  sql_select_def sql_limit_def queryInsert_def queryGetByID_def queryGetAll_def
  queryGetAllAfterCursor_def queryUpdate_def queryDelete_def queryPurchase_def
  queryProductExists_def queryInsertOutbox_def queryNotifyOutbox_def queryClaimOutbox_def
  queryDeleteOutbox_def queryBumpOutbox_def queryDeadOutbox_def queryInsertOrder_def
  queryGetOrderByID_def queryGetOrders_def queryGetOrdersAfterCursor_def
  queryInsertIdempotency_def querySelectIdempotency_def queryUpdateIdempotencyResult_def
  queryPurgeIdempotency_def

lemma bump_delay_least_power:
  assumes "0 \<le> a"
  shows "bump_delay a = min (2 ^ nat a) 30 * 1000000"
proof (cases "a < 5")
  case True
  with assms have "nat a \<in> {0, 1, 2, 3, 4}" by auto
  then show ?thesis using True by (auto simp: bump_delay_def)
next
  case False
  then have "(2::int) ^ 5 \<le> 2 ^ nat a" by (intro power_increasing) auto
  then show ?thesis using False by (simp add: bump_delay_def)
qed

lemma utf8_len_append: "utf8_len (s @ t) = utf8_len s + utf8_len t"
  by (simp add: utf8_len_def)

lemma utf8_len_le_length: "utf8_len s \<le> length s"
  by (simp add: utf8_len_def)

lemma utf8_len_spaces: "list_all (\<lambda>c. c = CHR '' '') s \<Longrightarrow> utf8_len s = length s"
  by (induction s) (auto simp: utf8_len_def is_cont_def byte_val_def)

lemma varchar_fit_length: "varchar_fit n s = Some t \<Longrightarrow> utf8_len t \<le> n"
proof -
  assume fit: "varchar_fit n s = Some t"
  show ?thesis
  proof (cases "utf8_len s \<le> n")
    case True
    then show ?thesis using fit by (simp add: varchar_fit_def)
  next
    case False
    define m where "m = length s - (utf8_len s - n)"
    have t: "t = take m s" and sp: "list_all (\<lambda>c. c = CHR '' '') (drop m s)"
      using fit False by (auto simp: varchar_fit_def m_def Let_def split: if_splits)
    have "utf8_len s = utf8_len t + (length s - m)"
      using utf8_len_append [of "take m s" "drop m s"] utf8_len_spaces [OF sp] t by simp
    then show ?thesis using utf8_len_le_length [of s] False by (simp add: m_def)
  qed
qed

section \<open>Integrity of the tables\<close>

text \<open>
  What the schema guarantees of every state: keys are unique, CHECKs hold, foreign keys have a
  target, and outbox ids come from the identity column and are never shared with a dead letter.
\<close>

definition products_wf :: "products_row list \<Rightarrow> bool" where
  "products_wf ps \<longleftrightarrow> distinct (map p_id ps)
     \<and> (\<forall>r\<in>set ps. products_check r \<and> int32_ok (p_stock r) \<and> 1 \<le> p_version r
          \<and> utf8_len (p_name r) \<le> 100)"

definition orders_wf :: "products_row list \<Rightarrow> orders_row list \<Rightarrow> bool" where
  "orders_wf ps os \<longleftrightarrow> distinct (map o_id os)
     \<and> (\<forall>r\<in>set os. orders_check r \<and> o_product_id r \<in> p_id ` set ps)"

definition keys_wf :: "orders_row list \<Rightarrow> idempotency_row list \<Rightarrow> bool" where
  "keys_wf os ks \<longleftrightarrow> distinct (map ik_pk ks)
     \<and> (\<forall>k\<in>set ks. \<forall>oid. ik_order_id k = Some oid \<longrightarrow> oid \<in> o_id ` set os)"

definition outbox_wf :: "int \<Rightarrow> outbox_table_row list \<Rightarrow> outbox_dead_row list \<Rightarrow> bool" where
  "outbox_wf sq ob od \<longleftrightarrow> distinct (map ob_id ob) \<and> (\<forall>r\<in>set ob. 0 \<le> ob_attempts r \<and> ob_id r < sq)
     \<and> distinct (map od_id od) \<and> (\<forall>r\<in>set od. od_id r < sq)
     \<and> (\<forall>r\<in>set ob. \<forall>d\<in>set od. ob_id r \<noteq> od_id d)"

definition db_wf :: "database \<Rightarrow> bool" where
  "db_wf db \<longleftrightarrow> products_wf (products db) \<and> orders_wf (products db) (orders db)
     \<and> keys_wf (orders db) (idempotency_keys db)
     \<and> outbox_wf (outbox_seq db) (outbox db) (outbox_dead db)"

lemmas wf_defs [schema_defs] =
  db_wf_def products_wf_def orders_wf_def keys_wf_def outbox_wf_def

lemma db_wf_empty: "db_wf empty_database"
  by (simp add: schema_defs empty_database_def)

subsection \<open>Every statement keeps the integrity\<close>

lemma products_wfD:
  "products_wf ps \<Longrightarrow> r \<in> set ps \<Longrightarrow>
     products_check r \<and> int32_ok (p_stock r) \<and> 1 \<le> p_version r \<and> utf8_len (p_name r) \<le> 100"
  by (simp add: products_wf_def)

lemma products_wf_replace:
  assumes "products_wf ps" "p_id r' = i" "products_check r'" "int32_ok (p_stock r')"
    "1 \<le> p_version r'" "utf8_len (p_name r') \<le> 100"
  shows "products_wf (update_key p_id i (\<lambda>_. r') ps)"
proof -
  have "map p_id (update_key p_id i (\<lambda>_. r') ps) = map p_id ps"
    using assms(2) by (induction ps) (auto simp: update_key_def)
  then show ?thesis using assms by (auto simp: products_wf_def set_update_key)
qed

lemma p_id_update_key:
  "p_id r' = i \<Longrightarrow> p_id ` set (update_key p_id i (\<lambda>_. r') ps) = p_id ` set ps"
  by (induction ps) (auto simp: update_key_def)

lemma orders_wf_products:
  "orders_wf ps os \<Longrightarrow> p_id ` set ps \<subseteq> p_id ` set ps' \<Longrightarrow> orders_wf ps' os"
  by (auto simp: orders_wf_def)

lemma queryInsert_wf:
  assumes "queryInsert i name price cur stock now db = Inr (x, db')" "db_wf db"
  shows "db_wf db'"
proof -
  obtain nm c where nc: "varchar_fit 100 name = Some nm" "varchar_fit 3 cur = Some c"
    using assms(1) by (auto simp: queryInsert_def split: if_splits option.splits)
  define row where "row = \<lparr>p_id = i, p_name = nm, p_price_minor = price, p_currency = c,
      p_stock = stock, p_version = 1\<rparr>"
  have "products_check row" "i \<notin> p_id ` set (products db)" "int32_ok stock"
    and db': "db' = db\<lparr>products := products db @ [row]\<rparr>"
    using assms(1) nc by (auto simp: queryInsert_def Let_def row_def split: if_splits)
  moreover have "utf8_len nm \<le> 100" using nc(1) by (rule varchar_fit_length)
  ultimately show ?thesis
    using assms(2) by (auto simp: schema_defs row_def)
qed

lemma queryUpdate_wf:
  assumes "queryUpdate i name price cur now db = Inr (x, db')" "db_wf db"
  shows "db_wf db'"
proof (cases "find_key p_id i (products db)")
  case None
  then show ?thesis using assms by (auto simp: queryUpdate_def split: if_splits)
next
  case (Some r)
  then obtain nm c where nc: "varchar_fit 100 name = Some nm" "varchar_fit 3 cur = Some c"
    using assms(1) by (auto simp: queryUpdate_def split: if_splits option.splits)
  define r' where "r' = r\<lparr>p_name := nm, p_price_minor := price, p_currency := c,
      p_version := p_version r + 1\<rparr>"
  have chk: "products_check r'"
    and db': "db' = db\<lparr>products := update_key p_id i (\<lambda>_. r') (products db)\<rparr>"
    using assms(1) Some nc by (auto simp: queryUpdate_def Let_def r'_def split: if_splits)
  have r: "r \<in> set (products db)" "p_id r = i" using find_key_SomeD [OF Some] by auto
  have wf: "products_wf (products db)" using assms(2) by (simp add: db_wf_def)
  then have "products_wf (update_key p_id i (\<lambda>_. r') (products db))"
    by (rule products_wf_replace)
      (use r chk varchar_fit_length [OF nc(1)] products_wfD [OF wf r(1)] in \<open>simp_all add: r'_def\<close>)
  then show ?thesis
    using assms(2) r(2) p_id_update_key [of r' i "products db"]
    by (simp add: db_wf_def db' r'_def orders_wf_def)
qed

lemma queryDelete_wf:
  assumes "queryDelete i now db = Inr (x, db')" "db_wf db"
  shows "db_wf db'"
proof -
  have "i \<notin> o_product_id ` set os \<Longrightarrow> orders_wf ps os \<Longrightarrow> orders_wf (delete_key p_id i ps) os"
    for ps os by (force simp: orders_wf_def set_delete_key)
  moreover have "products_wf ps \<Longrightarrow> products_wf (delete_key p_id i ps)" for ps
    by (auto simp: products_wf_def distinct_map_delete_key set_delete_key)
  ultimately show ?thesis
    using assms by (auto simp: queryDelete_def db_wf_def split: option.splits if_splits)
qed

lemma queryPurchase_wf:
  assumes "queryPurchase i qty now db = Inr (x, db')" "db_wf db"
  shows "db_wf db'"
proof (cases "\<exists>r. find_key p_id i (products db) = Some r \<and> p_stock r \<ge> qty")
  case False
  then show ?thesis using assms by (auto simp: queryPurchase_def split: if_splits option.splits)
next
  case True
  then obtain r where Some: "find_key p_id i (products db) = Some r" and ge: "p_stock r \<ge> qty"
    by blast
  define r' where "r' = r\<lparr>p_stock := p_stock r - qty, p_version := p_version r + 1\<rparr>"
  have int: "int32_ok (p_stock r - qty)"
    and db': "db' = db\<lparr>products := update_key p_id i (\<lambda>_. r') (products db)\<rparr>"
    using assms(1) Some ge by (auto simp: queryPurchase_def Let_def r'_def split: if_splits)
  have r: "r \<in> set (products db)" "p_id r = i" using find_key_SomeD [OF Some] by auto
  have wf: "products_wf (products db)" using assms(2) by (simp add: db_wf_def)
  then have "products_wf (update_key p_id i (\<lambda>_. r') (products db))"
    by (rule products_wf_replace)
      (use r ge int products_wfD [OF wf r(1)] in \<open>simp_all add: r'_def products_check_def\<close>)
  then show ?thesis
    using assms(2) r(2) p_id_update_key [of r' i "products db"]
    by (simp add: db_wf_def db' r'_def orders_wf_def)
qed

lemma queryInsertOutbox_wf:
  "queryInsertOutbox mid t pl now db = Inr (x, db') \<Longrightarrow> db_wf db \<Longrightarrow> db_wf db'"
  by (fastforce simp: queryInsertOutbox_def Let_def schema_defs)

lemma queryNotifyOutbox_wf:
  "queryNotifyOutbox now db = Inr (x, db') \<Longrightarrow> db_wf db \<Longrightarrow> db_wf db'"
  by (auto simp: queryNotifyOutbox_def schema_defs)

lemma queryDeleteOutbox_wf:
  "queryDeleteOutbox ids now db = Inr (x, db') \<Longrightarrow> db_wf db \<Longrightarrow> db_wf db'"
  by (auto simp: queryDeleteOutbox_def schema_defs distinct_map_filter)

lemma ob_id_bump_row [simp]: "ob_id (bump_row now r) = ob_id r"
  by (simp add: bump_row_def)

lemma queryBumpOutbox_wf:
  assumes "queryBumpOutbox ids now db = Inr (x, db')" "db_wf db"
  shows "db_wf db'"
proof -
  have eq: "map ob_id (map (\<lambda>r. if ob_id r \<in> set ids then bump_row now r else r) rs) = map ob_id rs"
    for rs by (induction rs) auto
  have "outbox_wf sq (map (\<lambda>r. if ob_id r \<in> set ids then bump_row now r else r) ob) od"
    if "outbox_wf sq ob od" for sq ob od
    using that unfolding outbox_wf_def eq by (auto simp: bump_row_def)
  then show ?thesis
    using assms by (auto simp: queryBumpOutbox_def Let_def db_wf_def split: if_splits)
qed

lemma queryInsertOrder_wf:
  "queryInsertOrder i uid pid qty price cur now db = Inr (x, db') \<Longrightarrow> db_wf db \<Longrightarrow> db_wf db'"
  by (auto simp: queryInsertOrder_def Let_def schema_defs split: if_splits option.splits)

lemma queryInsertIdempotency_wf:
  assumes "queryInsertIdempotency uid key h ttl now db = Inr (x, db')" "db_wf db"
  shows "db_wf db'"
proof (cases "find_key ik_pk (uid, key) (idempotency_keys db)")
  case None
  have fresh: "(uid, key) \<notin> ik_pk ` set (idempotency_keys db)"
    using find_key_None [of ik_pk "(uid, key)" "idempotency_keys db"] None by blast
  show ?thesis
    using assms None fresh by (auto simp: queryInsertIdempotency_def Let_def schema_defs
        split: if_splits)
next
  case (Some r)
  then show ?thesis
    using assms by (auto simp: queryInsertIdempotency_def schema_defs set_update_key map_update_key
        split: if_splits)
qed

lemma queryUpdateIdempotencyResult_wf:
  assumes "queryUpdateIdempotencyResult uid key oid now db = Inr (x, db')" "db_wf db"
  shows "db_wf db'"
  using assms
  by (auto simp: queryUpdateIdempotencyResult_def Let_def schema_defs set_update_key map_update_key
      filter_empty_conv split: if_splits)

lemma queryPurgeIdempotency_wf:
  "queryPurgeIdempotency now db = Inr (x, db') \<Longrightarrow> db_wf db \<Longrightarrow> db_wf db'"
  by (auto simp: queryPurgeIdempotency_def schema_defs distinct_map_filter)

end
