(* ===== verification/Tx.thy ===== *)
theory Tx
  imports Database "HOL-Library.Sublist"
begin

text \<open>
  \<open>internal/store/postgres.go\<close>: the connection to Postgres, error mapping and transactions.
  A call to the database reads the next entry of a fault script: it succeeds, it fails before
  the server acts, or the server acts and the answer is lost (the commit of a transaction may
  take effect although the caller sees an error). An empty script is a healthy connection.
  A cancelled or expired context is a fault of kind \<^const>\<open>CtxCanceled\<close> or
  \<^const>\<open>CtxDeadlineExceeded\<close>. \<open>clock\<close> is the \<open>now()\<close> of the statement or transaction.
\<close>

datatype fault = NoFault | Failed go_error | AckLost go_error

record conn =
  tables :: database
  clock :: timestamp
  script :: "fault list"

type_synonym 'a tx = "conn \<Rightarrow> (go_error + 'a) \<times> conn"

section \<open>Error mapping\<close>

definition sqlStateLen :: nat where "sqlStateLen = 5"
definition sqlStateClassLen :: nat where "sqlStateClassLen = 2"
definition classConnectionException :: string where "classConnectionException = ''08''"
definition classInsufficientResources :: string where "classInsufficientResources = ''53''"
definition classOperatorIntervention :: string where "classOperatorIntervention = ''57''"
definition classSystemError :: string where "classSystemError = ''58''"
definition codeRestrictViolation :: string where "codeRestrictViolation = ''23001''"
definition codeForeignKeyViolation :: string where "codeForeignKeyViolation = ''23503''"

lemmas sqlclass_defs = sqlStateLen_def sqlStateClassLen_def classConnectionException_def
  classInsufficientResources_def classOperatorIntervention_def classSystemError_def
  codeRestrictViolation_def codeForeignKeyViolation_def

definition mapDBError :: "go_error \<Rightarrow> go_error" where
  "mapDBError err =
     (if errors_is err CtxCanceled \<or> errors_is err CtxDeadlineExceeded then err
      else case as_pg err of
        Some code \<Rightarrow>
          if length code = sqlStateLen
             \<and> take sqlStateClassLen code \<in> set [classConnectionException,
                 classInsufficientResources, classOperatorIntervention, classSystemError]
          then errorf_ww ErrUnavailable err
          else err
      | None \<Rightarrow> if as_net err then errorf_ww ErrUnavailable err else err)"

section \<open>Calls and transactions\<close>

definition tx_return :: "'a \<Rightarrow> 'a tx" where
  "tx_return x s = (Inr x, s)"

definition tx_raise :: "go_error \<Rightarrow> 'a tx" where
  "tx_raise e s = (Inl e, s)"

definition tx_bind :: "'a tx \<Rightarrow> ('a \<Rightarrow> 'b tx) \<Rightarrow> 'b tx" where
  "tx_bind m f s = (case m s of (Inl e, s') \<Rightarrow> (Inl e, s') | (Inr x, s') \<Rightarrow> f x s')"

text \<open>\<open>if err != nil { handler }\<close> after a call.\<close>

definition tx_catch :: "'a tx \<Rightarrow> (go_error \<Rightarrow> 'a tx) \<Rightarrow> 'a tx" where
  "tx_catch m h s = (case m s of (Inl e, s') \<Rightarrow> h e s' | (Inr x, s') \<Rightarrow> (Inr x, s'))"

definition next_fault :: "conn \<Rightarrow> fault \<times> conn" where
  "next_fault s = (case script s of [] \<Rightarrow> (NoFault, s) | f # r \<Rightarrow> (f, s\<lparr>script := r\<rparr>))"

definition tx_exec :: "'a sql \<Rightarrow> 'a tx" where
  "tx_exec q s =
     (case next_fault s of
        (NoFault, s1) \<Rightarrow>
          (case q (clock s1) (tables s1) of
             Inl e \<Rightarrow> (Inl e, s1)
           | Inr (x, db) \<Rightarrow> (Inr x, s1\<lparr>tables := db\<rparr>))
      | (Failed e, s1) \<Rightarrow> (Inl e, s1)
      | (AckLost e, s1) \<Rightarrow>
          (case q (clock s1) (tables s1) of
             Inl _ \<Rightarrow> (Inl e, s1)
           | Inr (_, db) \<Rightarrow> (Inl e, s1\<lparr>tables := db\<rparr>)))"

text \<open>\<open>QueryRow(...).Scan(...)\<close>: the first row, or \<open>pgx.ErrNoRows\<close>.\<close>

definition tx_query_row :: "'a list sql \<Rightarrow> 'a tx" where
  "tx_query_row q =
     tx_bind (tx_exec q) (\<lambda>rows. case rows of [] \<Rightarrow> tx_raise ErrNoRows | r # _ \<Rightarrow> tx_return r)"

text \<open>A driver call that touches no table: reading the next row, \<open>rows.Err()\<close>.\<close>

definition tx_tick :: "'a \<Rightarrow> 'a tx" where
  "tx_tick x s =
     (case next_fault s of
        (NoFault, s1) \<Rightarrow> (Inr x, s1) | (Failed e, s1) \<Rightarrow> (Inl e, s1) | (AckLost e, s1) \<Rightarrow> (Inl e, s1))"

text \<open>The loop \<open>for rows.Next() { x, err := scan(rows); ...; xs = append(xs, x) }\<close>, then
  \<open>rows.Err()\<close>.\<close>

fun scan_rows :: "('r \<Rightarrow> 'a) \<Rightarrow> 'a list \<Rightarrow> 'r list \<Rightarrow> 'a list tx" where
  "scan_rows scan acc [] = tx_tick acc"
| "scan_rows scan acc (r # rs) =
     tx_bind (tx_tick (scan r)) (\<lambda>x. scan_rows scan (acc @ [x]) rs)"

text \<open>A rollback restores every row; identity values drawn meanwhile stay used.\<close>

definition tx_rollback :: "conn \<Rightarrow> conn \<Rightarrow> conn" where
  "tx_rollback s0 s = s\<lparr>tables := (tables s0)\<lparr>outbox_seq := outbox_seq (tables s)\<rparr>\<rparr>"

definition tx_begin :: "unit tx" where
  "tx_begin = tx_tick ()"

definition tx_commit :: "conn \<Rightarrow> 'a \<Rightarrow> 'a tx" where
  "tx_commit s0 x s =
     (case next_fault s of
        (NoFault, s1) \<Rightarrow> (Inr x, s1)
      | (Failed e, s1) \<Rightarrow> (Inl e, tx_rollback s0 s1)
      | (AckLost e, s1) \<Rightarrow> (Inl e, s1))"

definition withTx :: "'a tx \<Rightarrow> 'a tx" where
  "withTx fn s =
     (case tx_begin s of
        (Inl err, s1) \<Rightarrow> (Inl (mapDBError err), s1)
      | (Inr _, s1) \<Rightarrow>
          (case fn s1 of
             (Inl err, s2) \<Rightarrow> (Inl (mapDBError err), tx_rollback s1 s2)
           | (Inr x, s2) \<Rightarrow>
               (case tx_commit s1 x s2 of
                  (Inl err, s3) \<Rightarrow> (Inl (mapDBError err), s3)
                | (Inr y, s3) \<Rightarrow> (Inr y, s3))))"

definition postgres_Ping :: "unit tx" where
  "postgres_Ping = tx_tick ()"

section \<open>Running without faults\<close>

lemma next_fault_nil [tx_simps]: "script s = [] \<Longrightarrow> next_fault s = (NoFault, s)"
  by (simp add: next_fault_def)

lemma tx_exec_nil [tx_simps]:
  "script s = [] \<Longrightarrow> tx_exec q s =
     (case q (clock s) (tables s) of Inl e \<Rightarrow> (Inl e, s) | Inr (x, db) \<Rightarrow> (Inr x, s\<lparr>tables := db\<rparr>))"
  by (simp add: tx_exec_def next_fault_nil)

lemma tx_tick_nil [tx_simps]: "script s = [] \<Longrightarrow> tx_tick x s = (Inr x, s)"
  by (simp add: tx_tick_def next_fault_nil)

lemma scan_rows_nil [tx_simps]:
  "script s = [] \<Longrightarrow> scan_rows f acc rs s = (Inr (acc @ map f rs), s)"
  by (induction rs arbitrary: acc) (simp_all add: tx_bind_def tx_tick_nil)

lemma withTx_nil [tx_simps]:
  assumes "script s = []" "fn s = (r, s')" "script s' = []"
  shows "withTx fn s = (case r of Inl e \<Rightarrow> (Inl (mapDBError e), tx_rollback s s') | Inr x \<Rightarrow> (Inr x, s'))"
  using assms
  by (auto simp: withTx_def tx_begin_def tx_commit_def tx_tick_nil next_fault_nil split: sum.splits)

lemma tx_rollback_same [simp]: "tx_rollback s s = s"
  by (simp add: tx_rollback_def)

lemmas tx_unfold [tx_simps] = tx_return_def tx_raise_def tx_bind_def tx_catch_def tx_query_row_def

text \<open>No step refills the script, and none moves the clock.\<close>

definition tx_frame :: "'a tx \<Rightarrow> bool" where
  "tx_frame m \<longleftrightarrow> (\<forall>s. clock (snd (m s)) = clock s \<and> suffix (script (snd (m s))) (script s))"

lemma tx_frameD:
  "tx_frame m \<Longrightarrow> m s = (r, s') \<Longrightarrow> clock s' = clock s \<and> suffix (script s') (script s)"
  by (metis snd_conv tx_frame_def)

lemma next_fault_frame:
  "next_fault s = (f, s') \<Longrightarrow>
     tables s' = tables s \<and> clock s' = clock s \<and> suffix (script s') (script s)
     \<and> (f \<noteq> NoFault \<longrightarrow> f \<in> set (script s))"
  by (auto simp: next_fault_def suffix_ConsI split: list.splits)

lemma tx_frame_prims [intro]:
  "tx_frame (tx_return x)" "tx_frame (tx_raise e)" "tx_frame (tx_tick y)" "tx_frame (tx_exec q)"
proof -
  show "tx_frame (tx_return x)" "tx_frame (tx_raise e)"
    by (auto simp: tx_frame_def tx_return_def tx_raise_def)
  show "tx_frame (tx_tick y)"
    by (auto simp: tx_frame_def tx_tick_def next_fault_def suffix_ConsI
        split: list.splits fault.splits)
  show "tx_frame (tx_exec q)"
    by (auto simp: tx_frame_def tx_exec_def next_fault_def suffix_ConsI
        split: list.splits fault.splits sum.splits)
qed

lemma tx_frame_bind [intro]:
  assumes m: "tx_frame m" and f: "\<And>x. tx_frame (f x)"
  shows "tx_frame (tx_bind m f)"
  unfolding tx_frame_def
proof
  fix s
  obtain r s1 where 1: "m s = (r, s1)" by fastforce
  show "clock (snd (tx_bind m f s)) = clock s \<and> suffix (script (snd (tx_bind m f s))) (script s)"
  proof (cases r)
    case (Inl e)
    then show ?thesis using 1 tx_frameD [OF m 1] by (simp add: tx_bind_def)
  next
    case (Inr x)
    obtain r2 s2 where 2: "f x s1 = (r2, s2)" by fastforce
    show ?thesis
      using Inr 1 2 tx_frameD [OF m 1] tx_frameD [OF f 2] suffix_order.trans
      by (auto simp: tx_bind_def)
  qed
qed

lemma tx_frame_catch [intro]:
  assumes m: "tx_frame m" and h: "\<And>e. tx_frame (h e)"
  shows "tx_frame (tx_catch m h)"
  unfolding tx_frame_def
proof
  fix s
  obtain r s1 where 1: "m s = (r, s1)" by fastforce
  show "clock (snd (tx_catch m h s)) = clock s \<and> suffix (script (snd (tx_catch m h s))) (script s)"
  proof (cases r)
    case (Inr x)
    then show ?thesis using 1 tx_frameD [OF m 1] by (simp add: tx_catch_def)
  next
    case (Inl e)
    obtain r2 s2 where 2: "h e s1 = (r2, s2)" by fastforce
    show ?thesis
      using Inl 1 2 tx_frameD [OF m 1] tx_frameD [OF h 2] suffix_order.trans
      by (auto simp: tx_catch_def)
  qed
qed

lemma tx_frame_query_row [intro]: "tx_frame (tx_query_row q)"
  unfolding tx_query_row_def by (rule tx_frame_bind) (auto split: list.split)

section \<open>Transactions are all or nothing\<close>

definition same_rows :: "database \<Rightarrow> database \<Rightarrow> bool" where
  "same_rows a b \<longleftrightarrow> b\<lparr>outbox_seq := outbox_seq a\<rparr> = a"

lemma same_rows_refl [simp]: "same_rows a a"
  by (simp add: same_rows_def)

lemma same_rows_sel:
  assumes "same_rows a b"
  shows "products b = products a" "orders b = orders a" "idempotency_keys b = idempotency_keys a"
    "outbox b = outbox a" "outbox_dead b = outbox_dead a" "wakeups b = wakeups a"
  using arg_cong [OF assms [unfolded same_rows_def], of products]
    arg_cong [OF assms [unfolded same_rows_def], of orders]
    arg_cong [OF assms [unfolded same_rows_def], of idempotency_keys]
    arg_cong [OF assms [unfolded same_rows_def], of outbox]
    arg_cong [OF assms [unfolded same_rows_def], of outbox_dead]
    arg_cong [OF assms [unfolded same_rows_def], of wakeups]
  by simp_all

lemma same_rows_trans: "same_rows a b \<Longrightarrow> same_rows b c \<Longrightarrow> same_rows a c"
  by (simp add: same_rows_def) (metis database.update_convs(6) database.surjective)

lemma same_rows_rollback [simp]: "same_rows (tables s0) (tables (tx_rollback s0 s))"
  by (simp add: same_rows_def tx_rollback_def)

text \<open>
  Whatever the faults, a transaction either leaves every row as it was and reports an error, or
  applies the whole of its body; only a lost answer to the commit reports an error although
  the body was applied.
\<close>

lemma withTx_all_or_nothing:
  assumes frame: "tx_frame fn" and run: "withTx fn s = (r, s')"
  obtains (nothing) e where "r = Inl e" "same_rows (tables s) (tables s')"
  | (all) s1 x s2 where "tables s1 = tables s" "clock s1 = clock s" "suffix (script s1) (script s)"
      "fn s1 = (Inr x, s2)" "tables s' = tables s2"
      "r = Inr x \<or> (\<exists>e. r = Inl (mapDBError e) \<and> AckLost e \<in> set (script s))"
proof -
  obtain f1 s1 where f1: "next_fault s = (f1, s1)" by fastforce
  obtain b s2 where b: "fn s1 = (b, s2)" by fastforce
  obtain f3 s3 where f3: "next_fault s2 = (f3, s3)" by fastforce
  note n1 = next_fault_frame [OF f1] and n3 = next_fault_frame [OF f3]
  have sub: "set (script s2) \<subseteq> set (script s)"
    using tx_frameD [OF frame b] n1 by (meson dual_order.trans set_mono_suffix)
  show thesis
  proof (cases "f1 = NoFault \<and> is_ok b \<and> (\<forall>e. f3 \<noteq> Failed e)")
    case False
    then have "\<not> is_ok r \<and> same_rows (tables s) (tables s')"
      using run f1 b f3 n1
      by (cases f1; cases b; cases f3)
        (auto simp: withTx_def tx_begin_def tx_tick_def tx_commit_def same_rows_def tx_rollback_def)
    then have rows: "same_rows (tables s) (tables s')" and "\<not> is_ok r" by auto
    then obtain e where "r = Inl e" by (cases r) auto
    then show thesis using rows by (rule nothing)
  next
    case True
    then obtain x where x: "f1 = NoFault" "b = Inr x" by (cases b) auto
    have "tables s' = tables s2
        \<and> (r = Inr x \<or> (\<exists>e. r = Inl (mapDBError e) \<and> AckLost e \<in> set (script s)))"
      using run f1 b f3 n3 x True sub
      by (cases f3) (auto simp: withTx_def tx_begin_def tx_tick_def tx_commit_def)
    then show thesis using all [of s1 x s2] n1 b x by simp
  qed
qed

section \<open>Relations every step respects\<close>

text \<open>
  A property of what a call may do to the tables is a relation between the tables before and
  after it. The locale lifts a relation from statements to the whole of the monad: through
  sequencing, error handling, row loops and transactions, whatever the faults.
\<close>

definition tx_rel :: "(database \<Rightarrow> database \<Rightarrow> bool) \<Rightarrow> 'a tx \<Rightarrow> bool" where
  "tx_rel R m \<longleftrightarrow> (\<forall>s. R (tables s) (tables (snd (m s))))"

definition sql_rel :: "(database \<Rightarrow> database \<Rightarrow> bool) \<Rightarrow> 'a sql \<Rightarrow> bool" where
  "sql_rel R q \<longleftrightarrow> (\<forall>now db x db'. q now db = Inr (x, db') \<longrightarrow> R db db')"

locale table_relation =
  fixes R :: "database \<Rightarrow> database \<Rightarrow> bool"
  assumes R_refl: "R db db"
    and R_trans: "R a b \<Longrightarrow> R b c \<Longrightarrow> R a c"
    and R_seq: "R a b \<Longrightarrow> R a (a\<lparr>outbox_seq := outbox_seq b\<rparr>)"
begin

lemma rel_return: "tx_rel R (tx_return x)"
  by (simp add: tx_rel_def tx_return_def R_refl)

lemma rel_raise: "tx_rel R (tx_raise e)"
  by (simp add: tx_rel_def tx_raise_def R_refl)

lemma rel_tick: "tx_rel R (tx_tick x)"
  by (auto simp: tx_rel_def tx_tick_def next_fault_def R_refl split: list.splits fault.splits)

lemma rel_exec: "sql_rel R q \<Longrightarrow> tx_rel R (tx_exec q)"
  by (auto simp: tx_rel_def sql_rel_def tx_exec_def next_fault_def R_refl
      split: list.splits fault.splits sum.splits prod.splits)

lemma rel_bind:
  assumes m: "tx_rel R m" and f: "\<And>x. tx_rel R (f x)"
  shows "tx_rel R (tx_bind m f)"
  unfolding tx_rel_def
proof
  fix s
  have "R (tables s) (tables (snd (m s)))" using m by (simp add: tx_rel_def)
  then show "R (tables s) (tables (snd (tx_bind m f s)))"
    using f by (auto simp: tx_rel_def tx_bind_def split: prod.splits sum.splits) (metis R_trans snd_conv)
qed

lemma rel_catch:
  assumes m: "tx_rel R m" and h: "\<And>e. tx_rel R (h e)"
  shows "tx_rel R (tx_catch m h)"
  unfolding tx_rel_def
proof
  fix s
  have "R (tables s) (tables (snd (m s)))" using m by (simp add: tx_rel_def)
  then show "R (tables s) (tables (snd (tx_catch m h s)))"
    using h by (auto simp: tx_rel_def tx_catch_def split: prod.splits sum.splits) (metis R_trans snd_conv)
qed

lemma rel_query_row: "sql_rel R q \<Longrightarrow> tx_rel R (tx_query_row q)"
  unfolding tx_query_row_def
  by (rule rel_bind) (auto intro: rel_exec rel_raise rel_return split: list.split)

lemma rel_scan_rows: "tx_rel R (scan_rows f acc rs)"
  by (induction rs arbitrary: acc) (auto intro!: rel_bind rel_tick)

lemma rel_withTx:
  assumes fn: "tx_rel R fn"
  shows "tx_rel R (withTx fn)"
  unfolding tx_rel_def
proof
  fix s
  obtain b s1 where b: "tx_begin s = (b, s1)" by fastforce
  obtain r s2 where r: "fn s1 = (r, s2)" by fastforce
  obtain f s3 where f: "next_fault s2 = (f, s3)" by fastforce
  have s1: "tables s1 = tables s" using b
    by (auto simp: tx_begin_def tx_tick_def next_fault_def split: list.splits fault.splits)
  have s3: "tables s3 = tables s2" using f
    by (auto simp: next_fault_def split: list.splits)
  have R2: "R (tables s) (tables s2)" using fn r s1 by (simp add: tx_rel_def) (metis snd_conv)
  show "R (tables s) (tables (snd (withTx fn s)))"
    using b r f s1 s3 R2 R_seq [OF R2]
    by (cases b; cases r; cases f)
      (auto simp: withTx_def tx_commit_def tx_rollback_def R_refl)
qed

lemmas rel_intros = rel_return rel_raise rel_tick rel_exec rel_bind rel_catch rel_query_row
  rel_scan_rows rel_withTx

end

text \<open>Integrity of the tables is such a relation.\<close>

definition keeps_wf :: "database \<Rightarrow> database \<Rightarrow> bool" where
  "keeps_wf a b \<longleftrightarrow> (db_wf a \<longrightarrow> db_wf b) \<and> outbox_seq a \<le> outbox_seq b"

interpretation wf_rel: table_relation keeps_wf
proof
  fix a b :: database
  assume "keeps_wf a b"
  then show "keeps_wf a (a\<lparr>outbox_seq := outbox_seq b\<rparr>)"
    by (auto simp: keeps_wf_def db_wf_def outbox_wf_def)
qed (auto simp: keeps_wf_def)

lemma sql_relI: "(\<And>now db x db'. q now db = Inr (x, db') \<Longrightarrow> R db db') \<Longrightarrow> sql_rel R q"
  by (auto simp: sql_rel_def)

definition seq_le :: "database \<Rightarrow> database \<Rightarrow> bool" where
  "seq_le a b \<longleftrightarrow> outbox_seq a \<le> outbox_seq b"

lemma sql_rel_keeps_wfI:
  assumes "\<And>now db x db'. q now db = Inr (x, db') \<Longrightarrow> db_wf db \<Longrightarrow> db_wf db'"
    and "sql_rel seq_le q"
  shows "sql_rel keeps_wf q"
  using assms by (auto simp: sql_rel_def keeps_wf_def seq_le_def)

text \<open>A SELECT leaves the tables as they are.\<close>

lemma select_same:
  "sql_rel (=) (queryGetByID i)" "sql_rel (=) (queryGetAll n)"
  "sql_rel (=) (queryGetAllAfterCursor i n)" "sql_rel (=) (queryProductExists i)"
  "sql_rel (=) (queryGetOrderByID i uid)" "sql_rel (=) (queryGetOrders uid n)"
  "sql_rel (=) (queryGetOrdersAfterCursor uid i n)"
  "sql_rel (=) (querySelectIdempotency uid key)" "sql_rel (=) (queryClaimOutbox lk n)"
  by (auto simp: sql_rel_def sql_defs split: sum.splits if_splits)

lemma select_rel:
  assumes "sql_rel (=) q" and "\<And>db. R db db"
  shows "sql_rel R q"
  using assms unfolding sql_rel_def by metis

lemmas select_keeps_wf = select_same [THEN select_rel [where R = keeps_wf], OF wf_rel.R_refl]

lemma write_seq_le:
  "sql_rel seq_le (queryInsert i name price cur stock)"
  "sql_rel seq_le (queryUpdate i name price cur)"
  "sql_rel seq_le (queryDelete i)"
  "sql_rel seq_le (queryPurchase i qty)"
  "sql_rel seq_le (queryInsertOutbox mid t pl)"
  "sql_rel seq_le queryNotifyOutbox"
  "sql_rel seq_le (queryDeleteOutbox ids)"
  "sql_rel seq_le (queryBumpOutbox ids)"
  "sql_rel seq_le (queryInsertOrder i uid pid qty price cur)"
  "sql_rel seq_le (queryInsertIdempotency uid key h ttl)"
  "sql_rel seq_le (queryUpdateIdempotencyResult uid key oid)"
  "sql_rel seq_le queryPurgeIdempotency"
  by (auto simp: sql_rel_def sql_defs seq_le_def Let_def split: option.splits if_splits)

lemmas write_keeps_wf =
  sql_rel_keeps_wfI [OF queryInsert_wf write_seq_le(1)]
  sql_rel_keeps_wfI [OF queryUpdate_wf write_seq_le(2)]
  sql_rel_keeps_wfI [OF queryDelete_wf write_seq_le(3)]
  sql_rel_keeps_wfI [OF queryPurchase_wf write_seq_le(4)]
  sql_rel_keeps_wfI [OF queryInsertOutbox_wf write_seq_le(5)]
  sql_rel_keeps_wfI [OF queryNotifyOutbox_wf write_seq_le(6)]
  sql_rel_keeps_wfI [OF queryDeleteOutbox_wf write_seq_le(7)]
  sql_rel_keeps_wfI [OF queryBumpOutbox_wf write_seq_le(8)]
  sql_rel_keeps_wfI [OF queryInsertOrder_wf write_seq_le(9)]
  sql_rel_keeps_wfI [OF queryInsertIdempotency_wf write_seq_le(10)]
  sql_rel_keeps_wfI [OF queryUpdateIdempotencyResult_wf write_seq_le(11)]
  sql_rel_keeps_wfI [OF queryPurgeIdempotency_wf write_seq_le(12)]

section \<open>What a committed body did\<close>

text \<open>
  A body is strict when it succeeds only if none of its calls failed: then a committed run under
  any faults did to the tables what the same run does on a healthy connection.
\<close>

definition tx_strict :: "'a tx \<Rightarrow> bool" where
  "tx_strict m \<longleftrightarrow> (\<forall>s x s'. m s = (Inr x, s') \<longrightarrow> m (s\<lparr>script := []\<rparr>) = (Inr x, s'\<lparr>script := []\<rparr>))"

definition tx_fails :: "'a tx \<Rightarrow> bool" where
  "tx_fails m \<longleftrightarrow> (\<forall>s. \<not> is_ok (fst (m s)))"

lemma tx_fails_raise [intro]: "tx_fails (tx_raise e)"
  by (simp add: tx_fails_def tx_raise_def)

lemma tx_fails_bind [intro]: "(\<And>x. tx_fails (f x)) \<Longrightarrow> tx_fails (tx_bind m f)"
  by (auto simp: tx_fails_def tx_bind_def split: prod.split sum.split)

lemma tx_strict_fails: "tx_fails m \<Longrightarrow> tx_strict m"
  unfolding tx_fails_def tx_strict_def by (metis fst_conv is_ok_simps(1))

lemma tx_strict_prims [intro]:
  "tx_strict (tx_return x)" "tx_strict (tx_raise e)" "tx_strict (tx_exec q)"
  by (auto simp: tx_strict_def tx_return_def tx_raise_def tx_exec_def next_fault_def
      split: list.splits fault.splits sum.splits prod.splits)

lemma tx_strict_bind [intro]:
  assumes m: "tx_strict m" and f: "\<And>x. tx_strict (f x)"
  shows "tx_strict (tx_bind m f)"
  unfolding tx_strict_def
proof (intro allI impI)
  fix s y s'
  assume run: "tx_bind m f s = (Inr y, s')"
  obtain r s1 where 1: "m s = (r, s1)" by fastforce
  then obtain x where x: "r = Inr x" "f x s1 = (Inr y, s')"
    using run by (cases r) (auto simp: tx_bind_def)
  then show "tx_bind m f (s\<lparr>script := []\<rparr>) = (Inr y, s'\<lparr>script := []\<rparr>)"
    using m f 1 by (simp add: tx_strict_def tx_bind_def)
qed

lemma tx_strict_catch [intro]:
  assumes m: "tx_strict m" and h: "\<And>e. tx_fails (h e)"
  shows "tx_strict (tx_catch m h)"
  unfolding tx_strict_def
proof (intro allI impI)
  fix s x s'
  assume run: "tx_catch m h s = (Inr x, s')"
  obtain r s1 where 1: "m s = (r, s1)" by fastforce
  have "r = Inr x \<and> s1 = s'"
  proof (cases r)
    case (Inl e)
    then show ?thesis
      using run 1 h [of e] by (auto simp: tx_catch_def tx_fails_def) (metis fst_conv is_ok_simps(1))
  next
    case (Inr y)
    then show ?thesis using run 1 by (simp add: tx_catch_def)
  qed
  then show "tx_catch m h (s\<lparr>script := []\<rparr>) = (Inr x, s'\<lparr>script := []\<rparr>)"
    using m 1 by (simp add: tx_strict_def tx_catch_def)
qed

lemma tx_strict_query_row [intro]: "tx_strict (tx_query_row q)"
  unfolding tx_query_row_def by (rule tx_strict_bind) (auto split: list.split)

lemma withTx_outcome:
  assumes "tx_frame fn" "tx_strict fn" "withTx fn s = (r, s')"
  obtains (nothing) e where "r = Inl e" "same_rows (tables s) (tables s')"
  | (all) x t where "fn (s\<lparr>script := []\<rparr>) = (Inr x, t)" "tables s' = tables t"
      "r = Inr x \<or> (\<exists>e. r = Inl (mapDBError e) \<and> AckLost e \<in> set (script s))"
  using assms(1,3)
proof (cases rule: withTx_all_or_nothing)
  case (nothing e)
  then show thesis by (rule that(1))
next
  case (all s1 x s2)
  have "s1\<lparr>script := []\<rparr> = s\<lparr>script := []\<rparr>" using all(1,2) by (cases s1; cases s) simp
  then have "fn (s\<lparr>script := []\<rparr>) = (Inr x, s2\<lparr>script := []\<rparr>)"
    using assms(2) all(4) unfolding tx_strict_def by metis
  then show thesis using all(5,6) by (intro that(2) [of x "s2\<lparr>script := []\<rparr>"]) auto
qed

end
