(* ===== verification/Keyset.thy ===== *)
theory Keyset
  imports Prelude
begin

text \<open>
  Keyset pagination, stated once for every paged listing. A listing shows the rows of a state
  in a strict order of their keys; a page after a cursor holds the first \<open>n\<close> rows that come
  strictly after it and says whether more follow. \<open>walk\<close> is a client that asks for the first
  page and then keeps passing the key of the last row it got, until a page is the last.
  The locale's lemmas show that such a client sees every row once, in order.
\<close>

fun walk :: "('k option \<Rightarrow> 'r list \<times> bool) \<Rightarrow> ('r \<Rightarrow> 'k) \<Rightarrow> nat \<Rightarrow> 'k option \<Rightarrow> 'r list option" where
  "walk fetch key 0 c = None"
| "walk fetch key (Suc fuel) c =
     (case fetch c of (items, more) \<Rightarrow>
        if more \<and> items \<noteq> []
        then map_option ((@) items) (walk fetch key fuel (Some (key (last items))))
        else Some items)"

lemma split_at_last:
  assumes "take n xs \<noteq> []"
  shows "butlast (take n xs) @ last (take n xs) # drop n xs = xs"
proof -
  have "(butlast (take n xs) @ [last (take n xs)]) @ drop n xs = xs"
    unfolding append_butlast_last_id [OF assms] by (rule append_take_drop_id)
  then show ?thesis by simp
qed

locale keyset_listing =
  fixes invar :: "'s \<Rightarrow> bool"
    and rows :: "'s \<Rightarrow> 'r list"
    and key :: "'r \<Rightarrow> 'k"
    and before :: "'k \<Rightarrow> 'k \<Rightarrow> bool"
    and page_cap :: nat
    and fetch :: "'s \<Rightarrow> nat \<Rightarrow> 'k option \<Rightarrow> 'r list \<times> bool"
  assumes before_trans: "before a b \<Longrightarrow> before b c \<Longrightarrow> before a c"
    and before_irrefl: "\<not> before a a"
    and rows_sorted: "invar s \<Longrightarrow> sorted_wrt (\<lambda>a b. before (key a) (key b)) (rows s)"
    and fetch_first: "invar s \<Longrightarrow> 0 < n \<Longrightarrow> n \<le> page_cap \<Longrightarrow>
      fetch s n None = (take n (rows s), n < length (rows s))"
    and fetch_after: "invar s \<Longrightarrow> 0 < n \<Longrightarrow> n \<le> page_cap \<Longrightarrow> fetch s n (Some k) =
      (let rest = filter (\<lambda>r. before k (key r)) (rows s) in (take n rest, n < length rest))"
begin

lemma filter_after:
  assumes "invar s" "rows s = xs @ y # ys"
  shows "filter (\<lambda>r. before (key y) (key r)) (rows s) = ys"
proof -
  have "sorted_wrt (\<lambda>a b. before (key a) (key b)) (xs @ y # ys)"
    using rows_sorted [OF assms(1)] assms(2) by simp
  then have lt: "\<forall>x\<in>set xs. before (key x) (key y)" and gt: "\<forall>r\<in>set ys. before (key y) (key r)"
    by (simp_all add: sorted_wrt_append)
  have "filter (\<lambda>r. before (key y) (key r)) xs = []"
    using lt before_trans before_irrefl by (simp add: filter_empty_conv) blast
  moreover have "filter (\<lambda>r. before (key y) (key r)) ys = ys"
    using gt by (simp add: filter_id_conv)
  ultimately show ?thesis
    using assms(2) before_irrefl by simp
qed

lemma walk_rest:
  assumes "invar s" "0 < n" "n \<le> page_cap"
  shows "rows s = xs @ y # ys \<Longrightarrow> length ys < fuel \<Longrightarrow>
    walk (fetch s n) key fuel (Some (key y)) = Some ys"
proof (induction fuel arbitrary: xs y ys)
  case 0
  then show ?case by simp
next
  case (Suc fuel)
  have page: "fetch s n (Some (key y)) = (take n ys, n < length ys)"
    using fetch_after [OF assms] filter_after [OF assms(1) Suc.prems(1)] by simp
  show ?case
  proof (cases "n < length ys")
    case False
    then show ?thesis using page by simp
  next
    case True
    define z where "z = last (take n ys)"
    have ne: "take n ys \<noteq> []" using True assms(2) by auto
    have "rows s = (xs @ y # butlast (take n ys)) @ z # drop n ys"
      using Suc.prems(1) split_at_last [OF ne] by (simp add: z_def)
    moreover have "length (drop n ys) < fuel" using Suc.prems(2) True assms(2) by simp
    ultimately have "walk (fetch s n) key fuel (Some (key z)) = Some (drop n ys)"
      by (rule Suc.IH)
    then show ?thesis using page True ne by (simp add: z_def)
  qed
qed

theorem walk_all:
  assumes "invar s" "0 < n" "n \<le> page_cap" "length (rows s) < fuel"
  shows "walk (fetch s n) key fuel None = Some (rows s)"
proof -
  obtain fuel' where fuel: "fuel = Suc fuel'" using assms(4) by (cases fuel) auto
  show ?thesis
  proof (cases "n < length (rows s)")
    case False
    then show ?thesis using fetch_first [OF assms(1-3)] fuel by simp
  next
    case True
    define z where "z = last (take n (rows s))"
    have ne: "take n (rows s) \<noteq> []" using True assms(2) by auto
    have "rows s = butlast (take n (rows s)) @ z # drop n (rows s)"
      using split_at_last [OF ne] by (simp add: z_def)
    moreover have "length (drop n (rows s)) < fuel'" using assms(2,4) fuel True by simp
    ultimately have "walk (fetch s n) key fuel' (Some (key z)) = Some (drop n (rows s))"
      by (rule walk_rest [OF assms(1-3)])
    then show ?thesis using fetch_first [OF assms(1-3)] True ne fuel by (simp add: z_def)
  qed
qed

end

end
