(* ===== verification/Product_Store.thy ===== *)
theory Product_Store
  imports Tx Keyset
begin

text \<open>
  \<open>internal/store/product_store.go\<close> and \<open>insertOutbox\<close> of \<open>outbox.go\<close>: every write of a product and its
  event in one transaction, the reads and the keyset page of the catalogue, and the purchase
  step of an order. \<open>uuid.NewV7()\<close> and \<open>time.Now()\<close> of the event are the arguments \<open>eid\<close> and
  \<open>at\<close>.
\<close>

section \<open>Operations\<close>

definition insertOutbox :: "event \<Rightarrow> unit tx" where
  "insertOutbox e =
     tx_bind
       (tx_catch (tx_exec (queryInsertOutbox (EventID e) (EventType e) (event_json e)))
         (\<lambda>err. tx_raise (errorf_w ''insert outbox: '' err)))
       (\<lambda>_. tx_bind
          (tx_catch (tx_exec queryNotifyOutbox)
            (\<lambda>err. tx_raise (errorf_w ''notify outbox: '' err)))
          (\<lambda>_. tx_return ()))"

definition scanProduct :: "products_row \<Rightarrow> product" where
  "scanProduct row =
     \<lparr>prod_ID = p_id row, prod_Name = p_name row,
      prod_Price = \<lparr>MinorAmount = p_price_minor row, Currency = p_currency row\<rparr>,
      prod_Stock = p_stock row, prod_Version = p_version row\<rparr>"

definition store_Save :: "uuid \<Rightarrow> timestamp \<Rightarrow> product \<Rightarrow> product tx" where
  "store_Save eid at p =
     withTx
       (tx_bind
         (tx_query_row (queryInsert (prod_ID p) (prod_Name p) (MinorAmount (prod_Price p))
            (Currency (prod_Price p)) (prod_Stock p)))
         (\<lambda>version. let p' = p\<lparr>prod_Version := version\<rparr> in
            tx_bind (insertOutbox (event_New eid at TypeCreated p')) (\<lambda>_. tx_return p')))"

definition store_FindByID :: "uuid \<Rightarrow> product tx" where
  "store_FindByID i =
     tx_catch
       (tx_bind (tx_query_row (queryGetByID i)) (\<lambda>row. tx_return (scanProduct row)))
       (\<lambda>err. if errors_is err ErrNoRows then tx_raise ErrNotFound else tx_raise (mapDBError err))"

definition productPage :: "product list \<Rightarrow> int \<Rightarrow> product_page" where
  "productPage ps limit =
     (if int (length ps) \<le> limit then \<lparr>pp_Items = ps, pp_HasMore = False\<rparr>
      else \<lparr>pp_Items = take (nat limit) ps, pp_HasMore = True\<rparr>)"

definition store_FindAll :: "cursor \<Rightarrow> int \<Rightarrow> product_page tx" where
  "store_FindAll c limit =
     (let pageLimit = wrap64 (limit + 1); (i, ok) = cursor_After c in
      tx_bind
        (tx_catch
          (if ok then tx_exec (queryGetAllAfterCursor i pageLimit)
           else tx_exec (queryGetAll pageLimit))
          (\<lambda>err. tx_raise (mapDBError err)))
        (\<lambda>rows. tx_bind
           (tx_catch (scan_rows scanProduct [] rows) (\<lambda>err. tx_raise (mapDBError err)))
           (\<lambda>ps. tx_return (productPage ps limit))))"

definition store_Update :: "uuid \<Rightarrow> timestamp \<Rightarrow> product \<Rightarrow> product tx" where
  "store_Update eid at p =
     withTx
       (tx_bind
         (tx_catch
           (tx_bind
             (tx_query_row (queryUpdate (prod_ID p) (prod_Name p) (MinorAmount (prod_Price p))
                (Currency (prod_Price p))))
             (\<lambda>row. tx_return (scanProduct row)))
           (\<lambda>err. if errors_is err ErrNoRows then tx_raise ErrNotFound else tx_raise err))
         (\<lambda>updated.
            tx_bind (insertOutbox (event_New eid at TypeUpdated updated))
              (\<lambda>_. tx_return updated)))"

definition isProductInUse :: "go_error \<Rightarrow> bool" where
  "isProductInUse err =
     (case as_pg err of
        None \<Rightarrow> False
      | Some code \<Rightarrow> code = codeRestrictViolation \<or> code = codeForeignKeyViolation)"

definition zero_product :: product where
  "zero_product = \<lparr>prod_ID = uuid_nil, prod_Name = '''',
     prod_Price = \<lparr>MinorAmount = 0, Currency = ''''\<rparr>, prod_Stock = 0, prod_Version = 0\<rparr>"

definition store_Delete :: "uuid \<Rightarrow> timestamp \<Rightarrow> uuid \<Rightarrow> unit tx" where
  "store_Delete eid at i =
     withTx
       (tx_bind
         (tx_catch (tx_query_row (queryDelete i))
           (\<lambda>err. if errors_is err ErrNoRows then tx_raise ErrNotFound
                  else if isProductInUse err then tx_raise ErrProductInUse
                  else tx_raise err))
         (\<lambda>version.
            let deleted = zero_product\<lparr>prod_ID := i, prod_Version := version\<rparr> in
            insertOutbox (event_New eid at TypeDeleted deleted)))"

definition purchaseNoRowError :: "uuid \<Rightarrow> 'a tx" where
  "purchaseNoRowError i =
     tx_bind (tx_query_row (queryProductExists i))
       (\<lambda>exists. if \<not> exists then tx_raise ErrNotFound else tx_raise ErrInsufficientStock)"

definition purchaseTx :: "uuid \<Rightarrow> timestamp \<Rightarrow> order \<Rightarrow> order tx" where
  "purchaseTx eid at o1 =
     tx_bind
       (tx_catch
         (tx_bind (tx_query_row (queryPurchase (ord_ProductID o1) (ord_Quantity o1)))
           (\<lambda>row. tx_return (scanProduct row)))
         (\<lambda>err. if errors_is err ErrNoRows then purchaseNoRowError (ord_ProductID o1)
                else tx_raise err))
       (\<lambda>p. let o2 = o1\<lparr>ord_UnitPrice := prod_Price p\<rparr> in
          tx_bind
            (tx_query_row (queryInsertOrder (ord_ID o2) (ord_UserID o2) (ord_ProductID o2)
               (ord_Quantity o2) (MinorAmount (ord_UnitPrice o2)) (Currency (ord_UnitPrice o2))))
            (\<lambda>created. let o3 = o2\<lparr>ord_CreatedAt := created\<rparr> in
               tx_bind (insertOutbox (NewPurchased eid at p (ord_Quantity o3)))
                 (\<lambda>_. tx_return o3)))"

section \<open>Integrity\<close>

lemma insertOutbox_wf: "tx_rel keeps_wf (insertOutbox e)"
  unfolding insertOutbox_def by (intro wf_rel.rel_intros write_keeps_wf)

lemma store_Save_wf: "tx_rel keeps_wf (store_Save eid at p)"
  unfolding store_Save_def Let_def by (intro wf_rel.rel_intros write_keeps_wf insertOutbox_wf)

lemma store_FindByID_wf: "tx_rel keeps_wf (store_FindByID i)"
  unfolding store_FindByID_def
  by (auto intro!: wf_rel.rel_intros select_keeps_wf)

lemma store_FindAll_wf: "tx_rel keeps_wf (store_FindAll c n)"
  unfolding store_FindAll_def cursor_After_def Let_def
  by (auto intro!: wf_rel.rel_intros select_keeps_wf)

lemma store_Update_wf: "tx_rel keeps_wf (store_Update eid at p)"
  unfolding store_Update_def
  by (auto intro!: wf_rel.rel_intros write_keeps_wf insertOutbox_wf)

lemma store_Delete_wf: "tx_rel keeps_wf (store_Delete eid at i)"
  unfolding store_Delete_def Let_def
  by (auto intro!: wf_rel.rel_intros write_keeps_wf insertOutbox_wf)

lemma purchaseNoRowError_wf: "tx_rel keeps_wf (purchaseNoRowError i)"
  unfolding purchaseNoRowError_def
  by (auto intro!: wf_rel.rel_intros select_keeps_wf)

lemma purchaseTx_wf: "tx_rel keeps_wf (purchaseTx eid at o1)"
  unfolding purchaseTx_def Let_def
  by (auto intro!: wf_rel.rel_intros write_keeps_wf insertOutbox_wf purchaseNoRowError_wf)

section \<open>What each operation does on a healthy connection\<close>

definition enqueue :: "event \<Rightarrow> timestamp \<Rightarrow> database \<Rightarrow> database" where
  "enqueue e now db =
     db\<lparr>outbox := outbox db @ [\<lparr>ob_id = outbox_seq db, ob_message_id = EventID e,
            ob_event_type = EventType e, ob_payload = event_json e, ob_attempts = 0,
            ob_next_attempt_at = now, ob_created_at = now\<rparr>],
        outbox_seq := outbox_seq db + 1, wakeups := Suc (wakeups db)\<rparr>"

lemma enqueue_sel [simp]:
  "products (enqueue e now db) = products db" "orders (enqueue e now db) = orders db"
  "idempotency_keys (enqueue e now db) = idempotency_keys db"
  "outbox_dead (enqueue e now db) = outbox_dead db"
  "outbox_seq (enqueue e now db) = outbox_seq db + 1"
  "wakeups (enqueue e now db) = Suc (wakeups db)"
  by (simp_all add: enqueue_def)

lemma insertOutbox_run [tx_simps]:
  "script s = [] \<Longrightarrow>
     insertOutbox e s = (Inr (), s\<lparr>tables := enqueue e (clock s) (tables s)\<rparr>)"
  by (simp add: insertOutbox_def tx_simps queryInsertOutbox_def queryNotifyOutbox_def enqueue_def
      Let_def)

lemma store_FindByID_run:
  assumes "script s = []"
  shows "store_FindByID i s =
    (case find_key p_id i (products (tables s)) of
       None \<Rightarrow> (Inl ErrNotFound, s) | Some r \<Rightarrow> (Inr (scanProduct r), s))"
  using assms
  by (auto simp: store_FindByID_def tx_simps queryGetByID_def find_key_filter
      split: list.split option.split)

lemma fst_FindByID:
  "script s = [] \<Longrightarrow> fst (store_FindByID i s) =
     (case find_key p_id i (products (tables s)) of
        None \<Rightarrow> Inl ErrNotFound | Some r \<Rightarrow> Inr (scanProduct r))"
  by (simp add: store_FindByID_run split: option.split)

lemma store_Save_run:
  assumes "script s = []"
  shows "store_Save eid at p s =
    (case queryInsert (prod_ID p) (prod_Name p) (MinorAmount (prod_Price p))
        (Currency (prod_Price p)) (prod_Stock p) (clock s) (tables s) of
       Inl e \<Rightarrow> (Inl (mapDBError e), s)
     | Inr (_, db) \<Rightarrow>
         let p' = p\<lparr>prod_Version := 1\<rparr> in
         (Inr p', s\<lparr>tables := enqueue (event_New eid at TypeCreated p') (clock s) db\<rparr>))"
  using assms
  by (auto simp: store_Save_def tx_simps queryInsert_def Let_def split: if_splits option.splits)

lemma store_Update_run:
  assumes "script s = []"
  shows "store_Update eid at p s =
    (case queryUpdate (prod_ID p) (prod_Name p) (MinorAmount (prod_Price p))
        (Currency (prod_Price p)) (clock s) (tables s) of
       Inl e \<Rightarrow> (Inl (mapDBError e), s)
     | Inr (rows, db) \<Rightarrow>
         (case rows of
            [] \<Rightarrow> (Inl ErrNotFound, s)
          | r # _ \<Rightarrow> let u = scanProduct r in
              (Inr u, s\<lparr>tables := enqueue (event_New eid at TypeUpdated u) (clock s) db\<rparr>)))"
  using assms
  by (auto simp: store_Update_def tx_simps queryUpdate_def mapDBError_def sqlstate_defs Let_def
      split: if_splits option.splits)

lemma store_Delete_run:
  assumes "script s = []"
  shows "store_Delete eid at i s =
    (case find_key p_id i (products (tables s)) of
       None \<Rightarrow> (Inl ErrNotFound, s)
     | Some r \<Rightarrow>
         if \<not> int64_ok (p_version r + 1) then (Inl numeric_value_out_of_range, s)
         else if i \<in> o_product_id ` set (orders (tables s)) then (Inl ErrProductInUse, s)
         else (Inr (), s\<lparr>tables :=
           enqueue (event_New eid at TypeDeleted
                     (zero_product\<lparr>prod_ID := i, prod_Version := p_version r + 1\<rparr>)) (clock s)
             ((tables s)\<lparr>products := delete_key p_id i (products (tables s))\<rparr>)\<rparr>))"
  using assms
  by (auto simp: store_Delete_def tx_simps queryDelete_def mapDBError_def sqlstate_defs Let_def
      isProductInUse_def sqlclass_defs split: if_splits option.splits)

lemma purchaseTx_run:
  assumes "script s = []"
  shows "purchaseTx eid at o1 s =
    (case queryPurchase (ord_ProductID o1) (ord_Quantity o1) (clock s) (tables s) of
       Inl e \<Rightarrow> (Inl e, s)
     | Inr (rows, db) \<Rightarrow>
         (case rows of
            [] \<Rightarrow> (Inl (if ord_ProductID o1 \<in> p_id ` set (products (tables s))
                        then ErrInsufficientStock else ErrNotFound), s)
          | r # _ \<Rightarrow>
              let p = scanProduct r; o2 = o1\<lparr>ord_UnitPrice := prod_Price p\<rparr> in
              (case queryInsertOrder (ord_ID o1) (ord_UserID o1) (ord_ProductID o1) (ord_Quantity o1)
                     (p_price_minor r) (p_currency r) (clock s) db of
                 Inl e \<Rightarrow> (Inl e, s\<lparr>tables := db\<rparr>)
               | Inr (_, db2) \<Rightarrow>
                   (Inr (o2\<lparr>ord_CreatedAt := clock s\<rparr>),
                    s\<lparr>tables := enqueue (NewPurchased eid at p (ord_Quantity o1)) (clock s) db2\<rparr>))))"
  using assms
  by (auto simp: purchaseTx_def purchaseNoRowError_def tx_simps queryPurchase_def sqlstate_defs
      queryInsertOrder_def queryProductExists_def scanProduct_def Let_def
      split: if_splits option.splits)

section \<open>Keyset pages\<close>

lemma productPage_take:
  "productPage (map f (take (Suc n) xs)) (int n)
    = \<lparr>pp_Items = map f (take n xs), pp_HasMore = n < length xs\<rparr>"
  by (auto simp: productPage_def take_map min_def)

lemma store_FindAll_run:
  assumes "script s = []" "int n + 1 < 2 ^ 63"
  shows "store_FindAll c (int n) s =
    (let rest = sort_key p_id (if cur_valid c
                  then filter (\<lambda>r. p_id r > cur_id c) (products (tables s))
                  else products (tables s))
     in (Inr \<lparr>pp_Items = map scanProduct (take n rest), pp_HasMore = n < length rest\<rparr>, s))"
proof -
  have "wrap64 (int n + 1) = int (Suc n)"
    using assms(2) by (simp add: wrap64_id int64_ok_def)
  moreover have "nat (1 + int n) = Suc n" by simp
  ultimately show ?thesis
    using assms(1)
    by (auto simp: store_FindAll_def cursor_After_def tx_simps sql_defs Let_def productPage_take)
qed

definition cursor_of :: "uuid option \<Rightarrow> cursor" where
  "cursor_of c = (case c of None \<Rightarrow> zeroCursor | Some i \<Rightarrow> NewCursor i)"

definition healthy :: "database \<Rightarrow> conn" where
  "healthy db = \<lparr>tables = db, clock = 0, script = []\<rparr>"

definition products_fetch :: "database \<Rightarrow> nat \<Rightarrow> uuid option \<Rightarrow> product list \<times> bool" where
  "products_fetch db n c =
     (case fst (store_FindAll (cursor_of c) (int n) (healthy db)) of
        Inl _ \<Rightarrow> ([], False) | Inr pg \<Rightarrow> (pp_Items pg, pp_HasMore pg))"

definition products_in_order :: "database \<Rightarrow> product list" where
  "products_in_order db = map scanProduct (sort_key p_id (products db))"

lemma prod_ID_scanProduct [simp]: "prod_ID (scanProduct r) = p_id r"
  by (simp add: scanProduct_def)

interpretation products_pages:
  keyset_listing db_wf products_in_order prod_ID "(<)" 200 products_fetch
proof
  fix db and n :: nat and k :: uuid
  assume wf: "db_wf db"
  have "sorted_wrt (<) (map p_id (sort_key p_id (products db)))"
    using wf sorted_sort_key [of p_id "products db"]
    by (simp add: schema_defs strict_sorted_iff distinct_map)
  then show "sorted_wrt (\<lambda>a b. prod_ID a < prod_ID b) (products_in_order db)"
    by (simp add: products_in_order_def sorted_wrt_map)
  assume n: "0 < n" "n \<le> 200"
  show "products_fetch db n None = (take n (products_in_order db), n < length (products_in_order db))"
    using n by (simp add: products_fetch_def cursor_of_def zeroCursor_def healthy_def Let_def
        store_FindAll_run products_in_order_def take_map)
  show "products_fetch db n (Some k) =
      (let rest = filter (\<lambda>r. k < prod_ID r) (products_in_order db) in (take n rest, n < length rest))"
    using n by (simp add: products_fetch_def cursor_of_def NewCursor_def healthy_def Let_def
        store_FindAll_run products_in_order_def take_map filter_map filter_sort comp_def)
qed auto

text \<open>A client of the catalogue that follows \<open>nextCursor\<close> from page to page.\<close>

fun follow_products :: "nat \<Rightarrow> int \<Rightarrow> string \<Rightarrow> conn \<Rightarrow> (go_error + product list) option" where
  "follow_products 0 limit raw s = None"
| "follow_products (Suc fuel) limit raw s =
     (case ParseCursor raw of
        Inl e \<Rightarrow> Some (Inl e)
      | Inr c \<Rightarrow>
          (case store_FindAll c limit s of
             (Inl e, _) \<Rightarrow> Some (Inl e)
           | (Inr pg, s') \<Rightarrow>
               if product_NextCursor pg = '''' then Some (Inr (pp_Items pg))
               else map_option (map_sum id ((@) (pp_Items pg)))
                      (follow_products fuel limit (product_NextCursor pg) s')))"

definition raw_cursor :: "uuid option \<Rightarrow> string" where
  "raw_cursor c = (case c of None \<Rightarrow> '''' | Some i \<Rightarrow> uuid_string i)"

lemma ParseCursor_raw_cursor: "ParseCursor (raw_cursor c) = Inr (cursor_of c)"
  by (simp add: ParseCursor_def raw_cursor_def cursor_of_def split: option.split)

lemma follow_products_walk:
  assumes "script s = []" "n \<le> 200"
  shows "follow_products fuel (int n) (raw_cursor c) s =
    map_option Inr (walk (products_fetch (tables s) n) prod_ID fuel c)"
proof (induction fuel arbitrary: c)
  case 0
  then show ?case by simp
next
  case (Suc fuel)
  obtain items more where pg: "products_fetch (tables s) n c = (items, more)" by fastforce
  have run: "store_FindAll (cursor_of c) (int n) s = (Inr \<lparr>pp_Items = items, pp_HasMore = more\<rparr>, s)"
    using assms pg
    by (auto simp: products_fetch_def store_FindAll_run healthy_def Let_def split: if_splits)
  have nxt: "product_NextCursor \<lparr>pp_Items = items, pp_HasMore = more\<rparr>
      = (if more \<and> items \<noteq> [] then raw_cursor (Some (prod_ID (last items))) else '''')"
    by (simp add: product_NextCursor_def raw_cursor_def last_conv_nth)
  have ne: "raw_cursor (Some i) \<noteq> ''''" for i by (simp add: raw_cursor_def)
  show ?case
    using run pg nxt ne Suc [of "Some (prod_ID (last items))"]
    by (simp add: ParseCursor_raw_cursor option.map_comp comp_def)
qed

text \<open>
  C22: a client that starts without a cursor and keeps passing \<open>NextCursor\<close> back through
  \<open>ParseCursor\<close> and \<open>FindAll\<close>, with any page size a transport can ask for, terminates and
  collects every product of the table exactly once, in increasing order of id.
\<close>

theorem follow_products_complete:
  assumes "db_wf (tables s)" "script s = []" "1 \<le> limit" "limit \<le> MaxPageSize"
    and "length (products (tables s)) < fuel"
  shows "follow_products fuel limit '''' s = Some (Inr (products_in_order (tables s)))
    \<and> sorted_wrt (\<lambda>a b. prod_ID a < prod_ID b) (products_in_order (tables s))
    \<and> set (products_in_order (tables s)) = scanProduct ` set (products (tables s))"
proof (intro conjI)
  define n where "n = nat limit"
  have n: "0 < n" "n \<le> 200" "int n = limit"
    using assms(3,4) by (auto simp: n_def MaxPageSize_def)
  have "length (products_in_order (tables s)) < fuel"
    using assms(5) by (simp add: products_in_order_def)
  then have "walk (products_fetch (tables s) n) prod_ID fuel None = Some (products_in_order (tables s))"
    by (rule products_pages.walk_all [OF assms(1) n(1,2)])
  then show "follow_products fuel limit '''' s = Some (Inr (products_in_order (tables s)))"
    using follow_products_walk [OF assms(2) n(2), of fuel None] n(3) by (simp add: raw_cursor_def)
  show "sorted_wrt (\<lambda>a b. prod_ID a < prod_ID b) (products_in_order (tables s))"
    by (rule products_pages.rows_sorted [OF assms(1)])
  show "set (products_in_order (tables s)) = scanProduct ` set (products (tables s))"
    by (simp add: products_in_order_def)
qed

definition sample_row :: "uuid \<Rightarrow> int \<Rightarrow> products_row" where
  "sample_row i stock = \<lparr>p_id = i, p_name = ''widget'', p_price_minor = 999, p_currency = ''PLN'',
     p_stock = stock, p_version = 1\<rparr>"

definition sample_db :: database where
  "sample_db = empty_database\<lparr>products := [sample_row 7 10, sample_row 3 0, sample_row 5 2]\<rparr>"

lemma sample_db_wf: "db_wf sample_db"
  by (simp add: schema_defs sample_db_def sample_row_def empty_database_def products_check_def
      int32_ok_def utf8_len_def)

theorem follow_products_complete_witness:
  "follow_products 4 2 '''' (healthy sample_db)
    = Some (Inr (map scanProduct [sample_row 3 0, sample_row 5 2, sample_row 7 10]))"
proof -
  have "follow_products 4 2 '''' (healthy sample_db) = Some (Inr (products_in_order (tables (healthy sample_db))))"
    using follow_products_complete [of "healthy sample_db" 2 4]
    by (simp add: healthy_def sample_db_wf MaxPageSize_def) (simp add: sample_db_def)
  then show ?thesis
    by (simp add: healthy_def products_in_order_def sample_db_def sample_row_def)
qed

section \<open>Create, read, update, delete\<close>

lemma currency_Valid_db:
  assumes "currency_Valid c"
  shows "text_ok c" "varchar_fit 3 c = Some c"
    "c \<in> set [''PLN'', ''EUR'', ''USD'', ''GBP'', ''CHF'']"
  using assms
  by (auto simp: currency_Valid_def currency_defs text_ok_def varchar_fit_def utf8_len_def
      is_cont_def byte_val_def)

text \<open>
  On a healthy connection, saving a product that passes \<open>Validate\<close>, whose name fits the
  column and whose stock fits an \<open>INTEGER\<close>, under a new id, succeeds with version 1, and a later
  \<open>FindByID\<close> of that id returns exactly the product \<open>Save\<close> returned. The same transaction
  queues its created event and one wakeup.
\<close>

theorem save_then_find:
  assumes "script s = []" "product_Validate p = None"
    and "text_ok (prod_Name p)" "utf8_len (prod_Name p) \<le> 100" "prod_Stock p < 2 ^ 31"
    and "prod_ID p \<notin> p_id ` set (products (tables s))"
  shows "\<exists>s'. store_Save eid at p s = (Inr (p\<lparr>prod_Version := 1\<rparr>), s')
    \<and> fst (store_FindByID (prod_ID p) s') = Inr (p\<lparr>prod_Version := 1\<rparr>)
    \<and> map ob_payload (outbox (tables s')) = map ob_payload (outbox (tables s))
        @ [event_json (event_New eid at TypeCreated (p\<lparr>prod_Version := 1\<rparr>))]
    \<and> wakeups (tables s') = Suc (wakeups (tables s))"
proof -
  define row where "row = \<lparr>p_id = prod_ID p, p_name = prod_Name p,
    p_price_minor = MinorAmount (prod_Price p), p_currency = Currency (prod_Price p),
    p_stock = prod_Stock p, p_version = 1\<rparr>"
  have cur: "currency_Valid (Currency (prod_Price p))" and pos: "0 < MinorAmount (prod_Price p)"
    and st: "0 \<le> prod_Stock p"
    using assms(2) by (auto simp: product_Validate_None)
  have "varchar_fit 100 (prod_Name p) = Some (prod_Name p)"
    using assms(4) by (simp add: varchar_fit_def)
  moreover have "products_check row"
    using pos st currency_Valid_db [OF cur] by (simp add: products_check_def row_def)
  ultimately have ins: "queryInsert (prod_ID p) (prod_Name p) (MinorAmount (prod_Price p))
      (Currency (prod_Price p)) (prod_Stock p) (clock s) (tables s)
      = Inr ([1], (tables s)\<lparr>products := products (tables s) @ [row]\<rparr>)"
    using assms(3,5,6) st currency_Valid_db [OF cur]
    by (simp add: queryInsert_def row_def int32_ok_def Let_def)
  have "find_key p_id (prod_ID p) (products (tables s)) = None"
    using assms(6) by (simp only: find_key_None not_False_eq_True)
  then show ?thesis
    using assms(1) ins
    by (simp add: store_Save_run store_FindByID_run Let_def find_key_append row_def
        scanProduct_def) (simp add: enqueue_def)
qed

definition sample_product :: product where
  "sample_product = \<lparr>prod_ID = 11, prod_Name = ''gadget'',
     prod_Price = \<lparr>MinorAmount = 250, Currency = ''EUR''\<rparr>, prod_Stock = 4, prod_Version = 0\<rparr>"

lemma sample_product_ok:
  "product_Validate sample_product = None" "text_ok (prod_Name sample_product)"
  "utf8_len (prod_Name sample_product) \<le> 100" "prod_Stock sample_product < 2 ^ 31"
  "prod_ID sample_product \<notin> p_id ` set (products (tables (healthy sample_db)))"
  "script (healthy sample_db) = []"
  by (simp_all add: healthy_def sample_db_def sample_row_def sample_product_def
      product_Validate_None currency_Valid_def currency_defs text_ok_def byte_val_def
      utf8_len_def is_cont_def)

theorem save_then_find_witness:
  "\<exists>s'. store_Save 100 7 sample_product (healthy sample_db) = (Inr (sample_product\<lparr>prod_Version := 1\<rparr>), s')
     \<and> fst (store_FindByID (prod_ID sample_product) s') = Inr (sample_product\<lparr>prod_Version := 1\<rparr>)"
  using save_then_find [OF sample_product_ok(6) sample_product_ok(1-5), of 100 7] by blast


text \<open>
  On a healthy connection, an update of an existing product whose fields satisfy the
  column constraints writes the new name and price, keeps the stock, raises the version by one,
  leaves every other product alone, and queues an updated event carrying that version and stock.
\<close>

theorem update_existing:
  assumes "script s = []" "db_wf (tables s)" "product_Validate p = None"
    and "text_ok (prod_Name p)" "utf8_len (prod_Name p) \<le> 100"
    and "find_key p_id (prod_ID p) (products (tables s)) = Some r" "p_version r + 1 < 2 ^ 63"
  shows "\<exists>s'. store_Update eid at p s
      = (Inr (p\<lparr>prod_Stock := p_stock r, prod_Version := p_version r + 1\<rparr>), s')
    \<and> fst (store_FindByID (prod_ID p) s')
        = Inr (p\<lparr>prod_Stock := p_stock r, prod_Version := p_version r + 1\<rparr>)
    \<and> (\<forall>j. j \<noteq> prod_ID p \<longrightarrow> fst (store_FindByID j s') = fst (store_FindByID j s))
    \<and> map ob_payload (outbox (tables s')) = map ob_payload (outbox (tables s))
        @ [event_json (event_New eid at TypeUpdated
             (p\<lparr>prod_Stock := p_stock r, prod_Version := p_version r + 1\<rparr>))]"
proof -
  have cur: "currency_Valid (Currency (prod_Price p))" and pos: "0 < MinorAmount (prod_Price p)"
    using assms(3) by (auto simp: product_Validate_None)
  have r: "r \<in> set (products (tables s))" "p_id r = prod_ID p"
    using find_key_SomeD [OF assms(6)] by auto
  have wf: "products_check r" "1 \<le> p_version r"
    using products_wfD [OF _ r(1)] assms(2) by (auto simp: db_wf_def)
  define r' where "r' = r\<lparr>p_name := prod_Name p, p_price_minor := MinorAmount (prod_Price p),
    p_currency := Currency (prod_Price p), p_version := p_version r + 1\<rparr>"
  have fit: "varchar_fit 100 (prod_Name p) = Some (prod_Name p)"
    using assms(5) by (simp add: varchar_fit_def)
  have chk: "products_check r'"
    using pos wf(1) currency_Valid_db [OF cur] by (simp add: products_check_def r'_def)
  have upd: "queryUpdate (prod_ID p) (prod_Name p) (MinorAmount (prod_Price p))
      (Currency (prod_Price p)) (clock s) (tables s)
      = Inr ([r'], (tables s)\<lparr>products := update_key p_id (prod_ID p) (\<lambda>_. r') (products (tables s))\<rparr>)"
    using assms(4,6,7) fit chk wf(2) currency_Valid_db [OF cur]
    by (simp add: queryUpdate_def r'_def int64_ok_def Let_def)
  have r'p: "scanProduct r' = p\<lparr>prod_Stock := p_stock r, prod_Version := p_version r + 1\<rparr>"
    by (simp add: scanProduct_def r'_def r(2))
  have id: "p_id r' = prod_ID p" by (simp add: r'_def r(2))
  define s' where "s' = s\<lparr>tables := enqueue (event_New eid at TypeUpdated (scanProduct r')) (clock s)
    ((tables s)\<lparr>products := update_key p_id (prod_ID p) (\<lambda>_. r') (products (tables s))\<rparr>)\<rparr>"
  have run: "store_Update eid at p s = (Inr (scanProduct r'), s')"
    using assms(1) upd by (simp add: store_Update_run Let_def s'_def)
  have "script s' = []" using assms(1) by (simp add: s'_def)
  then have find: "fst (store_FindByID j s')
      = (if j = prod_ID p then Inr (scanProduct r') else fst (store_FindByID j s))" for j
    using assms(1,6) by (simp add: fst_FindByID s'_def find_key_replace [of p_id r', OF id])
  show ?thesis
    unfolding r'p [symmetric]
    by (rule exI [of _ s']) (simp add: run find, simp add: s'_def enqueue_def)
qed

lemma update_sample_found:
  "find_key p_id (prod_ID (sample_product\<lparr>prod_ID := 5\<rparr>)) (products (tables (healthy sample_db)))
    = Some (sample_row 5 2)"
  by (simp add: healthy_def sample_db_def sample_row_def)

theorem update_existing_witness:
  "fst (store_Update 100 7 (sample_product\<lparr>prod_ID := 5\<rparr>) (healthy sample_db))
    = Inr (sample_product\<lparr>prod_ID := 5, prod_Stock := 2, prod_Version := 2\<rparr>)"
proof -
  have "product_Validate (sample_product\<lparr>prod_ID := 5\<rparr>) = None"
    "text_ok (prod_Name (sample_product\<lparr>prod_ID := 5\<rparr>))"
    "utf8_len (prod_Name (sample_product\<lparr>prod_ID := 5\<rparr>)) \<le> 100"
    "p_version (sample_row 5 2) + 1 < 2 ^ 63"
    using sample_product_ok by (simp_all add: product_Validate_None sample_row_def)
  moreover have "db_wf (tables (healthy sample_db))"
    by (simp add: healthy_def sample_db_wf)
  ultimately show ?thesis
    using update_existing [OF sample_product_ok(6) _ _ _ _ update_sample_found, of 100 7]
    by (auto simp: sample_row_def)
qed

text \<open>
  C30: on a healthy connection, \<open>Delete\<close> answers \<open>ErrNotFound\<close> for an unknown id and
  \<open>ErrProductInUse\<close> for a product with recorded orders, both without touching the tables;
  otherwise the product is gone afterwards, the orders and the other products are untouched and
  a deleted event with the next version is queued.
\<close>

theorem delete_outcomes:
  assumes "script s = []" "db_wf (tables s)"
    and "\<forall>r\<in>set (products (tables s)). p_version r + 1 < 2 ^ 63"
  shows "case find_key p_id i (products (tables s)) of
      None \<Rightarrow> store_Delete eid at i s = (Inl ErrNotFound, s)
    | Some r \<Rightarrow>
        if \<exists>x\<in>set (orders (tables s)). o_product_id x = i
        then store_Delete eid at i s = (Inl ErrProductInUse, s)
        else \<exists>s'. store_Delete eid at i s = (Inr (), s')
          \<and> fst (store_FindByID i s') = Inl ErrNotFound
          \<and> (\<forall>j. j \<noteq> i \<longrightarrow> fst (store_FindByID j s') = fst (store_FindByID j s))
          \<and> orders (tables s') = orders (tables s)
          \<and> map ob_payload (outbox (tables s')) = map ob_payload (outbox (tables s))
              @ [event_json (event_New eid at TypeDeleted
                   (zero_product\<lparr>prod_ID := i, prod_Version := p_version r + 1\<rparr>))]"
proof (cases "find_key p_id i (products (tables s))")
  case None
  then show ?thesis using assms(1) by (simp add: store_Delete_run)
next
  case (Some r)
  have r: "r \<in> set (products (tables s))" using find_key_SomeD [OF Some] by auto
  have ok: "int64_ok (p_version r + 1)"
    using r assms(2,3) products_wfD [OF _ r] by (auto simp: db_wf_def int64_ok_def)
  show ?thesis
  proof (cases "\<exists>x\<in>set (orders (tables s)). o_product_id x = i")
    case True
    then show ?thesis using assms(1) Some ok by (auto simp: store_Delete_run)
  next
    case False
    define s' where "s' = s\<lparr>tables := enqueue (event_New eid at TypeDeleted
        (zero_product\<lparr>prod_ID := i, prod_Version := p_version r + 1\<rparr>)) (clock s)
        ((tables s)\<lparr>products := delete_key p_id i (products (tables s))\<rparr>)\<rparr>"
    have run: "store_Delete eid at i s = (Inr (), s')"
      using assms(1) Some ok False by (auto simp: store_Delete_run s'_def)
    have "script s' = []" using assms(1) by (simp add: s'_def)
    then have find: "fst (store_FindByID j s')
        = (if j = i then Inl ErrNotFound else fst (store_FindByID j s))" for j
      using assms(1) by (simp add: fst_FindByID s'_def find_key_delete)
    have "\<exists>s'. store_Delete eid at i s = (Inr (), s')
        \<and> fst (store_FindByID i s') = Inl ErrNotFound
        \<and> (\<forall>j. j \<noteq> i \<longrightarrow> fst (store_FindByID j s') = fst (store_FindByID j s))
        \<and> orders (tables s') = orders (tables s)
        \<and> map ob_payload (outbox (tables s')) = map ob_payload (outbox (tables s))
            @ [event_json (event_New eid at TypeDeleted
                 (zero_product\<lparr>prod_ID := i, prod_Version := p_version r + 1\<rparr>))]"
      by (rule exI [of _ s']) (simp add: run find, simp add: s'_def enqueue_def)
    with False Some show ?thesis by simp
  qed
qed

theorem delete_outcomes_witness:
  "fst (store_Delete 100 7 5 (healthy sample_db)) = Inr ()
   \<and> fst (store_Delete 100 7 6 (healthy sample_db)) = Inl ErrNotFound"
proof -
  have h: "script (healthy sample_db) = []" "db_wf (tables (healthy sample_db))"
    "\<forall>r\<in>set (products (tables (healthy sample_db))). p_version r + 1 < 2 ^ 63"
    by (simp_all add: healthy_def sample_db_wf) (simp add: sample_db_def sample_row_def)
  show ?thesis
    using delete_outcomes [OF h, where i = 5 and eid = 100 and at = 7]
      delete_outcomes [OF h, where i = 6 and eid = 100 and at = 7]
    by (auto simp: healthy_def sample_db_def sample_row_def empty_database_def)
qed

end
