(* ===== verification/Order_Store.thy ===== *)
theory Order_Store
  imports Product_Store
begin

text \<open>
  \<open>internal/store/order_store.go\<close>: a user's orders, one by id and in keyset pages from the
  newest to the oldest. Ownership is part of the SQL condition.
\<close>

section \<open>Operations\<close>

definition scanOrder :: "orders_row \<Rightarrow> order" where
  "scanOrder row =
     \<lparr>ord_ID = o_id row, ord_UserID = o_user_id row, ord_ProductID = o_product_id row,
      ord_Quantity = o_quantity row,
      ord_UnitPrice = \<lparr>MinorAmount = o_unit_price_minor row, Currency = o_currency row\<rparr>,
      ord_CreatedAt = o_created_at row\<rparr>"

definition orderPage :: "order list \<Rightarrow> int \<Rightarrow> order_page" where
  "orderPage os limit =
     (if int (length os) \<le> limit then \<lparr>op_Items = os, op_HasMore = False\<rparr>
      else \<lparr>op_Items = take (nat limit) os, op_HasMore = True\<rparr>)"

definition store_FindOrder :: "uuid \<Rightarrow> uuid \<Rightarrow> order tx" where
  "store_FindOrder userID orderID =
     tx_catch
       (tx_bind (tx_query_row (queryGetOrderByID orderID userID)) (\<lambda>row. tx_return (scanOrder row)))
       (\<lambda>err. if errors_is err ErrNoRows then tx_raise ErrNotFound else tx_raise (mapDBError err))"

definition store_FindOrders :: "uuid \<Rightarrow> cursor \<Rightarrow> int \<Rightarrow> order_page tx" where
  "store_FindOrders userID c limit =
     (let pageLimit = wrap64 (limit + 1); (i, ok) = cursor_After c in
      tx_bind
        (tx_catch
          (if ok then tx_exec (queryGetOrdersAfterCursor userID i pageLimit)
           else tx_exec (queryGetOrders userID pageLimit))
          (\<lambda>err. tx_raise (mapDBError err)))
        (\<lambda>rows. tx_bind
           (tx_catch (scan_rows scanOrder [] rows) (\<lambda>err. tx_raise (mapDBError err)))
           (\<lambda>os. tx_return (orderPage os limit))))"

section \<open>Only the caller's rows matter\<close>

definition own_orders :: "uuid \<Rightarrow> database \<Rightarrow> orders_row list" where
  "own_orders uid db = filter (\<lambda>r. o_user_id r = uid) (orders db)"

lemma queryGetOrderByID_own:
  "queryGetOrderByID i uid now db = Inr (filter (\<lambda>r. o_id r = i) (own_orders uid db), db)"
  by (simp add: queryGetOrderByID_def own_orders_def conj_commute)

lemma queryGetOrders_own:
  "queryGetOrders uid n now db = sql_select (sql_limit n (rev (sort_key o_id (own_orders uid db)))) db"
  by (simp add: queryGetOrders_def own_orders_def)

lemma queryGetOrdersAfterCursor_own:
  "queryGetOrdersAfterCursor uid i n now db =
     sql_select (sql_limit n (rev (sort_key o_id (filter (\<lambda>r. o_id r < i) (own_orders uid db))))) db"
  by (simp add: queryGetOrdersAfterCursor_def own_orders_def conj_commute)

text \<open>Two connections that agree on everything but the tables, and whose tables agree on what
  a query selects, stay so, step by step.\<close>

definition same_run :: "uuid \<Rightarrow> 'a tx \<Rightarrow> bool" where
  "same_run uid m \<longleftrightarrow>
     (\<forall>s t. script s = script t \<and> clock s = clock t \<and> own_orders uid (tables s) = own_orders uid (tables t) \<longrightarrow>
        fst (m s) = fst (m t) \<and> script (snd (m s)) = script (snd (m t))
        \<and> clock (snd (m s)) = clock (snd (m t))
        \<and> own_orders uid (tables (snd (m s))) = own_orders uid (tables (snd (m t))))"

lemma same_runI:
  assumes "\<And>s t. script s = script t \<Longrightarrow> clock s = clock t \<Longrightarrow>
      own_orders uid (tables s) = own_orders uid (tables t) \<Longrightarrow>
      \<exists>r s' t'. m s = (r, s') \<and> m t = (r, t') \<and> script s' = script t' \<and> clock s' = clock t'
        \<and> own_orders uid (tables s') = own_orders uid (tables t')"
  shows "same_run uid m"
  unfolding same_run_def using assms by (metis fst_conv snd_conv)

lemma same_runE:
  assumes "same_run uid m" "script s = script t" "clock s = clock t"
    "own_orders uid (tables s) = own_orders uid (tables t)"
  obtains r s' t' where "m s = (r, s')" "m t = (r, t')" "script s' = script t'" "clock s' = clock t'"
    "own_orders uid (tables s') = own_orders uid (tables t')"
  using assms unfolding same_run_def by (metis prod.collapse)

lemma same_run_prims:
  "same_run uid (tx_return x)" "same_run uid (tx_raise e)" "same_run uid (tx_tick y)"
  by (auto simp: same_run_def tx_return_def tx_raise_def tx_tick_def next_fault_def
      split: list.splits fault.splits)

lemma same_run_bind:
  assumes m: "same_run uid m" and f: "\<And>x. same_run uid (f x)"
  shows "same_run uid (tx_bind m f)"
proof (rule same_runI)
  fix s t :: conn
  assume "script s = script t" "clock s = clock t" "own_orders uid (tables s) = own_orders uid (tables t)"
  then obtain r s' t' where 1: "m s = (r, s')" "m t = (r, t')" "script s' = script t'"
    "clock s' = clock t'" "own_orders uid (tables s') = own_orders uid (tables t')"
    using m by (elim same_runE)
  show "\<exists>r s' t'. tx_bind m f s = (r, s') \<and> tx_bind m f t = (r, t') \<and> script s' = script t'
      \<and> clock s' = clock t' \<and> own_orders uid (tables s') = own_orders uid (tables t')"
  proof (cases r)
    case (Inl e)
    then show ?thesis using 1 by (simp add: tx_bind_def)
  next
    case (Inr x)
    show ?thesis using same_runE [OF f [of x] 1(3-5)] 1(1,2) Inr
      by (simp add: tx_bind_def) metis
  qed
qed

lemma same_run_catch:
  assumes m: "same_run uid m" and h: "\<And>e. same_run uid (h e)"
  shows "same_run uid (tx_catch m h)"
proof (rule same_runI)
  fix s t :: conn
  assume "script s = script t" "clock s = clock t" "own_orders uid (tables s) = own_orders uid (tables t)"
  then obtain r s' t' where 1: "m s = (r, s')" "m t = (r, t')" "script s' = script t'"
    "clock s' = clock t'" "own_orders uid (tables s') = own_orders uid (tables t')"
    using m by (elim same_runE)
  show "\<exists>r s' t'. tx_catch m h s = (r, s') \<and> tx_catch m h t = (r, t') \<and> script s' = script t'
      \<and> clock s' = clock t' \<and> own_orders uid (tables s') = own_orders uid (tables t')"
  proof (cases r)
    case (Inr x)
    then show ?thesis using 1 by (simp add: tx_catch_def)
  next
    case (Inl e)
    show ?thesis using same_runE [OF h [of e] 1(3-5)] 1(1,2) Inl
      by (simp add: tx_catch_def) metis
  qed
qed

lemma same_run_select:
  assumes "\<And>now db. q now db = sql_select (g (own_orders uid db)) db"
  shows "same_run uid (tx_exec q)"
  by (auto simp: same_run_def tx_exec_def next_fault_def assms sql_select_def
      split: list.splits fault.splits sum.splits)

lemma same_run_scan_rows: "same_run uid (scan_rows f acc rs)"
  by (induction rs arbitrary: acc) (auto intro: same_run_bind same_run_prims)

lemma same_run_queries:
  "same_run uid (tx_exec (queryGetOrderByID i uid))" "same_run uid (tx_exec (queryGetOrders uid n))"
  "same_run uid (tx_exec (queryGetOrdersAfterCursor uid j n))"
  by (rule same_run_select [where g = "\<lambda>os. Inr (filter (\<lambda>r. o_id r = i) os)"],
      simp add: queryGetOrderByID_own sql_select_def)
    (rule same_run_select, rule queryGetOrders_own queryGetOrdersAfterCursor_own)+

lemma store_FindOrder_same_run: "same_run uid (store_FindOrder uid oid)"
  unfolding store_FindOrder_def tx_query_row_def
  by (intro same_run_bind same_run_catch same_run_queries)
    (auto intro: same_run_prims split: list.split)

lemma store_FindOrders_same_run: "same_run uid (store_FindOrders uid c n)"
  unfolding store_FindOrders_def cursor_After_def Let_def prod.case
  by (intro same_run_bind same_run_catch same_run_scan_rows)
    (auto intro: same_run_prims same_run_queries)

text \<open>
  C28: object-level authorization. What \<open>FindOrder\<close> and \<open>FindOrders\<close> answer to a user is a
  function of that user's own orders alone: two databases that agree on them, and may differ in
  everything else (other users' orders included), give the same answer, under any faults.
\<close>

theorem orders_noninterference:
  assumes "own_orders uid (tables s) = own_orders uid (tables t)"
    and "script s = script t" "clock s = clock t"
  shows "fst (store_FindOrder uid oid s) = fst (store_FindOrder uid oid t)
    \<and> fst (store_FindOrders uid c limit s) = fst (store_FindOrders uid c limit t)"
  using store_FindOrder_same_run [of uid oid] store_FindOrders_same_run [of uid c limit] assms
  unfolding same_run_def by blast

definition sample_order :: "uuid \<Rightarrow> uuid \<Rightarrow> orders_row" where
  "sample_order i uid = \<lparr>o_id = i, o_user_id = uid, o_product_id = 7, o_quantity = 2,
     o_unit_price_minor = 999, o_currency = ''PLN'', o_created_at = 0\<rparr>"

theorem orders_noninterference_witness:
  "fst (store_FindOrder 1 20 (healthy (sample_db\<lparr>orders := [sample_order 20 2]\<rparr>)))
    = fst (store_FindOrder 1 20 (healthy sample_db))"
proof -
  have "own_orders 1 (tables (healthy (sample_db\<lparr>orders := [sample_order 20 2]\<rparr>)))
      = own_orders 1 (tables (healthy sample_db))"
    by (simp add: healthy_def own_orders_def sample_order_def sample_db_def empty_database_def)
  then show ?thesis
    using orders_noninterference [of 1 "healthy (sample_db\<lparr>orders := [sample_order 20 2]\<rparr>)"
        "healthy sample_db" 20] by (simp add: healthy_def)
qed

section \<open>Runs on a healthy connection\<close>

lemma store_FindOrder_run:
  "script s = [] \<Longrightarrow> store_FindOrder uid oid s =
     (case find_key o_id oid (own_orders uid (tables s)) of
        None \<Rightarrow> (Inl ErrNotFound, s) | Some r \<Rightarrow> (Inr (scanOrder r), s))"
  by (auto simp: store_FindOrder_def tx_simps queryGetOrderByID_own find_key_filter
      split: list.split option.split)

lemma orderPage_take:
  "orderPage (map f (take (Suc n) xs)) (int n)
    = \<lparr>op_Items = map f (take n xs), op_HasMore = n < length xs\<rparr>"
  by (auto simp: orderPage_def take_map min_def)

lemma store_FindOrders_run:
  assumes "script s = []" "int n + 1 < 2 ^ 63"
  shows "store_FindOrders uid c (int n) s =
    (let rest = rev (sort_key o_id (if cur_valid c
                  then filter (\<lambda>r. o_id r < cur_id c) (own_orders uid (tables s))
                  else own_orders uid (tables s)))
     in (Inr \<lparr>op_Items = map scanOrder (take n rest), op_HasMore = n < length rest\<rparr>, s))"
proof -
  have "wrap64 (int n + 1) = int (Suc n)"
    using assms(2) by (simp add: wrap64_id int64_ok_def)
  moreover have "nat (1 + int n) = Suc n" by simp
  ultimately show ?thesis
    using assms(1)
    by (auto simp: store_FindOrders_def cursor_After_def tx_simps queryGetOrders_own
        queryGetOrdersAfterCursor_own sql_select_def sql_limit_def Let_def orderPage_take)
qed

section \<open>Pages of orders\<close>

definition orders_fetch :: "uuid \<times> database \<Rightarrow> nat \<Rightarrow> uuid option \<Rightarrow> order list \<times> bool" where
  "orders_fetch ud n c =
     (case fst (store_FindOrders (fst ud) (cursor_of c) (int n) (healthy (snd ud))) of
        Inl _ \<Rightarrow> ([], False) | Inr pg \<Rightarrow> (op_Items pg, op_HasMore pg))"

definition orders_newest_first :: "uuid \<times> database \<Rightarrow> order list" where
  "orders_newest_first ud = map scanOrder (rev (sort_key o_id (own_orders (fst ud) (snd ud))))"

lemma ord_ID_scanOrder [simp]: "ord_ID (scanOrder r) = o_id r"
  by (simp add: scanOrder_def)

lemma own_orders_distinct: "db_wf db \<Longrightarrow> distinct (map o_id (own_orders uid db))"
  by (simp add: own_orders_def schema_defs distinct_map_filter)

interpretation orders_pages:
  keyset_listing "\<lambda>ud. db_wf (snd ud)" orders_newest_first ord_ID "(>)" 200 orders_fetch
proof
  fix ud :: "uuid \<times> database" and n :: nat and k :: uuid
  assume wf: "db_wf (snd ud)"
  have "sorted_wrt (<) (map o_id (sort_key o_id (own_orders (fst ud) (snd ud))))"
    using own_orders_distinct [OF wf, of "fst ud"] sorted_sort_key
    by (simp add: strict_sorted_iff distinct_map)
  then show "sorted_wrt (\<lambda>a b. ord_ID a > ord_ID b) (orders_newest_first ud)"
    by (simp add: orders_newest_first_def sorted_wrt_map sorted_wrt_rev)
  assume n: "0 < n" "n \<le> 200"
  show "orders_fetch ud n None
      = (take n (orders_newest_first ud), n < length (orders_newest_first ud))"
    using n by (simp add: orders_fetch_def cursor_of_def zeroCursor_def healthy_def Let_def
        store_FindOrders_run orders_newest_first_def take_map)
  show "orders_fetch ud n (Some k) =
      (let rest = filter (\<lambda>r. k > ord_ID r) (orders_newest_first ud) in (take n rest, n < length rest))"
    using n by (simp add: orders_fetch_def cursor_of_def NewCursor_def healthy_def Let_def
        store_FindOrders_run orders_newest_first_def take_map filter_map filter_sort rev_filter [symmetric]
        comp_def)
qed auto

fun follow_orders :: "nat \<Rightarrow> uuid \<Rightarrow> int \<Rightarrow> string \<Rightarrow> conn \<Rightarrow> (go_error + order list) option" where
  "follow_orders 0 uid limit raw s = None"
| "follow_orders (Suc fuel) uid limit raw s =
     (case ParseCursor raw of
        Inl e \<Rightarrow> Some (Inl e)
      | Inr c \<Rightarrow>
          (case store_FindOrders uid c limit s of
             (Inl e, _) \<Rightarrow> Some (Inl e)
           | (Inr pg, s') \<Rightarrow>
               if order_NextCursor pg = '''' then Some (Inr (op_Items pg))
               else map_option (map_sum id ((@) (op_Items pg)))
                      (follow_orders fuel uid limit (order_NextCursor pg) s')))"

lemma follow_orders_walk:
  assumes "script s = []" "n \<le> 200"
  shows "follow_orders fuel uid (int n) (raw_cursor c) s =
    map_option Inr (walk (orders_fetch (uid, tables s) n) ord_ID fuel c)"
proof (induction fuel arbitrary: c)
  case 0
  then show ?case by simp
next
  case (Suc fuel)
  obtain items more where pg: "orders_fetch (uid, tables s) n c = (items, more)" by fastforce
  have run: "store_FindOrders uid (cursor_of c) (int n) s = (Inr \<lparr>op_Items = items, op_HasMore = more\<rparr>, s)"
    using assms pg
    by (auto simp: orders_fetch_def store_FindOrders_run healthy_def Let_def split: if_splits)
  have nxt: "order_NextCursor \<lparr>op_Items = items, op_HasMore = more\<rparr>
      = (if more \<and> items \<noteq> [] then raw_cursor (Some (ord_ID (last items))) else '''')"
    by (simp add: order_NextCursor_def raw_cursor_def last_conv_nth)
  have ne: "raw_cursor (Some i) \<noteq> ''''" for i by (simp add: raw_cursor_def)
  show ?case
    using run pg nxt ne Suc [of "Some (ord_ID (last items))"]
    by (simp add: ParseCursor_raw_cursor option.map_comp comp_def)
qed

text \<open>
  C23: a user who follows \<open>NextCursor\<close> through \<open>FindOrders\<close>, with any page size a transport
  can ask for, terminates and collects exactly the orders they own, each once, newest first.
\<close>

theorem follow_orders_complete:
  assumes "db_wf (tables s)" "script s = []" "1 \<le> limit" "limit \<le> MaxPageSize"
    and "length (own_orders uid (tables s)) < fuel"
  shows "\<exists>os. follow_orders fuel uid limit '''' s = Some (Inr os)
    \<and> sorted_wrt (\<lambda>a b. ord_ID a > ord_ID b) os
    \<and> set os = scanOrder ` {r \<in> set (orders (tables s)). o_user_id r = uid}"
proof -
  define n where "n = nat limit"
  have n: "0 < n" "n \<le> 200" "int n = limit"
    using assms(3,4) by (auto simp: n_def MaxPageSize_def)
  have wf: "db_wf (snd (uid, tables s))" using assms(1) by simp
  have "length (orders_newest_first (uid, tables s)) < fuel"
    using assms(5) by (simp add: orders_newest_first_def)
  then have "walk (orders_fetch (uid, tables s) n) ord_ID fuel None
      = Some (orders_newest_first (uid, tables s))"
    by (rule orders_pages.walk_all [OF wf n(1,2)])
  then have "follow_orders fuel uid limit '''' s = Some (Inr (orders_newest_first (uid, tables s)))"
    using follow_orders_walk [OF assms(2) n(2), of fuel uid None] n(3) by (simp add: raw_cursor_def)
  moreover have "sorted_wrt (\<lambda>a b. ord_ID a > ord_ID b) (orders_newest_first (uid, tables s))"
    by (rule orders_pages.rows_sorted [OF wf])
  moreover have "set (orders_newest_first (uid, tables s))
      = scanOrder ` {r \<in> set (orders (tables s)). o_user_id r = uid}"
    by (simp add: orders_newest_first_def own_orders_def)
  ultimately show ?thesis by blast
qed

definition sample_orders_db :: database where
  "sample_orders_db = sample_db\<lparr>orders := [sample_order 20 1, sample_order 21 2, sample_order 22 1]\<rparr>"

lemma sample_orders_db_wf: "db_wf sample_orders_db"
  using sample_db_wf
  by (simp add: schema_defs sample_orders_db_def sample_order_def orders_check_def)
    (simp add: sample_db_def sample_row_def empty_database_def)

theorem follow_orders_complete_witness:
  "\<exists>os. follow_orders 3 1 1 '''' (healthy sample_orders_db) = Some (Inr os)
     \<and> set os = {scanOrder (sample_order 20 1), scanOrder (sample_order 22 1)}"
proof -
  have "{r \<in> set (orders (tables (healthy sample_orders_db))). o_user_id r = 1}
      = {sample_order 20 1, sample_order 22 1}"
    by (auto simp: healthy_def sample_orders_db_def sample_order_def)
  moreover have "length (own_orders 1 (tables (healthy sample_orders_db))) < 3"
    by (simp add: healthy_def own_orders_def sample_orders_db_def sample_order_def)
  ultimately show ?thesis
    using follow_orders_complete [of "healthy sample_orders_db" 1 1 3]
    by (auto simp: healthy_def sample_orders_db_wf MaxPageSize_def)
qed

end
