(* ===== verification/Idempotency_Store.thy ===== *)
theory Idempotency_Store
  imports Order_Store
begin

text \<open>
  \<open>internal/store/idempotency_store.go\<close> and \<open>CreateOrder\<close> of \<open>product_store.go\<close>: an order is
  created under the caller's idempotency key, in the transaction that decrements the stock.
  \<open>sha256\<close> is any hash function: nothing but its being a function is used, except where a
  theorem says so. The TTL is Go's \<open>Duration\<close> (nanoseconds); the interval it becomes is rounded
  to Postgres' microseconds.
\<close>

section \<open>Operations\<close>

record postgres =
  idempotencyTTL :: int

definition NewPostgres :: "int \<Rightarrow> postgres" where
  "NewPostgres ttl = \<lparr>idempotencyTTL = ttl\<rparr>"

text \<open>\<open>make_interval\<close> rounds a half to the even microsecond (\<open>rint\<close>).\<close>

definition interval_us :: "int \<Rightarrow> int" where
  "interval_us d =
     (if d mod 1000 < 500 \<or> d mod 1000 = 500 \<and> even (d div 1000) then d div 1000 else d div 1000 + 1)"

definition order_request_text :: "uuid \<Rightarrow> int \<Rightarrow> string" where
  "order_request_text pid qty = uuid_string pid @ ''|'' @ itoa qty"

definition hashOrderRequest :: "(string \<Rightarrow> string) \<Rightarrow> order \<Rightarrow> string" where
  "hashOrderRequest sha256 o1 = sha256 (order_request_text (ord_ProductID o1) (ord_Quantity o1))"

definition replayIdempotent :: "(string \<Rightarrow> string) \<Rightarrow> order \<Rightarrow> idempotency_key \<Rightarrow> (order \<times> bool) tx" where
  "replayIdempotent sha256 o1 idem =
     (let reqHash = hashOrderRequest sha256 o1 in
      tx_bind (tx_query_row (querySelectIdempotency (ord_UserID o1) idem))
        (\<lambda>(hash, row).
           if hash \<noteq> reqHash then tx_raise ErrIdempotencyMismatch
           else tx_return
             (o1\<lparr>ord_ID := o_id row, ord_ProductID := o_product_id row, ord_Quantity := o_quantity row,
                 ord_UnitPrice := \<lparr>MinorAmount = o_unit_price_minor row, Currency = o_currency row\<rparr>,
                 ord_CreatedAt := o_created_at row\<rparr>, True)))"

definition updateIdempotencyResult :: "uuid \<Rightarrow> string \<Rightarrow> uuid \<Rightarrow> unit tx" where
  "updateIdempotencyResult userID key orderID =
     tx_bind (tx_exec (queryUpdateIdempotencyResult userID key orderID)) (\<lambda>_. tx_return ())"

definition create_order_body ::
  "(string \<Rightarrow> string) \<Rightarrow> postgres \<Rightarrow> uuid \<Rightarrow> timestamp \<Rightarrow> order \<Rightarrow> idempotency_key \<Rightarrow> (order \<times> bool) tx" where
  "create_order_body sha256 pg eid at o1 idem =
     tx_bind
       (tx_exec (queryInsertIdempotency (ord_UserID o1) idem (hashOrderRequest sha256 o1)
          (interval_us (idempotencyTTL pg))))
       (\<lambda>rowsAffected.
          if rowsAffected = 0 then replayIdempotent sha256 o1 idem
          else tx_bind (purchaseTx eid at o1)
            (\<lambda>o2. tx_bind (updateIdempotencyResult (ord_UserID o2) idem (ord_ID o2))
               (\<lambda>_. tx_return (o2, False))))"

definition createOrderIdempotent ::
  "(string \<Rightarrow> string) \<Rightarrow> postgres \<Rightarrow> uuid \<Rightarrow> timestamp \<Rightarrow> order \<Rightarrow> idempotency_key \<Rightarrow> (order \<times> bool) tx" where
  "createOrderIdempotent sha256 pg eid at o1 idem = withTx (create_order_body sha256 pg eid at o1 idem)"

definition store_CreateOrder ::
  "(string \<Rightarrow> string) \<Rightarrow> postgres \<Rightarrow> uuid \<Rightarrow> timestamp \<Rightarrow> order \<Rightarrow> idempotency_key \<Rightarrow> (order \<times> bool) tx" where
  "store_CreateOrder sha256 pg eid at o1 idem = createOrderIdempotent sha256 pg eid at o1 idem"

definition PurgeIdempotencyKeys :: "nat tx" where
  "PurgeIdempotencyKeys =
     tx_catch (tx_exec queryPurgeIdempotency) (\<lambda>err. tx_raise (mapDBError err))"

section \<open>Integrity\<close>

lemma create_order_body_wf: "tx_rel keeps_wf (create_order_body sha256 pg eid at o1 idem)"
  unfolding create_order_body_def replayIdempotent_def updateIdempotencyResult_def Let_def
  by (auto intro!: wf_rel.rel_intros write_keeps_wf select_keeps_wf purchaseTx_wf)

lemma store_CreateOrder_wf: "tx_rel keeps_wf (store_CreateOrder sha256 pg eid at o1 idem)"
  unfolding store_CreateOrder_def createOrderIdempotent_def
  by (intro wf_rel.rel_withTx create_order_body_wf)

lemma PurgeIdempotencyKeys_wf: "tx_rel keeps_wf PurgeIdempotencyKeys"
  unfolding PurgeIdempotencyKeys_def by (auto intro!: wf_rel.rel_intros write_keeps_wf)

lemma insertOutbox_frame: "tx_frame (insertOutbox e)" and insertOutbox_strict: "tx_strict (insertOutbox e)"
  unfolding insertOutbox_def by (auto intro!: tx_frame_bind tx_frame_catch tx_strict_bind)

lemma purchaseTx_frame: "tx_frame (purchaseTx eid at o1)"
  unfolding purchaseTx_def purchaseNoRowError_def Let_def
  by (intro tx_frame_bind tx_frame_catch tx_frame_query_row insertOutbox_frame tx_frame_prims)
    (auto intro!: tx_frame_bind)

lemma purchaseTx_strict: "tx_strict (purchaseTx eid at o1)"
  unfolding purchaseTx_def purchaseNoRowError_def Let_def
  by (intro tx_strict_bind tx_strict_catch tx_strict_query_row insertOutbox_strict tx_strict_prims)
    (auto intro!: tx_fails_bind)

lemma create_order_body_frame: "tx_frame (create_order_body sha256 pg eid at o1 idem)"
  unfolding create_order_body_def replayIdempotent_def updateIdempotencyResult_def Let_def
  by (auto intro!: tx_frame_bind purchaseTx_frame tx_frame_query_row tx_frame_prims)

lemma create_order_body_strict: "tx_strict (create_order_body sha256 pg eid at o1 idem)"
  unfolding create_order_body_def replayIdempotent_def updateIdempotencyResult_def Let_def
  by (auto intro!: tx_strict_bind purchaseTx_strict tx_strict_query_row tx_strict_prims)

lemmas create_order_outcome =
  withTx_outcome [OF create_order_body_frame create_order_body_strict, consumes 1, case_names nothing all]

section \<open>Settled keys\<close>

text \<open>
  Between transactions every stored key is linked to an order of its own user, and its hash is
  the hash of that order's product and quantity.
\<close>

definition row_hash :: "(string \<Rightarrow> string) \<Rightarrow> orders_row \<Rightarrow> string" where
  "row_hash sha256 r = sha256 (order_request_text (o_product_id r) (o_quantity r))"

definition key_settled :: "(string \<Rightarrow> string) \<Rightarrow> orders_row list \<Rightarrow> idempotency_row \<Rightarrow> bool" where
  "key_settled sha256 os k \<longleftrightarrow>
     (\<exists>r\<in>set os. ik_order_id k = Some (o_id r) \<and> o_user_id r = ik_user_id k
        \<and> ik_request_hash k = row_hash sha256 r)"

definition keys_settled :: "(string \<Rightarrow> string) \<Rightarrow> database \<Rightarrow> bool" where
  "keys_settled sha256 db \<longleftrightarrow> (\<forall>k\<in>set (idempotency_keys db). key_settled sha256 (orders db) k)"

lemma key_settled_append: "key_settled sha256 os k \<Longrightarrow> key_settled sha256 (os @ os') k"
  by (auto simp: key_settled_def)

text \<open>The stored order a replay answers with, and the lookup of a live key.\<close>

definition live_key :: "uuid \<Rightarrow> string \<Rightarrow> timestamp \<Rightarrow> database \<Rightarrow> idempotency_row option" where
  "live_key uid key now db =
     (case find_key ik_pk (uid, key) (idempotency_keys db) of
        None \<Rightarrow> None | Some k \<Rightarrow> if ik_expires_at k < now then None else Some k)"

lemma select_idempotency_settled:
  assumes "db_wf db" "find_key ik_pk (uid, key) (idempotency_keys db) = Some k"
    and "r \<in> set (orders db)" "ik_order_id k = Some (o_id r)"
  shows "querySelectIdempotency uid key now db = Inr ([(ik_request_hash k, r)], db)"
proof -
  have d: "distinct (map ik_pk (idempotency_keys db))" "distinct (map o_id (orders db))"
    using assms(1) by (simp_all add: schema_defs)
  have "filter (\<lambda>ik. ik_user_id ik = uid \<and> ik_key ik = key) (idempotency_keys db) = [k]"
    using filter_key_unique [OF d(1) assms(2)] by simp
  moreover have "filter (\<lambda>x. o_id r = o_id x) (orders db) = [r]"
    using filter_key_unique [OF d(2) find_key_SomeI [OF d(2) assms(3)]] by (simp add: eq_commute)
  ultimately show ?thesis
    using assms(4) by (simp add: querySelectIdempotency_def)
qed

section \<open>What a purchase does\<close>

definition sold_row :: "int \<Rightarrow> products_row \<Rightarrow> products_row" where
  "sold_row qty r = r\<lparr>p_stock := p_stock r - qty, p_version := p_version r + 1\<rparr>"

definition order_row :: "order \<Rightarrow> products_row \<Rightarrow> timestamp \<Rightarrow> orders_row" where
  "order_row o1 r now =
     \<lparr>o_id = ord_ID o1, o_user_id = ord_UserID o1, o_product_id = ord_ProductID o1,
      o_quantity = ord_Quantity o1, o_unit_price_minor = p_price_minor r,
      o_currency = p_currency r, o_created_at = now\<rparr>"

definition placed_order :: "order \<Rightarrow> products_row \<Rightarrow> timestamp \<Rightarrow> order" where
  "placed_order o1 r now =
     o1\<lparr>ord_UnitPrice := \<lparr>MinorAmount = p_price_minor r, Currency = p_currency r\<rparr>,
        ord_CreatedAt := now\<rparr>"

definition purchased :: "uuid \<Rightarrow> timestamp \<Rightarrow> order \<Rightarrow> products_row \<Rightarrow> timestamp \<Rightarrow> database \<Rightarrow> database" where
  "purchased eid at o1 r now db =
     (let r' = sold_row (ord_Quantity o1) r in
      enqueue (NewPurchased eid at (scanProduct r') (ord_Quantity o1)) now
        (db\<lparr>products := update_key p_id (ord_ProductID o1) (\<lambda>_. r') (products db),
            orders := orders db @ [order_row o1 r now]\<rparr>))"

lemma sold_row_sel:
  "p_id (sold_row q r) = p_id r" "p_price_minor (sold_row q r) = p_price_minor r"
  "p_currency (sold_row q r) = p_currency r" "p_name (sold_row q r) = p_name r"
  by (simp_all add: sold_row_def)

lemma row_currency_db:
  assumes "products_wf ps" "r \<in> set ps"
  shows "text_ok (p_currency r)" "varchar_fit 3 (p_currency r) = Some (p_currency r)"
    "p_price_minor r > 0"
proof -
  have chk: "products_check r" using products_wfD [OF assms] by simp
  then have "currency_Valid (p_currency r)"
    by (auto simp: products_check_def currency_Valid_def currency_defs)
  then show "text_ok (p_currency r)" "varchar_fit 3 (p_currency r) = Some (p_currency r)"
    by (simp_all only: currency_Valid_db)
  show "p_price_minor r > 0" using chk by (simp add: products_check_def)
qed

text \<open>When a purchase can go through, and that nothing else lets it.\<close>

definition can_buy :: "order \<Rightarrow> products_row \<Rightarrow> database \<Rightarrow> bool" where
  "can_buy o1 r db \<longleftrightarrow>
     find_key p_id (ord_ProductID o1) (products db) = Some r \<and> 0 < ord_Quantity o1
     \<and> ord_Quantity o1 \<le> p_stock r \<and> p_version r + 1 < 2 ^ 63
     \<and> ord_ID o1 \<notin> o_id ` set (orders db)"

lemma p_id_image_update:
  "find_key p_id i ps = Some r \<Longrightarrow> p_id r' = i \<Longrightarrow> i \<in> p_id ` set (update_key p_id i (\<lambda>_. r') ps)"
  using find_key_SomeD [of p_id i ps r] by (auto simp: set_update_key)

lemma purchaseTx_success:
  assumes "script s = []" "products_wf (products (tables s))"
  shows "purchaseTx eid at o1 s = (Inr o2, t) \<longleftrightarrow>
    (\<exists>r. can_buy o1 r (tables s) \<and> o2 = placed_order o1 r (clock s)
       \<and> t = s\<lparr>tables := purchased eid at o1 r (clock s) (tables s)\<rparr>)"
proof (cases "find_key p_id (ord_ProductID o1) (products (tables s))")
  case None
  then show ?thesis
    using assms(1) by (auto simp: purchaseTx_run queryPurchase_def can_buy_def)
next
  case (Some r)
  let ?q = "ord_Quantity o1" and ?i = "ord_ProductID o1"
  let ?r' = "sold_row ?q r"
  have r: "r \<in> set (products (tables s))" "p_id r = ?i" using find_key_SomeD [OF Some] by auto
  note cur = row_currency_db [OF assms(2) r(1)]
  have st: "int32_ok (p_stock r)" "0 \<le> p_stock r" "1 \<le> p_version r"
    using products_wfD [OF assms(2) r(1)] by (auto simp: products_check_def)
  have in_img: "?i \<in> p_id ` set (update_key p_id ?i (\<lambda>_. ?r') (products (tables s)))"
    using Some r(2) by (intro p_id_image_update) (auto simp: sold_row_def)
  show ?thesis
  proof (cases "0 < ?q \<and> ?q \<le> p_stock r \<and> p_version r + 1 < 2 ^ 63")
    case True
    have rng: "int32_ok ?q" "int32_ok (p_stock r - ?q)" "int64_ok (p_version r + 1)"
      using True st by (auto simp: int32_ok_def int64_ok_def)
    have buy: "queryPurchase ?i ?q (clock s) (tables s) = Inr ([?r'],
        (tables s)\<lparr>products := update_key p_id ?i (\<lambda>_. ?r') (products (tables s))\<rparr>)"
      using Some True rng by (simp add: queryPurchase_def sold_row_def Let_def)
    let ?db = "(tables s)\<lparr>products := update_key p_id ?i (\<lambda>_. ?r') (products (tables s))\<rparr>"
    have ins: "queryInsertOrder (ord_ID o1) (ord_UserID o1) ?i ?q (p_price_minor ?r')
        (p_currency ?r') (clock s) ?db
        = (if ord_ID o1 \<in> o_id ` set (orders (tables s)) then Inl unique_violation
           else Inr ([clock s], ?db\<lparr>orders := orders (tables s) @ [order_row o1 r (clock s)]\<rparr>))"
      using cur True in_img
      by (simp add: queryInsertOrder_def order_row_def orders_check_def sold_row_sel Let_def)
    have "prod_Price (scanProduct ?r') = \<lparr>MinorAmount = p_price_minor r, Currency = p_currency r\<rparr>"
      by (simp add: scanProduct_def sold_row_sel)
    then have run: "purchaseTx eid at o1 s =
        (if ord_ID o1 \<in> o_id ` set (orders (tables s)) then (Inl unique_violation, s\<lparr>tables := ?db\<rparr>)
         else (Inr (placed_order o1 r (clock s)),
               s\<lparr>tables := purchased eid at o1 r (clock s) (tables s)\<rparr>))"
      using assms(1) buy ins
      by (simp add: purchaseTx_run placed_order_def purchased_def Let_def)
    have "can_buy o1 r' (tables s) \<longleftrightarrow> r' = r \<and> ord_ID o1 \<notin> o_id ` set (orders (tables s))" for r'
      using Some True by (auto simp: can_buy_def)
    then show ?thesis unfolding run by auto
  next
    case False
    have "\<not> is_ok (fst (purchaseTx eid at o1 s))"
      using assms(1) Some False cur st
      by (auto simp: purchaseTx_run queryPurchase_def queryInsertOrder_def orders_check_def
          int64_ok_def Let_def split: if_splits)
    then have "purchaseTx eid at o1 s \<noteq> (Inr o2, t)" by auto
    then show ?thesis using Some False by (auto simp: can_buy_def)
  qed
qed

section \<open>What creating an order does\<close>

definition claimed :: "uuid \<Rightarrow> string \<Rightarrow> string \<Rightarrow> timestamp \<Rightarrow> database \<Rightarrow> database" where
  "claimed uid key h expires db =
     (case find_key ik_pk (uid, key) (idempotency_keys db) of
        None \<Rightarrow> db\<lparr>idempotency_keys := idempotency_keys db @
          [\<lparr>ik_user_id = uid, ik_key = key, ik_request_hash = h, ik_order_id = None,
            ik_expires_at = expires\<rparr>]\<rparr>
      | Some _ \<Rightarrow> db\<lparr>idempotency_keys := update_key ik_pk (uid, key)
          (\<lambda>r. r\<lparr>ik_request_hash := h, ik_order_id := None, ik_expires_at := expires\<rparr>)
          (idempotency_keys db)\<rparr>)"

definition settled :: "uuid \<Rightarrow> string \<Rightarrow> uuid \<Rightarrow> database \<Rightarrow> database" where
  "settled uid key oid db =
     db\<lparr>idempotency_keys :=
          update_key ik_pk (uid, key) (\<lambda>r. r\<lparr>ik_order_id := Some oid\<rparr>) (idempotency_keys db)\<rparr>"

definition placed ::
  "(string \<Rightarrow> string) \<Rightarrow> postgres \<Rightarrow> uuid \<Rightarrow> timestamp \<Rightarrow> order \<Rightarrow> idempotency_key \<Rightarrow> products_row
    \<Rightarrow> timestamp \<Rightarrow> database \<Rightarrow> database" where
  "placed sha256 pg eid at o1 idem r now db =
     settled (ord_UserID o1) idem (ord_ID o1)
       (purchased eid at o1 r now
         (claimed (ord_UserID o1) idem (hashOrderRequest sha256 o1)
           (now + interval_us (idempotencyTTL pg)) db))"

lemma queryInsertIdempotency_eq:
  "queryInsertIdempotency uid key h ttl now db =
     (if \<not> text_ok key then Inl character_not_in_repertoire
      else case live_key uid key now db of
        Some _ \<Rightarrow> Inr (0, db) | None \<Rightarrow> Inr (1, claimed uid key h (now + ttl) db))"
  by (auto simp: queryInsertIdempotency_def live_key_def claimed_def Let_def
      split: option.split if_splits)

lemma claimed_sel [simp]:
  "products (claimed uid key h x db) = products db" "orders (claimed uid key h x db) = orders db"
  "outbox (claimed uid key h x db) = outbox db" "outbox_dead (claimed uid key h x db) = outbox_dead db"
  "outbox_seq (claimed uid key h x db) = outbox_seq db" "wakeups (claimed uid key h x db) = wakeups db"
  by (simp_all add: claimed_def split: option.split)

lemma settled_sel [simp]:
  "products (settled uid key i db) = products db" "orders (settled uid key i db) = orders db"
  "outbox (settled uid key i db) = outbox db" "outbox_dead (settled uid key i db) = outbox_dead db"
  "outbox_seq (settled uid key i db) = outbox_seq db" "wakeups (settled uid key i db) = wakeups db"
  by (simp_all add: settled_def)

lemma purchased_sel [simp]:
  "products (purchased eid at o1 r now db)
     = update_key p_id (ord_ProductID o1) (\<lambda>_. sold_row (ord_Quantity o1) r) (products db)"
  "orders (purchased eid at o1 r now db) = orders db @ [order_row o1 r now]"
  "idempotency_keys (purchased eid at o1 r now db) = idempotency_keys db"
  by (simp_all add: purchased_def Let_def)

lemma find_claimed:
  "find_key ik_pk j (idempotency_keys (claimed uid key h x db)) =
     (if j = (uid, key)
      then Some \<lparr>ik_user_id = uid, ik_key = key, ik_request_hash = h, ik_order_id = None, ik_expires_at = x\<rparr>
      else find_key ik_pk j (idempotency_keys db))"
proof (cases "find_key ik_pk (uid, key) (idempotency_keys db)")
  case None
  then show ?thesis by (auto simp: claimed_def find_key_append split: option.split)
next
  case (Some k)
  then have "ik_user_id k = uid" "ik_key k = key" using find_key_SomeD by fastforce+
  then show ?thesis
    using Some by (cases k) (auto simp: claimed_def find_key_update)
qed

lemma find_placed:
  "find_key ik_pk j (idempotency_keys (placed sha256 pg eid at o1 idem r now db)) =
     (if j = (ord_UserID o1, idem)
      then Some \<lparr>ik_user_id = ord_UserID o1, ik_key = idem, ik_request_hash = hashOrderRequest sha256 o1,
        ik_order_id = Some (ord_ID o1), ik_expires_at = now + interval_us (idempotencyTTL pg)\<rparr>
      else find_key ik_pk j (idempotency_keys db))"
  by (simp add: placed_def settled_def find_key_update find_claimed)

lemma replay_run:
  assumes "script s = []" "db_wf (tables s)"
    and "find_key ik_pk (ord_UserID o1, idem) (idempotency_keys (tables s)) = Some k"
    and "r \<in> set (orders (tables s))" "ik_order_id k = Some (o_id r)"
  shows "replayIdempotent sha256 o1 idem s =
    (if ik_request_hash k \<noteq> hashOrderRequest sha256 o1 then (Inl ErrIdempotencyMismatch, s)
     else (Inr ((scanOrder r)\<lparr>ord_UserID := ord_UserID o1\<rparr>, True), s))"
  using assms(1) select_idempotency_settled [OF assms(2-5)]
  by (simp add: replayIdempotent_def tx_simps scanOrder_def Let_def)

lemma create_order_body_replay:
  assumes "script s = []" "db_wf (tables s)" "keys_settled sha256 (tables s)" "text_ok idem"
    and "live_key (ord_UserID o1) idem (clock s) (tables s) = Some k"
  obtains r where "r \<in> set (orders (tables s))" "ik_order_id k = Some (o_id r)"
    "o_user_id r = ord_UserID o1" "ik_request_hash k = row_hash sha256 r"
    "create_order_body sha256 pg eid at o1 idem s =
      (if row_hash sha256 r \<noteq> hashOrderRequest sha256 o1 then (Inl ErrIdempotencyMismatch, s)
       else (Inr (scanOrder r, True), s))"
proof -
  have k: "find_key ik_pk (ord_UserID o1, idem) (idempotency_keys (tables s)) = Some k"
    using assms(5) by (auto simp: live_key_def split: option.splits if_splits)
  then have "k \<in> set (idempotency_keys (tables s))" "ik_user_id k = ord_UserID o1"
    using find_key_SomeD [OF k] by auto
  then obtain r where r: "r \<in> set (orders (tables s))" "ik_order_id k = Some (o_id r)"
    "o_user_id r = ord_UserID o1" "ik_request_hash k = row_hash sha256 r"
    using assms(3) by (auto simp: keys_settled_def key_settled_def)
  have "create_order_body sha256 pg eid at o1 idem s = replayIdempotent sha256 o1 idem s"
    using assms(1,4,5) by (simp add: create_order_body_def tx_simps queryInsertIdempotency_eq)
  moreover have "(scanOrder r)\<lparr>ord_UserID := ord_UserID o1\<rparr> = scanOrder r"
    using r(3) by (simp add: scanOrder_def)
  ultimately show thesis
    using that [OF r] replay_run [OF assms(1,2) k r(1,2)] r(4) by simp
qed

lemma create_order_body_fresh:
  assumes "script s = []" "db_wf (tables s)" "text_ok idem"
    and "live_key (ord_UserID o1) idem (clock s) (tables s) = None"
  shows "create_order_body sha256 pg eid at o1 idem s = (Inr x, t) \<longleftrightarrow>
    (\<exists>r. can_buy o1 r (tables s) \<and> x = (placed_order o1 r (clock s), False)
       \<and> t = s\<lparr>tables := placed sha256 pg eid at o1 idem r (clock s) (tables s)\<rparr>)"
proof -
  let ?db = "claimed (ord_UserID o1) idem (hashOrderRequest sha256 o1)
      (clock s + interval_us (idempotencyTTL pg)) (tables s)"
  let ?s1 = "s\<lparr>tables := ?db\<rparr>"
  have body: "create_order_body sha256 pg eid at o1 idem s =
      tx_bind (purchaseTx eid at o1) (\<lambda>o2. tx_bind (updateIdempotencyResult (ord_UserID o2) idem (ord_ID o2))
               (\<lambda>_. tx_return (o2, False))) ?s1"
    using assms(1,3,4) by (simp add: create_order_body_def tx_simps queryInsertIdempotency_eq)
  have wf: "script ?s1 = []" "products_wf (products (tables ?s1))"
    using assms(1,2) by (simp_all add: db_wf_def)
  have upd: "updateIdempotencyResult (ord_UserID o1) idem (ord_ID o1)
      (?s1\<lparr>tables := purchased eid at o1 r (clock s) ?db\<rparr>)
      = (Inr (), s\<lparr>tables := placed sha256 pg eid at o1 idem r (clock s) (tables s)\<rparr>)" for r
    using assms(1)
    by (simp add: updateIdempotencyResult_def tx_simps queryUpdateIdempotencyResult_def placed_def
        settled_def order_row_def Let_def)
  have buy: "can_buy o1 r ?db = can_buy o1 r (tables s)" for r by (simp add: can_buy_def)
  have ids: "ord_UserID (placed_order o1 r n) = ord_UserID o1" "ord_ID (placed_order o1 r n) = ord_ID o1"
    for r n by (simp_all add: placed_order_def)
  obtain p s2 where p: "purchaseTx eid at o1 ?s1 = (p, s2)" by fastforce
  show ?thesis
  proof (cases p)
    case (Inl e)
    then have "\<not> can_buy o1 r (tables s)" for r
      using p purchaseTx_success [OF wf, of eid at o1 "placed_order o1 r (clock ?s1)"] buy by force
    then show ?thesis using body p Inl by (simp add: tx_bind_def)
  next
    case (Inr o2)
    then obtain r where r: "can_buy o1 r (tables s)" "o2 = placed_order o1 r (clock s)"
      "s2 = ?s1\<lparr>tables := purchased eid at o1 r (clock s) ?db\<rparr>"
      using p purchaseTx_success [OF wf, of eid at o1 o2 s2] buy by auto
    have uniq: "can_buy o1 r' (tables s) \<longleftrightarrow> r' = r" for r' using r(1) by (auto simp: can_buy_def)
    let ?t = "s\<lparr>tables := placed sha256 pg eid at o1 idem r (clock s) (tables s)\<rparr>"
    have "create_order_body sha256 pg eid at o1 idem s = (Inr (placed_order o1 r (clock s), False), ?t)"
      unfolding body tx_bind_def tx_return_def p Inr r(2,3) sum.case prod.case ids upd ..
    then show ?thesis by (simp add: uniq) metis
  qed
qed

section \<open>Keys stay settled\<close>

lemma keys_settled_find:
  assumes "distinct (map ik_pk (idempotency_keys db))"
  shows "keys_settled sha256 db \<longleftrightarrow>
    (\<forall>j k. find_key ik_pk j (idempotency_keys db) = Some k \<longrightarrow> key_settled sha256 (orders db) k)"
  unfolding keys_settled_def
proof (intro iffI ballI allI impI)
  fix j k
  assume "\<forall>k\<in>set (idempotency_keys db). key_settled sha256 (orders db) k"
    and "find_key ik_pk j (idempotency_keys db) = Some k"
  then show "key_settled sha256 (orders db) k" using find_key_SomeD by fastforce
next
  fix k
  assume all: "\<forall>j k. find_key ik_pk j (idempotency_keys db) = Some k \<longrightarrow> key_settled sha256 (orders db) k"
    and "k \<in> set (idempotency_keys db)"
  then have "find_key ik_pk (ik_pk k) (idempotency_keys db) = Some k"
    using find_key_SomeI [OF assms] by simp
  with all show "key_settled sha256 (orders db) k" by blast
qed

lemma db_wf_keys_distinct: "db_wf db \<Longrightarrow> distinct (map ik_pk (idempotency_keys db))"
  by (simp add: db_wf_def keys_wf_def)

lemma orders_placed [simp]:
  "orders (placed sha256 pg eid at o1 idem r now db) = orders db @ [order_row o1 r now]"
  by (simp add: placed_def)

lemma row_hash_order_row: "row_hash sha256 (order_row o1 r now) = hashOrderRequest sha256 o1"
  by (simp add: row_hash_def order_row_def hashOrderRequest_def)

lemma placed_settled:
  assumes "db_wf db" "db_wf (placed sha256 pg eid at o1 idem r now db)" "keys_settled sha256 db"
  shows "keys_settled sha256 (placed sha256 pg eid at o1 idem r now db)"
proof -
  have old: "find_key ik_pk j (idempotency_keys db) = Some k \<Longrightarrow> key_settled sha256 (orders db) k" for j k
    using assms(3) keys_settled_find [OF db_wf_keys_distinct [OF assms(1)]] by blast
  show ?thesis
    unfolding keys_settled_find [OF db_wf_keys_distinct [OF assms(2)]] find_placed orders_placed
  proof (intro allI impI)
    fix j k
    assume k: "(if j = (ord_UserID o1, idem)
      then Some \<lparr>ik_user_id = ord_UserID o1, ik_key = idem, ik_request_hash = hashOrderRequest sha256 o1,
        ik_order_id = Some (ord_ID o1), ik_expires_at = now + interval_us (idempotencyTTL pg)\<rparr>
      else find_key ik_pk j (idempotency_keys db)) = Some k"
    show "key_settled sha256 (orders db @ [order_row o1 r now]) k"
    proof (cases "j = (ord_UserID o1, idem)")
      case True
      then show ?thesis
        using k row_hash_order_row [of sha256 o1 r now]
        by (auto simp: key_settled_def order_row_def)
    next
      case False
      then show ?thesis using k old key_settled_append by fastforce
    qed
  qed
qed

text \<open>
  The committed effect of \<open>CreateOrder\<close>, under any faults: none, or that of one purchase by a
  caller whose key was not live.
\<close>

lemma create_order_effect_cases:
  assumes run: "store_CreateOrder sha256 pg eid at o1 idem s = (res, s')"
    and wf: "db_wf (tables s)" and st: "keys_settled sha256 (tables s)"
  obtains (none) "same_rows (tables s) (tables s')"
      "\<forall>x. res = Inr x \<longrightarrow> snd x \<and> tables s' = tables s"
  | (bought) r where "text_ok idem" "live_key (ord_UserID o1) idem (clock s) (tables s) = None"
      "can_buy o1 r (tables s)"
      "tables s' = placed sha256 pg eid at o1 idem r (clock s) (tables s)"
      "db_wf (tables s')" "keys_settled sha256 (tables s')"
      "res = Inr (placed_order o1 r (clock s), False)
        \<or> (\<exists>e. res = Inl (mapDBError e) \<and> AckLost e \<in> set (script s))"
  using run unfolding store_CreateOrder_def createOrderIdempotent_def
proof (cases rule: create_order_outcome)
  case (nothing e)
  then show thesis by (intro that(1)) auto
next
  case (all x t)
  let ?s = "s\<lparr>script := []\<rparr>"
  have h: "script ?s = []" "db_wf (tables ?s)" "keys_settled sha256 (tables ?s)" using wf st by simp_all
  have ok: "text_ok idem"
    using all(1) by (cases "text_ok idem")
      (simp_all add: create_order_body_def tx_simps queryInsertIdempotency_eq)
  have wf': "db_wf (tables s')"
    using store_CreateOrder_wf [of sha256 pg eid at o1 idem] run wf
    unfolding tx_rel_def keeps_wf_def by (metis snd_conv)
  show thesis
  proof (cases "live_key (ord_UserID o1) idem (clock ?s) (tables ?s)")
    case (Some k)
    obtain r where "create_order_body sha256 pg eid at o1 idem ?s =
        (if row_hash sha256 r \<noteq> hashOrderRequest sha256 o1 then (Inl ErrIdempotencyMismatch, ?s)
         else (Inr (scanOrder r, True), ?s))"
      using create_order_body_replay [OF h ok Some] by metis
    then have "t = ?s" "snd x" using all(1) by (auto split: if_splits)
    then show thesis using all(2,3) by (intro that(1)) auto
  next
    case None
    then obtain r where r: "can_buy o1 r (tables s)" "x = (placed_order o1 r (clock s), False)"
      "t = ?s\<lparr>tables := placed sha256 pg eid at o1 idem r (clock s) (tables s)\<rparr>"
      using all(1) create_order_body_fresh [OF h(1,2) ok None, of sha256 pg eid at x t] by auto
    have t: "tables s' = placed sha256 pg eid at o1 idem r (clock s) (tables s)"
      using all(2) r(3) by simp
    then have "keys_settled sha256 (tables s')"
      using placed_settled [OF wf _ st] wf' by simp
    then show thesis
      using that(2) [OF ok _ r(1) t wf'] None all(3) r(2) by simp
  qed
qed

lemma store_CreateOrder_settled:
  assumes "store_CreateOrder sha256 pg eid at o1 idem s = (res, s')"
    and "db_wf (tables s)" "keys_settled sha256 (tables s)"
  shows "keys_settled sha256 (tables s')"
  using assms
proof (cases rule: create_order_effect_cases)
  case none
  then show ?thesis using assms(3) by (simp add: keys_settled_def same_rows_sel [OF none(1)])
next
  case (bought r)
  then show ?thesis by simp
qed


section \<open>Exactly-once orders\<close>

lemma mapDBError_sentinel [simp]:
  "mapDBError ErrNotFound = ErrNotFound" "mapDBError ErrInsufficientStock = ErrInsufficientStock"
  "mapDBError ErrIdempotencyMismatch = ErrIdempotencyMismatch"
  "mapDBError ErrProductInUse = ErrProductInUse"
  by (simp_all add: mapDBError_def)

lemma store_CreateOrder_run:
  assumes "script s = []" "create_order_body sha256 pg eid at o1 idem s = (b, t)"
  shows "store_CreateOrder sha256 pg eid at o1 idem s =
    (case b of Inl e \<Rightarrow> (Inl (mapDBError e), tx_rollback s t) | Inr x \<Rightarrow> (Inr x, t))"
proof -
  have "script t = []"
    using tx_frameD [OF create_order_body_frame assms(2)] assms(1) by simp
  then show ?thesis
    using withTx_nil [where fn = "create_order_body sha256 pg eid at o1 idem", OF assms(1,2)]
    by (simp add: store_CreateOrder_def createOrderIdempotent_def)
qed

text \<open>A stored key answers every later request that carries it, until it expires.\<close>

lemma replay_stored:
  assumes "script t = []" "db_wf (tables t)" "keys_settled sha256 (tables t)" "text_ok idem"
    and "live_key (ord_UserID o2) idem (clock t) (tables t) = Some k"
    and "ik_order_id k = Some oid" "find_key o_id oid (orders (tables t)) = Some r"
  shows "store_CreateOrder sha256 pg eid at o2 idem t =
    (if row_hash sha256 r \<noteq> hashOrderRequest sha256 o2 then (Inl ErrIdempotencyMismatch, t)
     else (Inr (scanOrder r, True), t))"
proof -
  obtain r' where r': "r' \<in> set (orders (tables t))" "ik_order_id k = Some (o_id r')"
    and run: "create_order_body sha256 pg eid at o2 idem t =
      (if row_hash sha256 r' \<noteq> hashOrderRequest sha256 o2 then (Inl ErrIdempotencyMismatch, t)
       else (Inr (scanOrder r', True), t))"
    using create_order_body_replay [OF assms(1-5)] by metis
  have "distinct (map o_id (orders (tables t)))" using assms(2) by (simp add: schema_defs)
  then have "find_key o_id (o_id r') (orders (tables t)) = Some r'"
    using r'(1) by (rule find_key_SomeI)
  then have "r' = r" using r'(2) assms(6,7) by simp
  with run show ?thesis
    using store_CreateOrder_run [OF assms(1)] by (auto split: if_splits)
qed

lemma live_key_placed:
  "live_key (ord_UserID o1) idem now' (placed sha256 pg eid at o1 idem r now db) =
     (if now + interval_us (idempotencyTTL pg) < now' then None
      else Some \<lparr>ik_user_id = ord_UserID o1, ik_key = idem,
        ik_request_hash = hashOrderRequest sha256 o1, ik_order_id = Some (ord_ID o1),
        ik_expires_at = now + interval_us (idempotencyTTL pg)\<rparr>)"
  by (simp add: live_key_def find_placed)

lemma find_order_placed:
  assumes "ord_ID o1 \<notin> o_id ` set (orders db)"
  shows "find_key o_id (ord_ID o1) (orders (placed sha256 pg eid at o1 idem r now db))
       = Some (order_row o1 r now)"
proof -
  have "find_key o_id (ord_ID o1) (orders db) = None"
    using assms find_key_None [of o_id "ord_ID o1" "orders db"] by blast
  then show ?thesis by (simp add: find_key_append order_row_def)
qed

lemma scan_order_row: "scanOrder (order_row o1 r now) = placed_order o1 r now"
  by (simp add: scanOrder_def order_row_def placed_order_def)

text \<open>
  What a later state of the tables must still have for a retry at time \<open>now\<close>: every order, and every key
  that has not expired by then.
\<close>

definition keeps_orders :: "(string \<Rightarrow> string) \<Rightarrow> timestamp \<Rightarrow> database \<Rightarrow> database \<Rightarrow> bool" where
  "keeps_orders sha256 now a b \<longleftrightarrow> db_wf b \<and> keys_settled sha256 b \<and> set (orders a) \<subseteq> set (orders b)
     \<and> (\<forall>k\<in>set (idempotency_keys a). now \<le> ik_expires_at k \<longrightarrow> k \<in> set (idempotency_keys b))"

lemma keeps_orders_refl: "db_wf a \<Longrightarrow> keys_settled sha256 a \<Longrightarrow> keeps_orders sha256 now a a"
  by (simp add: keeps_orders_def)

lemma keeps_orders_live:
  assumes "keeps_orders sha256 now a b" "live_key u idem now a = Some k"
  shows "live_key u idem now b = Some k"
proof -
  have k: "k \<in> set (idempotency_keys a)" "ik_pk k = (u, idem)" "now \<le> ik_expires_at k"
    using assms(2) find_key_SomeD [of ik_pk "(u, idem)" "idempotency_keys a" k]
    by (auto simp: live_key_def split: option.splits if_splits)
  then have "find_key ik_pk (ik_pk k) (idempotency_keys b) = Some k"
    using assms(1) by (intro find_key_SomeI) (auto simp: keeps_orders_def schema_defs)
  then show ?thesis using k(2,3) by (simp add: live_key_def)
qed

lemma keeps_orders_find:
  assumes "keeps_orders sha256 now a b" "find_key o_id i (orders a) = Some r"
  shows "find_key o_id i (orders b) = Some r"
proof -
  have "r \<in> set (orders a)" "o_id r = i" using find_key_SomeD [OF assms(2)] by auto
  then show ?thesis
    using assms(1) find_key_SomeI [of o_id "orders b" r] by (auto simp: keeps_orders_def schema_defs)
qed

lemma stored_order_replays:
  assumes first: "store_CreateOrder sha256 pg eid at o1 idem s = (res, s')"
    and wf: "db_wf (tables s)" "keys_settled sha256 (tables s)"
    and effect: "orders (tables s') \<noteq> orders (tables s)"
    and retry: "script t = []" "keeps_orders sha256 (clock t) (tables s') (tables t)"
      "clock t \<le> clock s + interval_us (idempotencyTTL pg)"
    and same: "ord_UserID o2 = ord_UserID o1" "ord_ProductID o2 = ord_ProductID o1"
      "ord_Quantity o2 = ord_Quantity o1"
  shows "\<exists>o3. store_CreateOrder sha256 pg eid2 at2 o2 idem t = (Inr (o3, True), t)
    \<and> ord_ID o3 = ord_ID o1 \<and> ord_UserID o3 = ord_UserID o1
    \<and> (is_ok res \<longrightarrow> res = Inr (o3, False))"
  using first wf
proof (cases rule: create_order_effect_cases)
  case none
  then show ?thesis using effect same_rows_sel(2) by blast
next
  case (bought r)
  have k: "live_key (ord_UserID o2) idem (clock t) (tables t) = Some \<lparr>ik_user_id = ord_UserID o1,
      ik_key = idem, ik_request_hash = hashOrderRequest sha256 o1, ik_order_id = Some (ord_ID o1),
      ik_expires_at = clock s + interval_us (idempotencyTTL pg)\<rparr>"
    using retry(3) same(1) bought(4) by (intro keeps_orders_live [OF retry(2)]) (simp add: live_key_placed)
  have f: "find_key o_id (ord_ID o1) (orders (tables t)) = Some (order_row o1 r (clock s))"
    by (rule keeps_orders_find [OF retry(2) [unfolded bought(4)] find_order_placed])
      (use bought(3) in \<open>simp add: can_buy_def\<close>)
  have "row_hash sha256 (order_row o1 r (clock s)) = hashOrderRequest sha256 o2"
    using same by (simp add: row_hash_order_row hashOrderRequest_def)
  then have "store_CreateOrder sha256 pg eid2 at2 o2 idem t
      = (Inr (placed_order o1 r (clock s), True), t)"
    using replay_stored [OF retry(1) _ _ bought(1) k _ f] retry(2)
    by (simp add: scan_order_row keeps_orders_def)
  then show ?thesis
    using bought(7) by (auto simp: placed_order_def)
qed

text \<open>
  C10: a client whose order went through may retry safely. Whatever faults hit the first request
  (even when it committed and the client only saw an error), once it has stored an order, the same
  user sending the same key, product and quantity again within the retention time, over a healthy
  connection, gets that very order back marked as a replay, and no row changes: stock is not
  taken twice. If the first answer did arrive, both answers carry the same order.
\<close>

theorem retry_replays:
  assumes first: "store_CreateOrder sha256 pg eid at o1 idem s = (res, s')"
    and wf: "db_wf (tables s)" "keys_settled sha256 (tables s)"
    and effect: "orders (tables s') \<noteq> orders (tables s)"
    and retry: "script t = []" "tables t = tables s'"
      "clock t \<le> clock s + interval_us (idempotencyTTL pg)"
    and same: "ord_UserID o2 = ord_UserID o1" "ord_ProductID o2 = ord_ProductID o1"
      "ord_Quantity o2 = ord_Quantity o1"
  shows "\<exists>o3. store_CreateOrder sha256 pg eid2 at2 o2 idem t = (Inr (o3, True), t)
    \<and> ord_ID o3 = ord_ID o1 \<and> ord_UserID o3 = ord_UserID o1
    \<and> (is_ok res \<longrightarrow> res = Inr (o3, False))"
proof -
  have "keeps_orders sha256 (clock t) (tables s') (tables t)"
    unfolding retry(2)
    using store_CreateOrder_wf [of sha256 pg eid at o1 idem] store_CreateOrder_settled [OF first wf] first wf
    unfolding tx_rel_def keeps_wf_def by (metis keeps_orders_refl snd_conv)
  then show ?thesis using stored_order_replays [OF first wf effect retry(1) _ retry(3) same] by blast
qed


definition sample_request :: order where
  "sample_request = \<lparr>ord_ID = 40, ord_UserID = 1, ord_ProductID = 7, ord_Quantity = 4,
     ord_UnitPrice = \<lparr>MinorAmount = 0, Currency = ''''\<rparr>, ord_CreatedAt = 0\<rparr>"

definition lost_commit :: conn where
  "lost_commit = \<lparr>tables = sample_db, clock = 0,
     script = [NoFault, NoFault, NoFault, NoFault, NoFault, NoFault, NoFault,
       AckLost (NetError ''connection reset'')]\<rparr>"

lemmas run_defs = store_CreateOrder_def createOrderIdempotent_def create_order_body_def
  updateIdempotencyResult_def purchaseTx_def insertOutbox_def withTx_def tx_begin_def tx_commit_def
  tx_tick_def tx_exec_def tx_query_row_def tx_bind_def tx_catch_def tx_return_def tx_raise_def
  next_fault_def queryInsertIdempotency_def queryPurchase_def queryInsertOrder_def
  queryInsertOutbox_def queryNotifyOutbox_def queryUpdateIdempotencyResult_def find_key_def
  update_key_def text_ok_def utf8_len_def is_cont_def byte_val_def varchar_fit_def orders_check_def
  mapDBError_def scanProduct_def int32_ok_def int64_ok_def Let_def

lemma lost_commit_effect:
  "fst (store_CreateOrder (\<lambda>x. x) (NewPostgres 86400000000000) 50 0 sample_request ''k1'' lost_commit)
     = Inl (errorf_ww ErrUnavailable (NetError ''connection reset''))"
  "map o_id (orders (tables (snd (store_CreateOrder (\<lambda>x. x) (NewPostgres 86400000000000) 50 0
     sample_request ''k1'' lost_commit)))) = [40]"
  by (simp_all add: run_defs lost_commit_def sample_request_def sample_db_def sample_row_def
      empty_database_def NewPostgres_def interval_us_def)

lemma sample_db_settled: "keys_settled sha256 sample_db"
  by (simp add: keys_settled_def sample_db_def empty_database_def)

lemma lost_commit_facts:
  "tables lost_commit = sample_db" "clock lost_commit = 0"
  "interval_us (idempotencyTTL (NewPostgres 86400000000000)) = 86400000000"
  by (simp_all add: lost_commit_def interval_us_def NewPostgres_def)

lemma lost_commit_changes:
  "orders (tables (snd (store_CreateOrder (\<lambda>x. x) (NewPostgres 86400000000000) 50 0
     sample_request ''k1'' lost_commit))) \<noteq> orders (tables lost_commit)"
  using lost_commit_effect(2) by (auto simp: lost_commit_facts sample_db_def empty_database_def)

theorem retry_replays_witness:
  "\<exists>o3. store_CreateOrder (\<lambda>x. x) (NewPostgres 86400000000000) 51 9 (sample_request\<lparr>ord_ID := 41\<rparr>) ''k1''
       (healthy (tables (snd (store_CreateOrder (\<lambda>x. x) (NewPostgres 86400000000000) 50 0
          sample_request ''k1'' lost_commit))))
     = (Inr (o3, True), healthy (tables (snd (store_CreateOrder (\<lambda>x. x) (NewPostgres 86400000000000) 50 0
          sample_request ''k1'' lost_commit)))) \<and> ord_ID o3 = 40"
proof -
  let ?run = "store_CreateOrder (\<lambda>x. x) (NewPostgres 86400000000000) 50 0 sample_request ''k1'' lost_commit"
  have pair: "?run = (fst ?run, snd ?run)" by simp
  have "\<exists>o3. store_CreateOrder (\<lambda>x. x) (NewPostgres 86400000000000) 51 9 (sample_request\<lparr>ord_ID := 41\<rparr>) ''k1''
       (healthy (tables (snd ?run))) = (Inr (o3, True), healthy (tables (snd ?run)))
     \<and> ord_ID o3 = ord_ID sample_request \<and> ord_UserID o3 = ord_UserID sample_request
     \<and> (is_ok (fst ?run) \<longrightarrow> fst ?run = Inr (o3, False))"
    by (rule retry_replays [OF pair _ _ lost_commit_changes])
      (simp_all add: lost_commit_facts sample_db_wf sample_db_settled healthy_def)
  then show ?thesis by (auto simp: sample_request_def)
qed

text \<open>The text that is hashed determines the product and the quantity.\<close>

lemma order_request_text_inject:
  "order_request_text p q = order_request_text p' q' \<longleftrightarrow> p = p' \<and> q = q'"
  by (auto simp: order_request_text_def append_eq_append_conv itoa_inject uuid_string_inject)

text \<open>
  C16: reusing a key for another purchase is refused. After a request has stored an order, the
  same user sending the same key with another product or quantity within the retention time
  gets \<open>ErrIdempotencyMismatch\<close> and no row changes, provided the hash does not collide on these
  two requests.
\<close>

theorem key_reuse_refused:
  assumes first: "store_CreateOrder sha256 pg eid at o1 idem s = (res, s')"
    and wf: "db_wf (tables s)" "keys_settled sha256 (tables s)"
    and effect: "orders (tables s') \<noteq> orders (tables s)"
    and retry: "script t = []" "tables t = tables s'"
      "clock t \<le> clock s + interval_us (idempotencyTTL pg)"
    and same: "ord_UserID o2 = ord_UserID o1"
    and other: "(ord_ProductID o2, ord_Quantity o2) \<noteq> (ord_ProductID o1, ord_Quantity o1)"
    and no_collision: "\<forall>x\<in>{order_request_text (ord_ProductID o1) (ord_Quantity o1)}.
      \<forall>y\<in>{order_request_text (ord_ProductID o2) (ord_Quantity o2)}. sha256 x = sha256 y \<longrightarrow> x = y"
  shows "store_CreateOrder sha256 pg eid2 at2 o2 idem t = (Inl ErrIdempotencyMismatch, t)"
  using first wf
proof (cases rule: create_order_effect_cases)
  case none
  then show ?thesis using effect same_rows_sel(2) by blast
next
  case (bought r)
  have f: "find_key o_id (ord_ID o1) (orders (tables t)) = Some (order_row o1 r (clock s))"
    unfolding retry(2) bought(4) by (rule find_order_placed) (use bought(3) in \<open>simp add: can_buy_def\<close>)
  have "row_hash sha256 (order_row o1 r (clock s)) \<noteq> hashOrderRequest sha256 o2"
    using other no_collision
    by (auto simp: row_hash_order_row hashOrderRequest_def order_request_text_inject)
  then show ?thesis
    using replay_stored [OF retry(1) _ _ bought(1) _ _ f] bought(4,5,6) retry(2,3) same
    by (simp add: live_key_placed)
qed

theorem key_reuse_refused_witness:
  "fst (store_CreateOrder (\<lambda>x. x) (NewPostgres 86400000000000) 51 9 (sample_request\<lparr>ord_Quantity := 5\<rparr>) ''k1''
       (healthy (tables (snd (store_CreateOrder (\<lambda>x. x) (NewPostgres 86400000000000) 50 0
          sample_request ''k1'' lost_commit))))) = Inl ErrIdempotencyMismatch"
proof -
  let ?run = "store_CreateOrder (\<lambda>x. x) (NewPostgres 86400000000000) 50 0 sample_request ''k1'' lost_commit"
  have pair: "?run = (fst ?run, snd ?run)" by simp
  have "store_CreateOrder (\<lambda>x. x) (NewPostgres 86400000000000) 51 9 (sample_request\<lparr>ord_Quantity := 5\<rparr>) ''k1''
       (healthy (tables (snd ?run))) = (Inl ErrIdempotencyMismatch, healthy (tables (snd ?run)))"
    by (rule key_reuse_refused [OF pair _ _ lost_commit_changes])
      (simp_all add: lost_commit_facts sample_db_wf sample_db_settled healthy_def sample_request_def)
  then show ?thesis by simp
qed


section \<open>The outcomes of an order\<close>

text \<open>
  An order that reports an error has changed no row (no stock taken, no key claimed, no
  event queued), whatever failed inside its transaction, unless the answer to its commit was
  the thing that got lost.
\<close>

lemma failed_order_keeps_rows:
  assumes "store_CreateOrder sha256 pg eid at o1 idem s = (Inl e, s')"
    and "\<forall>x. AckLost x \<notin> set (script s)"
  shows "same_rows (tables s) (tables s')"
  using assms(1) unfolding store_CreateOrder_def createOrderIdempotent_def
  by (cases rule: create_order_outcome) (use assms(2) in auto)

lemma create_order_body_refused:
  assumes "script s = []" "text_ok idem"
    and "live_key (ord_UserID o1) idem (clock s) (tables s) = None"
    and "purchaseTx eid at o1 (s\<lparr>tables := claimed (ord_UserID o1) idem (hashOrderRequest sha256 o1)
      (clock s + interval_us (idempotencyTTL pg)) (tables s)\<rparr>) = (Inl e, s\<lparr>tables := db\<rparr>)"
    and "outbox_seq db = outbox_seq (tables s)"
  shows "store_CreateOrder sha256 pg eid at o1 idem s = (Inl (mapDBError e), s)"
proof -
  have "create_order_body sha256 pg eid at o1 idem s = (Inl e, s\<lparr>tables := db\<rparr>)"
    using assms(1-4) by (simp add: create_order_body_def tx_simps queryInsertIdempotency_eq)
  then show ?thesis
    using store_CreateOrder_run [OF assms(1)] assms(5) by (simp add: tx_rollback_def)
qed

text \<open>
  C11: on a healthy connection a request with a key that is not live ends in exactly one of three
  ways. The product does not exist: \<open>ErrNotFound\<close>, nothing changed. The stock is too small:
  \<open>ErrInsufficientStock\<close>, nothing changed. Otherwise the order is stored with the product's
  current price and the transaction's time, the stock goes down by the quantity and the version
  up by one, the key is linked to the order, and one purchased event carrying the new stock and
  version is queued.
\<close>

theorem new_order_outcomes:
  assumes h: "script s = []" and wf: "db_wf (tables s)" and key: "text_ok idem"
    and new: "live_key (ord_UserID o1) idem (clock s) (tables s) = None"
    and qty: "ValidPurchaseQuantity (ord_Quantity o1)"
    and fresh: "ord_ID o1 \<notin> o_id ` set (orders (tables s))"
    and ver: "\<forall>r\<in>set (products (tables s)). p_version r + 1 < 2 ^ 63"
  shows "case find_key p_id (ord_ProductID o1) (products (tables s)) of
      None \<Rightarrow> store_CreateOrder sha256 pg eid at o1 idem s = (Inl ErrNotFound, s)
    | Some r \<Rightarrow>
        if p_stock r < ord_Quantity o1
        then store_CreateOrder sha256 pg eid at o1 idem s = (Inl ErrInsufficientStock, s)
        else store_CreateOrder sha256 pg eid at o1 idem s =
            (Inr (o1\<lparr>ord_UnitPrice := \<lparr>MinorAmount = p_price_minor r, Currency = p_currency r\<rparr>,
                     ord_CreatedAt := clock s\<rparr>, False),
             s\<lparr>tables := placed sha256 pg eid at o1 idem r (clock s) (tables s)\<rparr>)"
proof (cases "find_key p_id (ord_ProductID o1) (products (tables s))")
  case None
  have "ord_ProductID o1 \<notin> p_id ` set (products (tables s))"
    using None find_key_None [of p_id "ord_ProductID o1" "products (tables s)"] by blast
  then have "store_CreateOrder sha256 pg eid at o1 idem s = (Inl (mapDBError ErrNotFound), s)"
    using None qty
    by (intro create_order_body_refused [OF h key new, where db = "claimed (ord_UserID o1) idem (hashOrderRequest sha256 o1)
      (clock s + interval_us (idempotencyTTL pg)) (tables s)"])
      (simp_all add: purchaseTx_run h queryPurchase_def int32_ok_def ValidPurchaseQuantity_def
        minPurchaseQuantity_def maxPurchaseQuantity_def)
  then show ?thesis using None by simp
next
  case (Some r)
  have r: "r \<in> set (products (tables s))" "p_id r = ord_ProductID o1"
    using find_key_SomeD [OF Some] by auto
  show ?thesis
  proof (cases "p_stock r < ord_Quantity o1")
    case True
    have "ord_ProductID o1 \<in> p_id ` set (products (tables s))" using r by force
    then have "store_CreateOrder sha256 pg eid at o1 idem s = (Inl (mapDBError ErrInsufficientStock), s)"
      using Some True qty
      by (intro create_order_body_refused [OF h key new, where db = "claimed (ord_UserID o1) idem (hashOrderRequest sha256 o1)
      (clock s + interval_us (idempotencyTTL pg)) (tables s)"])
        (simp_all add: purchaseTx_run h queryPurchase_def int32_ok_def ValidPurchaseQuantity_def
          minPurchaseQuantity_def maxPurchaseQuantity_def)
    then show ?thesis using Some True by simp
  next
    case False
    then have "can_buy o1 r (tables s)"
      using Some qty fresh ver r(1)
      by (simp add: can_buy_def ValidPurchaseQuantity_def minPurchaseQuantity_def)
    then have "create_order_body sha256 pg eid at o1 idem s
        = (Inr (placed_order o1 r (clock s), False),
           s\<lparr>tables := placed sha256 pg eid at o1 idem r (clock s) (tables s)\<rparr>)"
      using create_order_body_fresh [OF h wf key new] by blast
    then show ?thesis
      using store_CreateOrder_run [OF h] Some False by (simp add: placed_order_def)
  qed
qed

theorem new_order_outcomes_witness:
  "fst (store_CreateOrder (\<lambda>x. x) (NewPostgres 86400000000000) 50 0 sample_request ''k1'' (healthy sample_db))
     = Inr (sample_request\<lparr>ord_UnitPrice := \<lparr>MinorAmount = 999, Currency = ''PLN''\<rparr>\<rparr>, False)
   \<and> fst (store_CreateOrder (\<lambda>x. x) (NewPostgres 86400000000000) 50 0 (sample_request\<lparr>ord_ProductID := 8\<rparr>)
        ''k1'' (healthy sample_db)) = Inl ErrNotFound"
proof -
  let ?s = "healthy sample_db"
  have h: "script ?s = []" "db_wf (tables ?s)" "text_ok ''k1''"
    by (simp_all add: healthy_def sample_db_wf text_ok_def byte_val_def)
  have new: "live_key (ord_UserID q) ''k1'' (clock ?s) (tables ?s) = None" for q
    by (simp add: healthy_def live_key_def sample_db_def empty_database_def)
  have rest: "ord_ID sample_request \<notin> o_id ` set (orders (tables ?s))"
    "\<forall>r\<in>set (products (tables ?s)). p_version r + 1 < 2 ^ 63"
    "ValidPurchaseQuantity (ord_Quantity sample_request)"
    by (simp_all add: healthy_def sample_db_def sample_row_def empty_database_def sample_request_def
        ValidPurchaseQuantity_def minPurchaseQuantity_def maxPurchaseQuantity_def)
  show ?thesis
    using new_order_outcomes [OF h(1,2,3) new rest(3,1,2), of "\<lambda>x. x" "NewPostgres 86400000000000" 50 0]
      new_order_outcomes [OF h(1,2,3) new, of "sample_request\<lparr>ord_ProductID := 8\<rparr>" "\<lambda>x. x"
        "NewPostgres 86400000000000" 50 0] rest
    by (simp add: sample_request_def healthy_def sample_db_def sample_row_def find_key_def)
qed

end
