(* ===== verification/Janitor.thy ===== *)
theory Janitor
  imports Idempotency_Store
begin

text \<open>
  \<open>internal/pg/janitor.go\<close>: the loop that purges expired idempotency keys once per interval. As
  for the relay, a run is given by what its iterations observed: whether the context ended
  the wait, the time and the faults of the purge, and whether the context was cancelled when
  the purge had failed.
\<close>

record janitor_env =
  je_done :: bool
  je_clock :: timestamp
  je_script :: "fault list"
  je_ctx :: bool

fun janitor_loop :: "janitor_env list \<Rightarrow> database \<Rightarrow> bool \<times> database" where
  "janitor_loop [] db = (False, db)"
| "janitor_loop (env # envs) db =
     (if je_done env then (True, db)
      else case PurgeIdempotencyKeys \<lparr>tables = db, clock = je_clock env, script = je_script env\<rparr> of
        (Inl err, s) \<Rightarrow> if je_ctx env then (True, tables s) else janitor_loop envs (tables s)
      | (Inr n, s) \<Rightarrow> janitor_loop envs (tables s))"

definition janitor_Run :: "janitor_env list \<Rightarrow> database \<Rightarrow> bool \<times> database" where
  "janitor_Run envs db = janitor_loop envs db"

section \<open>Only expired keys go\<close>

definition purged :: "timestamp \<Rightarrow> database \<Rightarrow> database" where
  "purged now db = db\<lparr>idempotency_keys := filter (\<lambda>r. \<not> ik_expires_at r < now) (idempotency_keys db)\<rparr>"

lemma purge_tables:
  assumes "PurgeIdempotencyKeys s = (r, s')"
  shows "tables s' = tables s \<or> tables s' = purged (clock s) (tables s)"
    and "is_ok r \<or> script s = [] \<Longrightarrow> is_ok r \<and> tables s' = purged (clock s) (tables s)"
  using assms
  by (auto simp: PurgeIdempotencyKeys_def tx_catch_def tx_exec_def tx_raise_def next_fault_def
      queryPurgeIdempotency_def purged_def split: list.splits fault.splits)

text \<open>Purging what expired by \<open>t\<close> is invisible to every request at a later time.\<close>

definition same_live :: "timestamp \<Rightarrow> database \<Rightarrow> database \<Rightarrow> bool" where
  "same_live now a b \<longleftrightarrow>
     (\<forall>uid key. live_key uid key now b = live_key uid key now a)
     \<and> b\<lparr>idempotency_keys := idempotency_keys a\<rparr> = a"

lemma find_key_filter_keep:
  assumes "distinct (map key rs)"
  shows "find_key key k (filter P rs) = (case find_key key k rs of None \<Rightarrow> None | Some r \<Rightarrow> if P r then Some r else None)"
  using assms
proof (induction rs)
  case (Cons a rs)
  have "find_key key (key a) (filter P rs) = None"
    using Cons.prems find_key_None [of key "key a" "filter P rs"] by auto
  then show ?case using Cons by (auto split: option.split)
qed simp

lemma purged_same_live:
  assumes "distinct (map ik_pk (idempotency_keys db))" "t \<le> now"
  shows "same_live now db (purged t db)"
  using assms(2) find_key_filter_keep [OF assms(1)]
  by (auto simp: same_live_def purged_def live_key_def split: option.split)

lemma purged_distinct:
  "distinct (map ik_pk (idempotency_keys db)) \<Longrightarrow> distinct (map ik_pk (idempotency_keys (purged t db)))"
  by (simp add: purged_def distinct_map_filter)

lemma same_live_refl: "same_live now db db"
  by (simp add: same_live_def)

lemma same_live_trans: "same_live now a b \<Longrightarrow> same_live now b c \<Longrightarrow> same_live now a c"
  by (cases a; cases b; cases c) (simp add: same_live_def)

text \<open>
  the janitor only removes what no request can see any more. Whatever happened in its run, at
  any time not before its purges every idempotency key a request could find live is still
  found, with the same order and hash, and nothing but idempotency keys has been touched.
\<close>

theorem janitor_keeps_live_keys:
  assumes "janitor_Run envs db = (returned, db')" "db_wf db"
    and "\<forall>env\<in>set envs. je_clock env \<le> now"
  shows "(\<forall>uid key. live_key uid key now db' = live_key uid key now db)
    \<and> db'\<lparr>idempotency_keys := idempotency_keys db\<rparr> = db"
proof -
  have "same_live now db (snd (janitor_loop envs db))"
    if "distinct (map ik_pk (idempotency_keys db))" "\<forall>env\<in>set envs. je_clock env \<le> now" for db
    using that
  proof (induction envs arbitrary: db)
    case (Cons env envs)
    obtain r s' where p: "PurgeIdempotencyKeys \<lparr>tables = db, clock = je_clock env, script = je_script env\<rparr> = (r, s')"
      by fastforce
    have s': "same_live now db (tables s')" "distinct (map ik_pk (idempotency_keys (tables s')))"
      using purge_tables(1) [OF p] purged_same_live [OF Cons.prems(1), of "je_clock env" now]
        Cons.prems purged_distinct [of db "je_clock env"] by (auto simp: same_live_refl)
    have "same_live now (tables s') (snd (janitor_loop envs (tables s')))"
      using Cons.IH [OF s'(2)] Cons.prems(2) by simp
    then show ?case
      using p s'(1) same_live_trans [OF s'(1)] by (auto simp: same_live_refl split: sum.split)
  qed (simp add: same_live_refl)
  then have "same_live now db db'"
    using assms db_wf_keys_distinct by (fastforce simp: janitor_Run_def)
  then show ?thesis by (simp add: same_live_def)
qed

definition sample_keys_db :: database where
  "sample_keys_db = sample_orders_db\<lparr>idempotency_keys :=
     [\<lparr>ik_user_id = 1, ik_key = ''old'', ik_request_hash = ''h'', ik_order_id = Some 20, ik_expires_at = 5\<rparr>,
      \<lparr>ik_user_id = 1, ik_key = ''new'', ik_request_hash = ''h'', ik_order_id = Some 22, ik_expires_at = 50\<rparr>]\<rparr>"

lemma sample_keys_db_wf: "db_wf sample_keys_db"
  using sample_orders_db_wf by (simp add: db_wf_def sample_keys_db_def keys_wf_def)
    (simp add: sample_orders_db_def sample_order_def)

theorem janitor_keeps_live_keys_witness:
  "live_key 1 ''new'' 20 (snd (janitor_Run [\<lparr>je_done = False, je_clock = 10, je_script = [], je_ctx = False\<rparr>]
       sample_keys_db))
   = Some \<lparr>ik_user_id = 1, ik_key = ''new'', ik_request_hash = ''h'', ik_order_id = Some 22, ik_expires_at = 50\<rparr>"
proof -
  have "live_key 1 ''new'' 20 (snd (janitor_Run [\<lparr>je_done = False, je_clock = 10, je_script = [], je_ctx = False\<rparr>]
      sample_keys_db)) = live_key 1 ''new'' 20 sample_keys_db"
    using janitor_keeps_live_keys [OF surjective_pairing sample_keys_db_wf,
        of "[\<lparr>je_done = False, je_clock = 10, je_script = [], je_ctx = False\<rparr>]" 20] by simp
  then show ?thesis by (simp add: live_key_def sample_keys_db_def)
qed

end
