(* ===== verification/Changes.thy ===== *)
theory Changes
  imports Idempotency_Store Janitor
begin

text \<open>
  What the store may do to the tables at a time, as a specification of five kinds of change, and that every
  operation of \<open>internal/store\<close> which writes keeps to it, under any faults: each of its calls leaves every
  row as it was or makes exactly one change, complete with its event.
\<close>

section \<open>The changes\<close>

inductive db_change :: "(string \<Rightarrow> string) \<Rightarrow> timestamp \<Rightarrow> database \<Rightarrow> database \<Rightarrow> bool"
  for sha256 now where
  unchanged: "same_rows a b \<Longrightarrow> db_change sha256 now a b"
| saved: "p_id r \<notin> p_id ` set (products a) \<Longrightarrow> EventType e = TypeCreated \<Longrightarrow> EventProductID e = p_id r \<Longrightarrow>
    EventStock e = p_stock r \<Longrightarrow>
    db_change sha256 now a (enqueue e now (a\<lparr>products := products a @ [r]\<rparr>))"
| updated: "find_key p_id i (products a) = Some r \<Longrightarrow> p_id r' = i \<Longrightarrow> p_stock r' = p_stock r \<Longrightarrow>
    EventType e = TypeUpdated \<Longrightarrow> EventProductID e = i \<Longrightarrow>
    db_change sha256 now a (enqueue e now (a\<lparr>products := update_key p_id i (\<lambda>_. r') (products a)\<rparr>))"
| deleted: "find_key p_id i (products a) = Some r \<Longrightarrow> i \<notin> o_product_id ` set (orders a) \<Longrightarrow>
    EventType e = TypeDeleted \<Longrightarrow> EventProductID e = i \<Longrightarrow>
    db_change sha256 now a (enqueue e now (a\<lparr>products := delete_key p_id i (products a)\<rparr>))"
| bought: "can_buy o1 r a \<Longrightarrow> live_key (ord_UserID o1) idem now a = None \<Longrightarrow>
    db_change sha256 now a (placed sha256 pg eid at o1 idem r now a)"

inductive_cases db_changeE [consumes 1, case_names unchanged saved updated deleted bought]:
  "db_change sha256 now a b"

text \<open>What a call may do to tables that are in order: a change, and they are in order again.\<close>

definition in_order :: "(string \<Rightarrow> string) \<Rightarrow> database \<Rightarrow> bool" where
  "in_order sha256 db \<longleftrightarrow> db_wf db \<and> keys_settled sha256 db"

definition op_effect :: "(string \<Rightarrow> string) \<Rightarrow> timestamp \<Rightarrow> database \<Rightarrow> database \<Rightarrow> bool" where
  "op_effect sha256 now a b \<longleftrightarrow> (in_order sha256 a \<longrightarrow>
     db_change sha256 now a b \<and> in_order sha256 b \<and> outbox_seq a \<le> outbox_seq b)"

lemma keeps_wf_run: "tx_rel keeps_wf m \<Longrightarrow> m s = (r, s') \<Longrightarrow> db_wf (tables s) \<Longrightarrow> db_wf (tables s')"
  unfolding tx_rel_def keeps_wf_def by (metis snd_conv)

lemma seq_grows: "tx_rel keeps_wf m \<Longrightarrow> m s = (r, s') \<Longrightarrow> outbox_seq (tables s) \<le> outbox_seq (tables s')"
  unfolding tx_rel_def keeps_wf_def by (metis snd_conv)

lemma same_settled: "same_rows a b \<Longrightarrow> keys_settled sha256 b = keys_settled sha256 a"
  by (simp add: keys_settled_def same_rows_sel)

lemma op_effect_refl [simp]: "op_effect sha256 now a a"
  by (simp add: op_effect_def unchanged)

text \<open>A transaction that committed did what it does on a healthy connection.\<close>

lemma committed [consumes 1, case_names frame strict nothing all]:
  assumes run: "withTx fn s = (res, s')" and fn: "tx_frame fn" "tx_strict fn"
    and nothing: "same_rows (tables s) (tables s') \<Longrightarrow> thesis"
    and all: "\<And>x t. withTx fn (s\<lparr>script := []\<rparr>) = (Inr x, t) \<Longrightarrow> tables s' = tables t \<Longrightarrow> thesis"
  shows thesis
  using fn run
proof (cases rule: withTx_outcome)
  case (all x t)
  then have "script t = []" using tx_frameD [OF fn(1) all(1)] by simp
  then have "withTx fn (s\<lparr>script := []\<rparr>) = (Inr x, t)" using all(1) by (simp add: withTx_nil)
  then show thesis using all(2) assms(5) by blast
qed (use assms(4) in blast)

section \<open>Every operation keeps to them\<close>

text \<open>Keys and orders are untouched by the catalogue's operations, so keys stay settled.\<close>

lemma op_effectI:
  assumes "tx_rel keeps_wf m" "m s = (res, s')"
    and "db_wf (tables s) \<Longrightarrow> keys_settled sha256 (tables s) \<Longrightarrow>
      db_change sha256 (clock s) (tables s) (tables s') \<and> keys_settled sha256 (tables s')"
  shows "op_effect sha256 (clock s) (tables s) (tables s')"
  using assms keeps_wf_run [OF assms(1,2)] seq_grows [OF assms(1,2)] by (auto simp: op_effect_def in_order_def)

lemma catalogue_settled:
  "orders b = orders a \<Longrightarrow> idempotency_keys b = idempotency_keys a \<Longrightarrow> keys_settled sha256 b = keys_settled sha256 a"
  by (simp add: keys_settled_def)

lemma store_Save_effect:
  assumes run: "store_Save eid at p s = (res, s')"
  shows "op_effect sha256 (clock s) (tables s) (tables s')"
proof (rule op_effectI [OF store_Save_wf run])
  assume st: "keys_settled sha256 (tables s)"
  show "db_change sha256 (clock s) (tables s) (tables s') \<and> keys_settled sha256 (tables s')"
    using run unfolding store_Save_def Let_def
  proof (cases rule: committed)
    case nothing
    then show ?thesis using st by (auto simp: same_settled intro: unchanged)
  next
    case (all x t)
    then have "store_Save eid at p (s\<lparr>script := []\<rparr>) = (Inr x, t)" by (simp add: store_Save_def Let_def)
    then obtain v db where q: "queryInsert (prod_ID p) (prod_Name p) (MinorAmount (prod_Price p))
          (Currency (prod_Price p)) (prod_Stock p) (clock s) (tables s) = Inr (v, db)"
      and t: "tables t = enqueue (event_New eid at TypeCreated (p\<lparr>prod_Version := 1\<rparr>)) (clock s) db"
      by (auto simp: store_Save_run Let_def split: sum.splits)
    from q obtain nm c where ins: "prod_ID p \<notin> p_id ` set (products (tables s))"
      "db = (tables s)\<lparr>products := products (tables s) @ [\<lparr>p_id = prod_ID p, p_name = nm,
         p_price_minor = MinorAmount (prod_Price p), p_currency = c, p_stock = prod_Stock p, p_version = 1\<rparr>]\<rparr>"
      by (auto simp: queryInsert_def Let_def split: if_splits option.splits)
    show ?thesis
      unfolding all(2) t ins(2) using ins(1) st
      by (auto simp: event_New_def keys_settled_def intro!: saved)
  qed (auto intro!: tx_frame_bind tx_frame_query_row insertOutbox_frame tx_strict_bind tx_strict_query_row
      insertOutbox_strict tx_strict_prims)
qed

lemma store_Update_effect:
  assumes run: "store_Update eid at p s = (res, s')"
  shows "op_effect sha256 (clock s) (tables s) (tables s')"
proof (rule op_effectI [OF store_Update_wf run])
  assume st: "keys_settled sha256 (tables s)"
  show "db_change sha256 (clock s) (tables s) (tables s') \<and> keys_settled sha256 (tables s')"
    using run unfolding store_Update_def
  proof (cases rule: committed)
    case nothing
    then show ?thesis using st by (auto simp: same_settled intro: unchanged)
  next
    case (all x t)
    then have "store_Update eid at p (s\<lparr>script := []\<rparr>) = (Inr x, t)" by (simp add: store_Update_def)
    then obtain r' rs db where q: "queryUpdate (prod_ID p) (prod_Name p) (MinorAmount (prod_Price p))
          (Currency (prod_Price p)) (clock s) (tables s) = Inr (r' # rs, db)"
      and t: "tables t = enqueue (event_New eid at TypeUpdated (scanProduct r')) (clock s) db"
      by (auto simp: store_Update_run Let_def split: sum.splits list.splits)
    then obtain r where r: "find_key p_id (prod_ID p) (products (tables s)) = Some r" "p_id r' = p_id r" "p_stock r' = p_stock r"
      "db = (tables s)\<lparr>products := update_key p_id (prod_ID p) (\<lambda>_. r') (products (tables s))\<rparr>"
      by (fastforce simp: queryUpdate_def Let_def split: if_splits option.splits)
    then have "p_id r = prod_ID p" using find_key_SomeD by fastforce
    then show ?thesis
      unfolding all(2) t r(4) using r st
      by (auto simp: event_New_def scanProduct_def keys_settled_def intro!: updated)
  qed (auto intro!: tx_frame_bind tx_frame_catch tx_frame_query_row insertOutbox_frame tx_strict_bind tx_strict_catch
      tx_strict_query_row insertOutbox_strict tx_strict_prims)
qed

lemma store_Delete_effect:
  assumes run: "store_Delete eid at i s = (res, s')"
  shows "op_effect sha256 (clock s) (tables s) (tables s')"
proof (rule op_effectI [OF store_Delete_wf run])
  assume st: "keys_settled sha256 (tables s)"
  show "db_change sha256 (clock s) (tables s) (tables s') \<and> keys_settled sha256 (tables s')"
    using run unfolding store_Delete_def Let_def
  proof (cases rule: committed)
    case nothing
    then show ?thesis using st by (auto simp: same_settled intro: unchanged)
  next
    case (all x t)
    then have "store_Delete eid at i (s\<lparr>script := []\<rparr>) = (Inr x, t)" by (simp add: store_Delete_def Let_def)
    then obtain r where r: "find_key p_id i (products (tables s)) = Some r" "i \<notin> o_product_id ` set (orders (tables s))"
      "tables t = enqueue (event_New eid at TypeDeleted (zero_product\<lparr>prod_ID := i, prod_Version := p_version r + 1\<rparr>)) (clock s)
         ((tables s)\<lparr>products := delete_key p_id i (products (tables s))\<rparr>)"
      by (auto simp: store_Delete_run split: if_splits option.splits)
    then show ?thesis
      unfolding all(2) r(3) using st by (auto simp: event_New_def keys_settled_def intro!: deleted)
  qed (auto intro!: tx_frame_bind tx_frame_catch tx_frame_query_row insertOutbox_frame tx_strict_bind tx_strict_catch
      tx_strict_query_row insertOutbox_strict tx_strict_prims)
qed

lemma store_CreateOrder_effect:
  assumes run: "store_CreateOrder sha256 pg eid at o1 idem s = (res, s')"
  shows "op_effect sha256 (clock s) (tables s) (tables s')"
proof (rule op_effectI [OF store_CreateOrder_wf run])
  assume wf: "db_wf (tables s)" "keys_settled sha256 (tables s)"
  show "db_change sha256 (clock s) (tables s) (tables s') \<and> keys_settled sha256 (tables s')"
    using run wf
  proof (cases rule: create_order_effect_cases)
    case none
    then show ?thesis using wf by (auto simp: same_settled intro: unchanged)
  next
    case (bought r)
    then show ?thesis by (auto intro: db_change.bought)
  qed
qed

end
