(* ===== verification/Outbox_Store.thy ===== *)
theory Outbox_Store
  imports Product_Store
begin

text \<open>
  \<open>internal/store/outbox.go\<close>: one relay round claims due rows, publishes them in order and
  settles every outcome in one transaction. The broker is code outside the repository: a
  publish function over any state \<open>'b\<close> of the broker, answering nil or an error. \<open>locked\<close>
  tells which rows another relay's transaction holds.
\<close>

section \<open>Operations\<close>

record outbox_row =
  or_id :: int
  or_attempts :: int
  or_createdAt :: timestamp
  or_record :: event_record

record failed_row =
  f_row :: outbox_row
  f_err :: go_error

type_synonym 'b publish = "event_record \<Rightarrow> 'b \<Rightarrow> go_error option \<times> 'b"

definition scanOutbox :: "outbox_table_row \<Rightarrow> outbox_row" where
  "scanOutbox r =
     \<lparr>or_id = ob_id r, or_attempts = ob_attempts r, or_createdAt = ob_created_at r,
      or_record = \<lparr>MessageID = ob_message_id r, RecType = ob_event_type r, Payload = ob_payload r\<rparr>\<rparr>"

fun claim_scan :: "outbox_row list \<Rightarrow> outbox_table_row list \<Rightarrow> outbox_row list tx" where
  "claim_scan batch [] =
     tx_catch (tx_tick batch) (\<lambda>err. tx_raise (errorf_w ''outbox rows: '' err))"
| "claim_scan batch (r # rs) =
     tx_bind (tx_catch (tx_tick (scanOutbox r)) (\<lambda>err. tx_raise (errorf_w ''outbox scan: '' err)))
       (\<lambda>row. claim_scan (batch @ [row]) rs)"

definition claimOutbox :: "(int \<Rightarrow> bool) \<Rightarrow> int \<Rightarrow> outbox_row list tx" where
  "claimOutbox locked n =
     tx_bind
       (tx_catch (tx_exec (queryClaimOutbox locked n))
         (\<lambda>err. tx_raise (errorf_w ''outbox claim: '' err)))
       (claim_scan [])"

fun publishBatch :: "'b publish \<Rightarrow> outbox_row list \<Rightarrow> 'b \<Rightarrow> (int list \<times> failed_row list) \<times> 'b" where
  "publishBatch publish [] b = (([], []), b)"
| "publishBatch publish (row # rows) b =
     (case publish (or_record row) b of
        (None, b1) \<Rightarrow>
          (case publishBatch publish rows b1 of ((sent, failed), b2) \<Rightarrow> ((or_id row # sent, failed), b2))
      | (Some err, b1) \<Rightarrow>
          if \<not> errors_is err ErrUndeliverable then (([], [\<lparr>f_row = row, f_err = err\<rparr>]), b1)
          else (case publishBatch publish rows b1 of
                  ((sent, failed), b2) \<Rightarrow> ((sent, \<lparr>f_row = row, f_err = err\<rparr> # failed), b2)))"

text \<open>The loop keeps the last transient error, as the assignment in it does.\<close>

fun classify_loop ::
  "int \<Rightarrow> failed_row list \<Rightarrow> int list \<times> failed_row list \<times> go_error option
    \<Rightarrow> int list \<times> failed_row list \<times> go_error option" where
  "classify_loop maxAttempts [] acc = acc"
| "classify_loop maxAttempts (f # fs) (bump, dead, transient) =
     classify_loop maxAttempts fs
       (if \<not> errors_is (f_err f) ErrUndeliverable then (bump, dead, Some (f_err f))
        else if or_attempts (f_row f) + 1 \<ge> maxAttempts then (bump, dead @ [f], transient)
        else (bump @ [or_id (f_row f)], dead, transient))"

definition classifyFailures ::
  "failed_row list \<Rightarrow> int \<Rightarrow> int list \<times> failed_row list \<times> go_error option" where
  "classifyFailures failed maxAttempts = classify_loop maxAttempts failed ([], [], None)"

definition deleteOutbox :: "int list \<Rightarrow> unit tx" where
  "deleteOutbox ids =
     (if length ids = 0 then tx_return ()
      else tx_bind
        (tx_catch (tx_exec (queryDeleteOutbox ids)) (\<lambda>err. tx_raise (errorf_w ''outbox delete: '' err)))
        (\<lambda>_. tx_return ()))"

definition bumpAttempts :: "int list \<Rightarrow> unit tx" where
  "bumpAttempts ids =
     (if length ids = 0 then tx_return ()
      else tx_bind
        (tx_catch (tx_exec (queryBumpOutbox ids)) (\<lambda>err. tx_raise (errorf_w ''outbox attempts: '' err)))
        (\<lambda>_. tx_return ()))"

fun dead_loop :: "int list \<Rightarrow> failed_row list \<Rightarrow> int list tx" where
  "dead_loop ids [] = tx_return ids"
| "dead_loop ids (f # fs) =
     (let r = f_row f in
      tx_bind
        (tx_catch
          (tx_exec (queryDeadOutbox (or_id r) (MessageID (or_record r)) (RecType (or_record r))
             (Payload (or_record r)) (wrap32 (or_attempts r + 1)) (or_createdAt r) (f_err f)))
          (\<lambda>err. tx_raise (errorf_w ''outbox dead-letter: '' err)))
        (\<lambda>_. dead_loop (ids @ [or_id r]) fs))"

definition deadLetter :: "failed_row list \<Rightarrow> unit tx" where
  "deadLetter rows = tx_bind (dead_loop [] rows) deleteOutbox"

definition settle :: "int list \<Rightarrow> int list \<Rightarrow> failed_row list \<Rightarrow> unit tx" where
  "settle sent bump dead =
     tx_bind (deleteOutbox sent) (\<lambda>_. tx_bind (bumpAttempts bump) (\<lambda>_. deadLetter dead))"

text \<open>
  The whole round. Its three results are Go's \<open>(int, bool, error)\<close>; unlike the other store
  operations a round may commit and still answer an error, the transient one.
\<close>

definition DrainBatch ::
  "(int \<Rightarrow> bool) \<Rightarrow> int \<Rightarrow> int \<Rightarrow> 'b publish \<Rightarrow> 'b \<Rightarrow> conn
    \<Rightarrow> (nat \<times> bool \<times> go_error option) \<times> 'b \<times> conn" where
  "DrainBatch locked batchSize maxAttempts publish b s =
     (case tx_begin s of
        (Inl err, s1) \<Rightarrow> ((0, False, Some (errorf_w ''outbox begin: '' err)), b, s1)
      | (Inr _, s1) \<Rightarrow>
          (case claimOutbox locked batchSize s1 of
             (Inl err, s2) \<Rightarrow> ((0, False, Some err), b, tx_rollback s1 s2)
           | (Inr batch, s2) \<Rightarrow>
               if length batch = 0 then ((0, False, None), b, tx_rollback s1 s2)
               else
                 let full = (int (length batch) = batchSize);
                     ((sent, failed), b1) = publishBatch publish batch b;
                     (bump, dead, transientErr) = classifyFailures failed maxAttempts
                 in case settle sent bump dead s2 of
                      (Inl err, s3) \<Rightarrow> ((0, False, Some err), b1, tx_rollback s1 s3)
                    | (Inr _, s3) \<Rightarrow>
                        (case tx_commit s1 () s3 of
                           (Inl err, s4) \<Rightarrow>
                             ((0, False, Some (errorf_w ''outbox commit: '' err)), b1, s4)
                         | (Inr _, s4) \<Rightarrow> ((length sent, full, transientErr), b1, s4))))"

section \<open>Publishing\<close>

text \<open>What a row's publication came to: delivered, refused for good, refused for now.\<close>

lemma classify_loop_eq:
  "classify_loop m fs (bump, dead, t) =
     (bump @ map (or_id \<circ> f_row) (filter (\<lambda>f. errors_is (f_err f) ErrUndeliverable
                                    \<and> or_attempts (f_row f) + 1 < m) fs),
      dead @ filter (\<lambda>f. errors_is (f_err f) ErrUndeliverable \<and> or_attempts (f_row f) + 1 \<ge> m) fs,
      (case filter (\<lambda>f. \<not> errors_is (f_err f) ErrUndeliverable) fs of
         [] \<Rightarrow> t | g # gs \<Rightarrow> Some (f_err (last (g # gs)))))"
  by (induction fs arbitrary: bump dead t) (auto split: list.splits)

text \<open>
  The calls a batch makes and their answers: rows in order, up to the first transient failure,
  which is the last call.
\<close>

definition transient :: "go_error option \<Rightarrow> bool" where
  "transient e \<longleftrightarrow> (case e of None \<Rightarrow> False | Some err \<Rightarrow> \<not> errors_is err ErrUndeliverable)"

fun publish_calls :: "'b publish \<Rightarrow> outbox_row list \<Rightarrow> 'b \<Rightarrow> (outbox_row \<times> go_error option) list" where
  "publish_calls publish [] b = []"
| "publish_calls publish (row # rows) b =
     (case publish (or_record row) b of
        (e, b1) \<Rightarrow> (row, e) # (if transient e then [] else publish_calls publish rows b1))"

lemma publishBatch_calls:
  "fst (publishBatch publish batch b) =
     (map (or_id \<circ> fst) (filter (\<lambda>c. snd c = None) (publish_calls publish batch b)),
      map (\<lambda>c. \<lparr>f_row = fst c, f_err = the (snd c)\<rparr>) (filter (\<lambda>c. snd c \<noteq> None) (publish_calls publish batch b)))"
  by (induction publish batch b rule: publishBatch.induct)
    (auto simp: transient_def split: prod.splits option.splits if_splits)

lemma publish_calls_prefix: "prefix (map fst (publish_calls publish batch b)) batch"
  by (induction batch arbitrary: b) (auto split: prod.splits)

lemma publish_calls_subset: "c \<in> set (publish_calls publish batch b) \<Longrightarrow> fst c \<in> set batch"
  using set_mono_prefix [OF publish_calls_prefix] by fastforce

lemma publish_calls_butlast:
  "c \<in> set (butlast (publish_calls publish batch b)) \<Longrightarrow> \<not> transient (snd c)"
  by (induction batch arbitrary: b) (auto split: prod.splits if_splits)

lemma publish_calls_all:
  "map fst (publish_calls publish batch b) = batch
   \<or> publish_calls publish batch b \<noteq> [] \<and> transient (snd (last (publish_calls publish batch b)))"
proof (induction batch arbitrary: b)
  case (Cons row rows)
  obtain e b1 where p: "publish (or_record row) b = (e, b1)" by fastforce
  show ?case using Cons.IH [of b1] p by auto
qed simp

lemma distinct_publish_calls:
  assumes "distinct (map or_id batch)"
  shows "distinct (map (or_id \<circ> fst) (publish_calls publish batch b))"
proof -
  have "prefix (map or_id (map fst (publish_calls publish batch b))) (map or_id batch)"
    by (rule map_mono_prefix) (rule publish_calls_prefix)
  then show ?thesis using assms by (auto simp: prefix_def)
qed

text \<open>A publish function that records its calls and their answers.\<close>

definition logged :: "'b publish \<Rightarrow> ((event_record \<times> go_error option) list \<times> 'b) publish" where
  "logged publish rec st =
     (case st of (l, b) \<Rightarrow> case publish rec b of (e, b') \<Rightarrow> (e, (l @ [(rec, e)], b')))"

lemma publish_calls_logged:
  "publish_calls (logged publish) batch (l, b) = publish_calls publish batch b"
  by (induction batch arbitrary: l b) (auto simp: logged_def split: prod.splits)

lemma publishBatch_logged:
  "fst (snd (publishBatch (logged publish) batch (l, b)))
     = l @ map (\<lambda>c. (or_record (fst c), snd c)) (publish_calls publish batch b)"
proof (induction batch arbitrary: l b)
  case (Cons row rows)
  obtain e b1 where p: "publish (or_record row) b = (e, b1)" by fastforce
  show ?case
    using Cons.IH [of "l @ [(or_record row, e)]" b1] p
    by (auto simp: logged_def transient_def split: prod.splits option.splits)
qed simp


section \<open>Settling\<close>

definition dead_row :: "timestamp \<Rightarrow> failed_row \<Rightarrow> outbox_dead_row" where
  "dead_row now f =
     \<lparr>od_id = or_id (f_row f), od_message_id = MessageID (or_record (f_row f)),
      od_event_type = RecType (or_record (f_row f)), od_payload = Payload (or_record (f_row f)),
      od_attempts = wrap32 (or_attempts (f_row f) + 1), od_created_at = or_createdAt (f_row f),
      od_dead_at = now, od_last_error = f_err f\<rparr>"

definition settle_rows ::
  "timestamp \<Rightarrow> int list \<Rightarrow> int list \<Rightarrow> int list \<Rightarrow> outbox_table_row list \<Rightarrow> outbox_table_row list" where
  "settle_rows now sent bump dids ob =
     filter (\<lambda>r. ob_id r \<notin> set dids)
       (map (\<lambda>r. if ob_id r \<in> set bump then bump_row now r else r)
         (filter (\<lambda>r. ob_id r \<notin> set sent) ob))"

definition settled_db ::
  "timestamp \<Rightarrow> int list \<Rightarrow> int list \<Rightarrow> failed_row list \<Rightarrow> database \<Rightarrow> database" where
  "settled_db now sent bump dead db =
     db\<lparr>outbox := settle_rows now sent bump (map (or_id \<circ> f_row) dead) (outbox db),
        outbox_dead := outbox_dead db @ map (dead_row now) dead\<rparr>"

definition can_settle :: "int list \<Rightarrow> int list \<Rightarrow> failed_row list \<Rightarrow> database \<Rightarrow> bool" where
  "can_settle sent bump dead db \<longleftrightarrow>
     (\<forall>r\<in>set (outbox db). ob_id r \<in> set bump \<and> ob_id r \<notin> set sent \<longrightarrow> \<not> bump_fails r)
     \<and> distinct (map (or_id \<circ> f_row) dead)
     \<and> (\<forall>f\<in>set dead. or_id (f_row f) \<notin> od_id ` set (outbox_dead db))"

lemma deleteOutbox_run:
  "script s = [] \<Longrightarrow> deleteOutbox ids s =
     (Inr (), s\<lparr>tables := (tables s)\<lparr>outbox := filter (\<lambda>r. ob_id r \<notin> set ids) (outbox (tables s))\<rparr>\<rparr>)"
  by (cases s) (auto simp: deleteOutbox_def tx_simps queryDeleteOutbox_def)

lemma bumpAttempts_run:
  "script s = [] \<Longrightarrow> bumpAttempts ids s =
     (if \<exists>r\<in>set (outbox (tables s)). ob_id r \<in> set ids \<and> bump_fails r
      then (Inl (errorf_w ''outbox attempts: '' numeric_value_out_of_range), s)
      else (Inr (), s\<lparr>tables := (tables s)\<lparr>outbox :=
        map (\<lambda>r. if ob_id r \<in> set ids then bump_row (clock s) r else r) (outbox (tables s))\<rparr>\<rparr>))"
  by (auto simp: bumpAttempts_def tx_simps queryBumpOutbox_def list_ex_iff)

lemma dead_loop_run:
  "script s = [] \<Longrightarrow> dead_loop ids fs s = (Inr x, t) \<longleftrightarrow>
     distinct (map (or_id \<circ> f_row) fs)
     \<and> (\<forall>f\<in>set fs. or_id (f_row f) \<notin> od_id ` set (outbox_dead (tables s)))
     \<and> x = ids @ map (or_id \<circ> f_row) fs
     \<and> t = s\<lparr>tables := (tables s)\<lparr>outbox_dead := outbox_dead (tables s) @ map (dead_row (clock s)) fs\<rparr>\<rparr>"
proof (induction fs arbitrary: ids s)
  case Nil
  then show ?case by (auto simp: tx_simps)
next
  case (Cons f fs)
  show ?case
  proof (cases "or_id (f_row f) \<in> od_id ` set (outbox_dead (tables s))")
    case True
    then show ?thesis using Cons.prems by (simp add: tx_simps queryDeadOutbox_def Let_def)
  next
    case False
    let ?s = "s\<lparr>tables := (tables s)\<lparr>outbox_dead := outbox_dead (tables s) @ [dead_row (clock s) f]\<rparr>\<rparr>"
    have step: "dead_loop ids (f # fs) s = dead_loop (ids @ [or_id (f_row f)]) fs ?s"
      using Cons.prems False by (simp add: tx_simps queryDeadOutbox_def dead_row_def Let_def)
    have od: "od_id (dead_row (clock s) f) = or_id (f_row f)" by (simp add: dead_row_def)
    have h: "script ?s = []" using Cons.prems by simp
    have fresh: "(\<forall>g\<in>set fs. or_id (f_row g) \<notin> od_id ` set (outbox_dead (tables ?s))) \<longleftrightarrow>
        (\<forall>g\<in>set fs. or_id (f_row g) \<notin> od_id ` set (outbox_dead (tables s)))
        \<and> or_id (f_row f) \<notin> (or_id \<circ> f_row) ` set fs"
      using od by (auto simp: image_iff)
    show ?thesis
      unfolding step Cons.IH [OF h] fresh using False by (auto simp: comp_def)
  qed
qed

lemma settle_run:
  assumes "script s = []"
  shows "settle sent bump dead s = (Inr (), t) \<longleftrightarrow>
    can_settle sent bump dead (tables s)
    \<and> t = s\<lparr>tables := settled_db (clock s) sent bump dead (tables s)\<rparr>"
proof -
  let ?s1 = "s\<lparr>tables := (tables s)\<lparr>outbox := filter (\<lambda>r. ob_id r \<notin> set sent) (outbox (tables s))\<rparr>\<rparr>"
  have bad: "(\<exists>r\<in>set (outbox (tables ?s1)). ob_id r \<in> set bump \<and> bump_fails r) \<longleftrightarrow>
      \<not> (\<forall>r\<in>set (outbox (tables s)). ob_id r \<in> set bump \<and> ob_id r \<notin> set sent \<longrightarrow> \<not> bump_fails r)"
    by auto
  show ?thesis
  proof (cases "\<forall>r\<in>set (outbox (tables s)). ob_id r \<in> set bump \<and> ob_id r \<notin> set sent \<longrightarrow> \<not> bump_fails r")
    case False
    then have "bumpAttempts bump ?s1 = (Inl (errorf_w ''outbox attempts: '' numeric_value_out_of_range), ?s1)"
      using bumpAttempts_run [of ?s1 bump] assms unfolding bad by simp
    then have "settle sent bump dead s \<noteq> (Inr (), t)"
      using assms by (simp add: settle_def tx_bind_def deleteOutbox_run)
    then show ?thesis using False by (simp add: can_settle_def)
  next
    case True
    let ?s2 = "?s1\<lparr>tables := (tables ?s1)\<lparr>outbox :=
        map (\<lambda>r. if ob_id r \<in> set bump then bump_row (clock s) r else r) (outbox (tables ?s1))\<rparr>\<rparr>"
    have "bumpAttempts bump ?s1 = (Inr (), ?s2)"
      using bumpAttempts_run [of ?s1 bump] assms True unfolding bad by simp
    then have "settle sent bump dead s = deadLetter dead ?s2"
      using assms by (simp add: settle_def tx_bind_def deleteOutbox_run)
    moreover obtain d s3 where d: "dead_loop [] dead ?s2 = (d, s3)" by fastforce
    ultimately have eq: "settle sent bump dead s =
        (case d of Inl e \<Rightarrow> (Inl e, s3) | Inr ids \<Rightarrow> deleteOutbox ids s3)"
      by (auto simp: deadLetter_def tx_bind_def split: sum.split)
    have h: "script ?s2 = []" using assms by simp
    show ?thesis
    proof (cases d)
      case (Inl e)
      then have "\<not> can_settle sent bump dead (tables s)"
        using d dead_loop_run [OF h, of "[]" dead] by (auto simp: can_settle_def)
      then show ?thesis using eq Inl by simp
    next
      case (Inr ids)
      then have "can_settle sent bump dead (tables s)" "ids = map (or_id \<circ> f_row) dead"
        and s3: "s3 = ?s2\<lparr>tables := (tables ?s2)\<lparr>outbox_dead := outbox_dead (tables s) @ map (dead_row (clock s)) dead\<rparr>\<rparr>"
        using d dead_loop_run [OF h, of "[]" dead ids s3] True by (simp_all add: can_settle_def)
      then show ?thesis
        using eq Inr assms by (auto simp: deleteOutbox_run settled_db_def settle_rows_def)
    qed
  qed
qed


section \<open>What a round does\<close>

definition due :: "(int \<Rightarrow> bool) \<Rightarrow> int \<Rightarrow> timestamp \<Rightarrow> database \<Rightarrow> outbox_table_row list" where
  "due locked n now db =
     take (nat n) (sort_key ob_id
       (filter (\<lambda>r. ob_next_attempt_at r \<le> now \<and> \<not> locked (ob_id r)) (outbox db)))"

lemma tx_strict_tick: "tx_strict (tx_tick x)"
  by (auto simp: tx_strict_def tx_tick_def next_fault_def split: list.splits fault.splits)

lemma claim_scan_strict: "tx_strict (claim_scan acc rs)"
  by (induction rs arbitrary: acc)
    (auto intro!: tx_strict_bind tx_strict_catch tx_strict_tick)

lemma claim_scan_frame: "tx_frame (claim_scan acc rs)"
  by (induction rs arbitrary: acc) (auto intro!: tx_frame_bind tx_frame_catch)

lemma claim_scan_run: "script s = [] \<Longrightarrow> claim_scan acc rs s = (Inr (acc @ map scanOutbox rs), s)"
  by (induction rs arbitrary: acc) (simp_all add: tx_simps)

lemma claimOutbox_strict: "tx_strict (claimOutbox locked n)"
  unfolding claimOutbox_def by (intro tx_strict_bind tx_strict_catch tx_strict_prims claim_scan_strict) auto

lemma claimOutbox_frame: "tx_frame (claimOutbox locked n)"
  unfolding claimOutbox_def by (intro tx_frame_bind tx_frame_catch tx_frame_prims claim_scan_frame)

lemma claimOutbox_run:
  "script s = [] \<Longrightarrow> claimOutbox locked n s =
     (if n < 0 then (Inl (errorf_w ''outbox claim: '' invalid_row_count_in_limit), s)
      else (Inr (map scanOutbox (due locked n (clock s) (tables s))), s))"
  by (simp add: claimOutbox_def tx_simps queryClaimOutbox_def sql_select_def sql_limit_def due_def
      claim_scan_run)

lemma deleteOutbox_strict: "tx_strict (deleteOutbox ids)" and deleteOutbox_frame: "tx_frame (deleteOutbox ids)"
  unfolding deleteOutbox_def by auto

lemma bumpAttempts_strict: "tx_strict (bumpAttempts ids)" and bumpAttempts_frame: "tx_frame (bumpAttempts ids)"
  unfolding bumpAttempts_def by auto

lemma dead_loop_strict: "tx_strict (dead_loop ids fs)"
  by (induction fs arbitrary: ids) (auto simp: Let_def)

lemma dead_loop_frame: "tx_frame (dead_loop ids fs)"
  by (induction fs arbitrary: ids) (auto simp: Let_def)

lemma settle_strict: "tx_strict (settle sent bump dead)"
  unfolding settle_def deadLetter_def
  by (intro tx_strict_bind deleteOutbox_strict bumpAttempts_strict dead_loop_strict)

lemma settle_frame: "tx_frame (settle sent bump dead)"
  unfolding settle_def deadLetter_def
  by (intro tx_frame_bind deleteOutbox_frame bumpAttempts_frame dead_loop_frame)

lemma claimOutbox_ok:
  assumes "claimOutbox locked n s = (Inr batch, s')"
  shows "0 \<le> n" "batch = map scanOutbox (due locked n (clock s) (tables s))" "tables s' = tables s"
    "clock s' = clock s" "suffix (script s') (script s)"
proof -
  have "claimOutbox locked n (s\<lparr>script := []\<rparr>) = (Inr batch, s'\<lparr>script := []\<rparr>)"
    using claimOutbox_strict assms unfolding tx_strict_def by blast
  then have "0 \<le> n \<and> batch = map scanOutbox (due locked n (clock s) (tables s)) \<and> s'\<lparr>script := []\<rparr> = s\<lparr>script := []\<rparr>"
    by (auto simp: claimOutbox_run split: if_splits)
  then show "0 \<le> n" "batch = map scanOutbox (due locked n (clock s) (tables s))" "tables s' = tables s"
    by (auto dest!: arg_cong [where f = tables])
  show "clock s' = clock s" "suffix (script s') (script s)"
    using tx_frameD [OF claimOutbox_frame assms] by auto
qed

lemma settle_ok:
  assumes "settle sent bump dead s = (Inr u, s')"
  shows "can_settle sent bump dead (tables s)"
    "tables s' = settled_db (clock s) sent bump dead (tables s)" "suffix (script s') (script s)"
proof -
  have "settle sent bump dead (s\<lparr>script := []\<rparr>) = (Inr (), s'\<lparr>script := []\<rparr>)"
    using settle_strict assms unfolding tx_strict_def by (metis (full_types) old.unit.exhaust)
  then have r: "can_settle sent bump dead (tables s) \<and> s'\<lparr>script := []\<rparr>
      = s\<lparr>script := [], tables := settled_db (clock s) sent bump dead (tables s)\<rparr>"
    by (simp add: settle_run)
  then show "can_settle sent bump dead (tables s)"
    "tables s' = settled_db (clock s) sent bump dead (tables s)"
    by (auto dest!: arg_cong [where f = tables])
  show "suffix (script s') (script s)" using tx_frameD [OF settle_frame assms] by auto
qed

text \<open>A round draws no identity value, so that rolling it back restores the tables exactly.\<close>

definition keeps_seq :: "database \<Rightarrow> database \<Rightarrow> bool" where
  "keeps_seq a b \<longleftrightarrow> outbox_seq b = outbox_seq a"

interpretation seq_rel: table_relation keeps_seq
  by unfold_locales (auto simp: keeps_seq_def)

lemma drain_sql_keeps_seq:
  "sql_rel keeps_seq (queryDeleteOutbox ids)" "sql_rel keeps_seq (queryBumpOutbox ids)"
  "sql_rel keeps_seq (queryDeadOutbox i mid t pl att cr err)" "sql_rel keeps_seq (queryClaimOutbox lk n)"
  by (auto simp: sql_rel_def keeps_seq_def sql_defs Let_def split: if_splits sum.splits)

lemma claim_scan_keeps_seq: "tx_rel keeps_seq (claim_scan acc rs)"
  by (induction rs arbitrary: acc) (auto intro!: seq_rel.rel_intros)

lemma dead_loop_keeps_seq: "tx_rel keeps_seq (dead_loop ids fs)"
  by (induction fs arbitrary: ids) (auto simp: Let_def intro!: seq_rel.rel_intros drain_sql_keeps_seq)

lemma claimOutbox_keeps_seq: "tx_rel keeps_seq (claimOutbox locked n)"
  unfolding claimOutbox_def
  by (intro seq_rel.rel_intros drain_sql_keeps_seq claim_scan_keeps_seq)

lemma settle_keeps_seq: "tx_rel keeps_seq (settle sent bump dead)"
  unfolding settle_def deadLetter_def deleteOutbox_def bumpAttempts_def
  by (auto intro!: seq_rel.rel_intros drain_sql_keeps_seq dead_loop_keeps_seq)

lemma keeps_seqD: "tx_rel keeps_seq f \<Longrightarrow> f s = (r, s') \<Longrightarrow> outbox_seq (tables s') = outbox_seq (tables s)"
  unfolding tx_rel_def keeps_seq_def by (metis snd_conv)

lemma tx_rollback_keeps_seq:
  "outbox_seq (tables s') = outbox_seq (tables s) \<Longrightarrow> tables (tx_rollback s s') = tables s"
  by (simp add: tx_rollback_def)

text \<open>
  Whatever the faults, a round either leaves the tables as they were, or settles the whole of its
  batch.
\<close>

lemma drain_cases:
  assumes run: "DrainBatch locked n m publish b s = (res, b', s')"
  obtains (nothing) "tables s' = tables s"
  | (settled) sent failed bump dead tr where
      "publishBatch publish (map scanOutbox (due locked n (clock s) (tables s))) b = ((sent, failed), b')"
      "classifyFailures failed m = (bump, dead, tr)"
      "can_settle sent bump dead (tables s)"
      "tables s' = settled_db (clock s) sent bump dead (tables s)"
      "snd (snd res) = tr \<or> (\<exists>e. AckLost e \<in> set (script s))"
proof -
  obtain f1 s1 where f1: "tx_begin s = (f1, s1)" by fastforce
  have s1: "tables s1 = tables s" "clock s1 = clock s" "suffix (script s1) (script s)"
    using f1 tx_frameD [OF tx_frame_prims(3) f1 [unfolded tx_begin_def]]
    by (auto simp: tx_begin_def tx_tick_def next_fault_def split: list.splits fault.splits)
  obtain c s2 where c: "claimOutbox locked n s1 = (c, s2)" by fastforce
  show thesis
  proof (cases "is_ok f1 \<and> (\<exists>batch. c = Inr batch \<and> batch \<noteq> [])")
    case False
    then have "tables s' = tables s"
      using run f1 c s1(1) keeps_seqD [OF claimOutbox_keeps_seq c] unfolding DrainBatch_def
      by (cases f1; cases c) (auto simp: tx_rollback_keeps_seq split: if_splits)
    then show thesis by (rule nothing)
  next
    case True
    then obtain batch where batch: "c = Inr batch" "batch \<noteq> []" "f1 = Inr ()"
      by (cases f1) auto
    note ok = claimOutbox_ok [OF c [unfolded batch(1)]]
    obtain sent failed b1 where p: "publishBatch publish batch b = ((sent, failed), b1)"
      by (metis prod.exhaust)
    obtain bump dead tr where k: "classifyFailures failed m = (bump, dead, tr)" by (metis prod.exhaust)
    obtain d s3 where d: "settle sent bump dead s2 = (d, s3)" by fastforce
    obtain f4 s4 where f4: "next_fault s3 = (f4, s4)" by fastforce
    note n4 = next_fault_frame [OF f4]
    show thesis
    proof (cases "is_ok d \<and> (\<forall>e. f4 \<noteq> Failed e)")
      case False
      then have "tables s' = tables s"
        using run f1 c s1(1) batch p k d f4 n4 ok(3) keeps_seqD [OF settle_keeps_seq d]
        unfolding DrainBatch_def
        by (cases d; cases f4)
          (auto simp: tx_rollback_keeps_seq tx_commit_def Let_def split: if_splits)
      then show thesis by (rule nothing)
    next
      case True
      then obtain u where u: "d = Inr u" by (cases d) auto
      note st = settle_ok [OF d [unfolded u]]
      have b': "b' = b1" and t: "tables s' = tables s3"
        and r: "snd (snd res) = tr \<or> (\<exists>e. f4 = AckLost e)"
        using run f1 c batch p k d u f4 n4 True unfolding DrainBatch_def
        by (cases f4; auto simp: tx_commit_def Let_def)+
      have "set (script s3) \<subseteq> set (script s)"
        using st(3) ok(5) s1(3) by (meson dual_order.trans set_mono_suffix)
      then have "snd (snd res) = tr \<or> (\<exists>e. AckLost e \<in> set (script s))"
        using r n4 by auto
      then show thesis
        using settled [OF _ k] p ok st t b' s1 by auto
    qed
  qed
qed


section \<open>Row by row\<close>

text \<open>The answers of a round by row id, and what one row becomes under its answer.\<close>

definition round_calls ::
  "(int \<Rightarrow> bool) \<Rightarrow> int \<Rightarrow> 'b publish \<Rightarrow> 'b \<Rightarrow> conn \<Rightarrow> (outbox_row \<times> go_error option) list" where
  "round_calls locked n publish b s =
     publish_calls publish (map scanOutbox (due locked n (clock s) (tables s))) b"

definition round_answer ::
  "(int \<Rightarrow> bool) \<Rightarrow> int \<Rightarrow> 'b publish \<Rightarrow> 'b \<Rightarrow> conn \<Rightarrow> int \<Rightarrow> go_error option option" where
  "round_answer locked n publish b s =
     map_of (map (\<lambda>c. (or_id (fst c), snd c)) (round_calls locked n publish b s))"

definition after_round ::
  "int \<Rightarrow> timestamp \<Rightarrow> go_error option option \<Rightarrow> outbox_table_row \<Rightarrow> outbox_table_row option" where
  "after_round m now answer r =
     (case answer of
        None \<Rightarrow> Some r
      | Some None \<Rightarrow> None
      | Some (Some e) \<Rightarrow>
          if \<not> errors_is e ErrUndeliverable then Some r
          else if ob_attempts r + 1 \<ge> m then None
          else Some (bump_row now r))"

lemma set_due: "set (due locked n now db) \<subseteq> set (outbox db)"
  using set_take_subset by (fastforce simp: due_def)

lemma outbox_id_eq:
  "db_wf db \<Longrightarrow> r \<in> set (outbox db) \<Longrightarrow> r' \<in> set (outbox db) \<Longrightarrow> ob_id r = ob_id r' \<longleftrightarrow> r = r'"
  by (auto simp: schema_defs distinct_map inj_on_def)

lemma sort_key_distinct: "distinct (map f xs) \<Longrightarrow> distinct (map f (sort_key g xs))"
  by (metis distinct_map distinct_sort set_sort)

lemma due_distinct: "db_wf db \<Longrightarrow> distinct (map ob_id (due locked n now db))"
  unfolding due_def take_map [symmetric]
  by (intro distinct_take sort_key_distinct distinct_map_filter) (simp add: schema_defs)

lemma round_calls_rows:
  assumes "c \<in> set (round_calls locked n publish b s)"
  obtains r where "r \<in> set (outbox (tables s))" "fst c = scanOutbox r"
  using publish_calls_subset [OF assms [unfolded round_calls_def]] set_due by fastforce

lemma round_calls_distinct:
  assumes "db_wf (tables s)"
  shows "distinct (map (or_id \<circ> fst) (round_calls locked n publish b s))"
  unfolding round_calls_def
  by (rule distinct_publish_calls)
    (use due_distinct [OF assms] in \<open>simp add: comp_def scanOutbox_def\<close>)

lemma or_id_scanOutbox [simp]: "or_id (scanOutbox r) = ob_id r" "or_attempts (scanOutbox r) = ob_attempts r"
  by (simp_all add: scanOutbox_def)

lemma round_answer_iff:
  assumes "db_wf (tables s)" "r \<in> set (outbox (tables s))"
  shows "round_answer locked n publish b s (ob_id r) = Some e
    \<longleftrightarrow> (scanOutbox r, e) \<in> set (round_calls locked n publish b s)"
proof -
  let ?cs = "round_calls locked n publish b s"
  have d: "distinct (map fst (map (\<lambda>c. (or_id (fst c), snd c)) ?cs))"
    using round_calls_distinct [OF assms(1)] by (simp add: comp_def)
  have "(ob_id r, e) \<in> set (map (\<lambda>c. (or_id (fst c), snd c)) ?cs) \<longleftrightarrow> (scanOutbox r, e) \<in> set ?cs"
  proof
    assume "(ob_id r, e) \<in> set (map (\<lambda>c. (or_id (fst c), snd c)) ?cs)"
    then obtain c where c: "c \<in> set ?cs" "or_id (fst c) = ob_id r" "snd c = e" by auto
    obtain r' where r': "r' \<in> set (outbox (tables s))" "fst c = scanOutbox r'"
      using c(1) by (rule round_calls_rows)
    then have "r' = r" using outbox_id_eq [OF assms(1) r'(1) assms(2)] c(2) by simp
    then show "(scanOutbox r, e) \<in> set ?cs" using c r' by (metis prod.collapse)
  qed (auto simp: rev_image_eqI)
  then show ?thesis
    using map_of_eq_Some_iff [OF d] by (simp add: round_answer_def)
qed

lemma settle_rows_map_filter:
  "settle_rows now sent bump dids ob = List.map_filter
     (\<lambda>r. if ob_id r \<in> set sent \<or> ob_id r \<in> set dids then None
          else Some (if ob_id r \<in> set bump then bump_row now r else r)) ob"
  by (induction ob) (auto simp: settle_rows_def List.map_filter_def)

text \<open>The lists the round computes, in terms of the answers.\<close>

definition round_dead :: "int \<Rightarrow> (outbox_row \<times> go_error option) list \<Rightarrow> failed_row list" where
  "round_dead m calls =
     map (\<lambda>c. \<lparr>f_row = fst c, f_err = the (snd c)\<rparr>)
       (filter (\<lambda>c. snd c \<noteq> None \<and> errors_is (the (snd c)) ErrUndeliverable
                  \<and> or_attempts (fst c) + 1 \<ge> m) calls)"

lemma round_lists:
  assumes "publishBatch publish (map scanOutbox (due locked n (clock s) (tables s))) b = ((sent, failed), b')"
    and "classifyFailures failed m = (bump, dead, tr)"
  defines "calls \<equiv> round_calls locked n publish b s"
  shows "sent = map (or_id \<circ> fst) (filter (\<lambda>c. snd c = None) calls)"
    and "bump = map (or_id \<circ> fst) (filter (\<lambda>c. snd c \<noteq> None \<and> errors_is (the (snd c)) ErrUndeliverable
          \<and> or_attempts (fst c) + 1 < m) calls)"
    and "dead = round_dead m calls"
    and "tr = (case filter (\<lambda>c. transient (snd c)) calls of [] \<Rightarrow> None | c # cs \<Rightarrow> snd (last (c # cs)))"
proof -
  have pb: "sent = map (or_id \<circ> fst) (filter (\<lambda>c. snd c = None) calls)"
    "failed = map (\<lambda>c. \<lparr>f_row = fst c, f_err = the (snd c)\<rparr>) (filter (\<lambda>c. snd c \<noteq> None) calls)"
    using assms(1) publishBatch_calls [of publish "map scanOutbox (due locked n (clock s) (tables s))" b]
    by (simp_all add: calls_def round_calls_def)
  then show "sent = map (or_id \<circ> fst) (filter (\<lambda>c. snd c = None) calls)" by simp
  note eq = assms(2) [unfolded classifyFailures_def classify_loop_eq]
  show "bump = map (or_id \<circ> fst) (filter (\<lambda>c. snd c \<noteq> None \<and> errors_is (the (snd c)) ErrUndeliverable
          \<and> or_attempts (fst c) + 1 < m) calls)"
    using eq unfolding pb(2) by (auto simp: filter_map comp_def conj_ac)
  show "dead = round_dead m calls"
    using eq unfolding pb(2) by (auto simp: filter_map comp_def round_dead_def conj_ac)
  have "transient (snd c) \<longleftrightarrow> \<not> errors_is (the (snd c)) ErrUndeliverable \<and> snd c \<noteq> None" for c :: "outbox_row \<times> go_error option"
    by (cases "snd c") (auto simp: transient_def)
  then have fl: "filter (\<lambda>f. \<not> errors_is (f_err f) ErrUndeliverable) failed
      = map (\<lambda>c. \<lparr>f_row = fst c, f_err = the (snd c)\<rparr>) (filter (\<lambda>c. transient (snd c)) calls)"
    unfolding pb(2) by (simp add: filter_map comp_def conj_commute)
  show "tr = (case filter (\<lambda>c. transient (snd c)) calls of [] \<Rightarrow> None | c # cs \<Rightarrow> snd (last (c # cs)))"
  proof (cases "filter (\<lambda>c. transient (snd c)) calls")
    case Nil
    then show ?thesis using eq by (simp add: fl)
  next
    case (Cons c cs)
    have "last (c # cs) \<in> set (filter (\<lambda>c. transient (snd c)) calls)" unfolding Cons by simp
    then have "snd (last (c # cs)) = Some (the (snd (last (c # cs))))"
      by (auto simp: transient_def split: option.splits)
    then show ?thesis
      using eq Cons by (simp only: fl list.map list.case) (simp add: last_map split: if_splits)
  qed
qed


lemma map_filter_cong_set:
  "(\<And>x. x \<in> set xs \<Longrightarrow> f x = g x) \<Longrightarrow> List.map_filter f xs = List.map_filter g xs"
  by (induction xs) (auto split: option.split)

lemma round_membership:
  assumes "db_wf (tables s)" "r \<in> set (outbox (tables s))"
  shows "ob_id r \<in> set (map (or_id \<circ> fst) (filter P (round_calls locked n publish b s))) \<longleftrightarrow>
    (\<exists>e. round_answer locked n publish b s (ob_id r) = Some e \<and> P (scanOutbox r, e))"
proof
  assume "ob_id r \<in> set (map (or_id \<circ> fst) (filter P (round_calls locked n publish b s)))"
  then obtain c where c: "c \<in> set (round_calls locked n publish b s)" "P c" "or_id (fst c) = ob_id r" by auto
  obtain r' where r': "r' \<in> set (outbox (tables s))" "fst c = scanOutbox r'"
    using c(1) by (rule round_calls_rows)
  then have "fst c = scanOutbox r" using outbox_id_eq [OF assms(1) r'(1) assms(2)] c(3) by simp
  then show "\<exists>e. round_answer locked n publish b s (ob_id r) = Some e \<and> P (scanOutbox r, e)"
    using c(1,2) unfolding round_answer_iff [OF assms(1,2)] by (metis prod.collapse)
next
  assume "\<exists>e. round_answer locked n publish b s (ob_id r) = Some e \<and> P (scanOutbox r, e)"
  then show "ob_id r \<in> set (map (or_id \<circ> fst) (filter P (round_calls locked n publish b s)))"
    unfolding round_answer_iff [OF assms(1,2)] by force
qed

lemma settled_outbox_rows:
  assumes wf: "db_wf (tables s)"
    and pb: "publishBatch publish (map scanOutbox (due locked n (clock s) (tables s))) b = ((sent, failed), b')"
    and cl: "classifyFailures failed m = (bump, dead, tr)"
  shows "settle_rows now sent bump (map (or_id \<circ> f_row) dead) (outbox (tables s)) =
    List.map_filter (\<lambda>r. after_round m now (round_answer locked n publish b s (ob_id r)) r) (outbox (tables s))"
proof -
  note L = round_lists [OF pb cl]
  let ?ans = "round_answer locked n publish b s"
  have dids: "map (or_id \<circ> f_row) dead = map (or_id \<circ> fst) (filter (\<lambda>c. snd c \<noteq> None
      \<and> errors_is (the (snd c)) ErrUndeliverable \<and> or_attempts (fst c) + 1 \<ge> m) (round_calls locked n publish b s))"
    unfolding L(3) by (simp add: round_dead_def comp_def)
  show ?thesis
    unfolding settle_rows_map_filter dids L(1,2)
    by (rule map_filter_cong_set)
      (auto simp: round_membership [OF wf] after_round_def simp del: set_map
        split: option.split)
qed


section \<open>Integrity and the bound on attempts\<close>

lemma round_deadD:
  assumes "f \<in> set (round_dead m (round_calls locked n publish b s))"
  obtains r e where "r \<in> set (outbox (tables s))" "f = \<lparr>f_row = scanOutbox r, f_err = e\<rparr>"
    "(scanOutbox r, Some e) \<in> set (round_calls locked n publish b s)" "errors_is e ErrUndeliverable"
    "ob_attempts r + 1 \<ge> m"
proof -
  obtain c where c: "c \<in> set (round_calls locked n publish b s)" "snd c \<noteq> None"
    "errors_is (the (snd c)) ErrUndeliverable" "or_attempts (fst c) + 1 \<ge> m"
    "f = \<lparr>f_row = fst c, f_err = the (snd c)\<rparr>"
    using assms by (auto simp: round_dead_def)
  obtain r where r: "r \<in> set (outbox (tables s))" "fst c = scanOutbox r"
    using c(1) by (rule round_calls_rows)
  show thesis
    by (rule that [OF r(1), of "the (snd c)"]) (use c r in \<open>auto, metis prod.collapse\<close>)
qed

lemma round_dead_distinct:
  assumes "db_wf (tables s)"
  shows "distinct (map (or_id \<circ> f_row) (round_dead m (round_calls locked n publish b s)))"
proof -
  have "map (or_id \<circ> f_row) (round_dead m cs) = map (or_id \<circ> fst) (filter (\<lambda>c. snd c \<noteq> None
      \<and> errors_is (the (snd c)) ErrUndeliverable \<and> or_attempts (fst c) + 1 \<ge> m) cs)" for cs
    by (simp add: round_dead_def comp_def)
  then show ?thesis using distinct_map_filter [OF round_calls_distinct [OF assms]] by simp
qed

lemma after_round_Some:
  "after_round m now ans r = Some r' \<Longrightarrow> r' = r \<or> r' = bump_row now r \<and> ob_attempts r + 1 < m"
  by (auto simp: after_round_def split: option.splits if_splits)

lemma set_map_filter: "set (List.map_filter f xs) = {y. \<exists>x\<in>set xs. f x = Some y}"
  by (induction xs) (auto split: option.split)

lemma map_filter_sublist_keys:
  assumes "\<And>x y. f x = Some y \<Longrightarrow> key y = key x" "distinct (map key xs)"
  shows "distinct (map key (List.map_filter f xs))"
  using assms(2)
proof (induction xs)
  case (Cons x xs)
  then show ?case
    by (auto simp: set_map_filter split: option.split dest!: assms(1)) (metis image_eqI)
qed simp

lemma settled_db_wf:
  fixes s :: conn
  assumes wf: "db_wf (tables s)"
    and pb: "publishBatch publish (map scanOutbox (due locked n (clock s) (tables s))) b = ((sent, failed), b')"
    and cl: "classifyFailures failed m = (bump, dead, tr)"
    and ok: "can_settle sent bump dead (tables s)"
  shows "db_wf (settled_db now sent bump dead (tables s))"
proof -
  let ?f = "\<lambda>r. after_round m now (round_answer locked n publish b s (ob_id r)) r"
  let ?ob = "List.map_filter ?f (outbox (tables s))"
  have w: "outbox_wf (outbox_seq (tables s)) (outbox (tables s)) (outbox_dead (tables s))"
    using wf by (simp add: db_wf_def)
  have ids: "ob_id r' = ob_id r" "ob_attempts r \<le> ob_attempts r'" if "?f r = Some r'" for r r'
    using after_round_Some [OF that] by (auto simp: bump_row_def)
  have dead: "dead = round_dead m (round_calls locked n publish b s)"
    by (rule round_lists [OF pb cl])
  have gone: "\<exists>e. round_answer locked n publish b s (ob_id r) = Some (Some e) \<and> ?f r = None"
    if f: "f \<in> set dead" and r: "r \<in> set (outbox (tables s))" "ob_id r = or_id (f_row f)" for f r
  proof -
    obtain r2 e where r2: "r2 \<in> set (outbox (tables s))" "f = \<lparr>f_row = scanOutbox r2, f_err = e\<rparr>"
      "(scanOutbox r2, Some e) \<in> set (round_calls locked n publish b s)" "errors_is e ErrUndeliverable"
      "ob_attempts r2 + 1 \<ge> m"
      using f unfolding dead by (rule round_deadD)
    have "ob_id r2 = ob_id r" using r(2) r2(2) by simp
    then have "r2 = r" using outbox_id_eq [OF wf r2(1) r(1)] by blast
    then have "round_answer locked n publish b s (ob_id r) = Some (Some e)"
      using r2 round_answer_iff [OF wf r(1), of locked n publish b "Some e"] by blast
    then show ?thesis using r2(4,5) \<open>r2 = r\<close> by (simp add: after_round_def)
  qed
  have od [simp]: "od_id (dead_row now f) = or_id (f_row f)" for f by (simp add: dead_row_def)
  have dlt: "or_id (f_row f) < outbox_seq (tables s)" if "f \<in> set dead" for f
    using that w unfolding dead by (elim round_deadD) (auto simp: outbox_wf_def)
  have disj: "ob_id r' \<noteq> or_id (f_row f)" if r': "r' \<in> set ?ob" and f: "f \<in> set dead" for r' f
  proof
    assume eq: "ob_id r' = or_id (f_row f)"
    obtain r where r: "r \<in> set (outbox (tables s))" "?f r = Some r'" using r' by (auto simp: set_map_filter)
    then show False using gone [OF f r(1)] ids [OF r(2)] eq by auto
  qed
  have "outbox_wf (outbox_seq (tables s)) ?ob (outbox_dead (tables s) @ map (dead_row now) dead)"
    unfolding outbox_wf_def
  proof (intro conjI)
    show "distinct (map ob_id ?ob)"
      using w by (intro map_filter_sublist_keys) (auto simp: outbox_wf_def dest: ids)
    show "\<forall>r\<in>set ?ob. 0 \<le> ob_attempts r \<and> ob_id r < outbox_seq (tables s)"
      using w ids unfolding set_map_filter outbox_wf_def by fastforce
    show "distinct (map od_id (outbox_dead (tables s) @ map (dead_row now) dead))"
      using w ok by (auto simp: outbox_wf_def can_settle_def comp_def) (metis image_eqI)
    show "\<forall>r\<in>set (outbox_dead (tables s) @ map (dead_row now) dead). od_id r < outbox_seq (tables s)"
      using w dlt by (auto simp: outbox_wf_def)
    show "\<forall>r\<in>set ?ob. \<forall>d\<in>set (outbox_dead (tables s) @ map (dead_row now) dead). ob_id r \<noteq> od_id d"
    proof (intro ballI)
      fix r' d
      assume r': "r' \<in> set ?ob" and d: "d \<in> set (outbox_dead (tables s) @ map (dead_row now) dead)"
      obtain r where "r \<in> set (outbox (tables s))" "ob_id r' = ob_id r"
        using r' ids by (auto simp: set_map_filter)
      then show "ob_id r' \<noteq> od_id d"
        using d w disj [OF r'] by (auto simp: outbox_wf_def) blast
    qed
  qed
  then show ?thesis
    using wf settled_outbox_rows [OF wf pb cl] by (simp add: db_wf_def settled_db_def)
qed


lemma drain_keeps_attempts:
  assumes run: "DrainBatch locked n m publish b s = (res, b', s')"
    and wf: "db_wf (tables s)" and att: "\<forall>r\<in>set (outbox (tables s)). ob_attempts r < m"
  shows "db_wf (tables s')
    \<and> (\<forall>r\<in>set (outbox (tables s')). ob_attempts r < m)"
  using run
proof (cases rule: drain_cases)
  case nothing
  then show ?thesis
    using att wf by simp
next
  case (settled sent failed bump dead tr)
  have "ob_attempts r' < m" if r': "r' \<in> set (outbox (tables s'))" for r'
  proof -
    obtain r ans where r: "r \<in> set (outbox (tables s))" "after_round m (clock s) ans r = Some r'"
      using r' settled_outbox_rows [OF wf settled(1,2)]
      by (auto simp: settled(4) settled_db_def set_map_filter)
    then show ?thesis
      using att after_round_Some [OF r(2)] by (auto simp: bump_row_def)
  qed
  then show ?thesis using settled_db_wf [OF wf settled(1-3)] settled(4) by simp
qed

text \<open>
  A relay round keeps the integrity of the tables (ids unique, no row both pending and
  dead-lettered), whatever the faults and the broker's answers, and no pending row ever
  reaches the configured number of attempts: the attempt that would is the one that
  dead-letters it.
\<close>

theorem drain_invariant:
  assumes run: "DrainBatch locked n m publish b s = (res, b', s')"
    and wf: "db_wf (tables s)" and att: "\<forall>r\<in>set (outbox (tables s)). ob_attempts r < m"
  shows "db_wf (tables s')
    \<and> (\<forall>r\<in>set (outbox (tables s')). ob_attempts r < m)"
  using drain_keeps_attempts [OF assms] .


definition sample_pending :: "int \<Rightarrow> string \<Rightarrow> int \<Rightarrow> outbox_table_row" where
  "sample_pending i t att = \<lparr>ob_id = i, ob_message_id = word_of_int (100 + i), ob_event_type = t,
     ob_payload = JNull, ob_attempts = att, ob_next_attempt_at = 0, ob_created_at = 0\<rparr>"

definition sample_outbox :: database where
  "sample_outbox = empty_database\<lparr>outbox := [sample_pending 1 TypeCreated 0, sample_pending 2 TypeDeleted 4,
     sample_pending 3 TypeUpdated 0], outbox_seq := 4\<rparr>"

text \<open>A broker that takes every event but deletions, and keeps what it took.\<close>

definition sample_publish :: "event_record list publish" where
  "sample_publish rec b = (if RecType rec = TypeDeleted then (Some ErrUndeliverable, b) else (None, b @ [rec]))"

lemma sample_outbox_wf:
  "db_wf sample_outbox" "\<forall>r\<in>set (outbox sample_outbox). ob_attempts r < 5"
  by (simp_all add: schema_defs sample_outbox_def empty_database_def sample_pending_def)

theorem drain_invariant_witness:
  "db_wf (tables (snd (snd (DrainBatch (\<lambda>_. False) 10 5 sample_publish [] (healthy sample_outbox)))))"
  using drain_invariant [of "\<lambda>_. False" 10 5 sample_publish "[]" "healthy sample_outbox"] sample_outbox_wf
  by (simp add: healthy_def) (metis prod.collapse)

section \<open>No event is lost\<close>

lemma drain_event_kept:
  assumes run: "DrainBatch locked n m (logged publish) (l, b) s = (res, (calls, b'), s')"
    and wf: "db_wf (tables s)" and r: "r \<in> set (outbox (tables s))"
  shows "(\<exists>r'\<in>set (outbox (tables s')). ob_id r' = ob_id r \<and> scanOutbox r' = (scanOutbox r)\<lparr>or_attempts := ob_attempts r'\<rparr>)
    \<or> (or_record (scanOutbox r), None) \<in> set calls
    \<or> (\<exists>d\<in>set (outbox_dead (tables s')). \<exists>e. od_id d = ob_id r \<and> od_message_id d = ob_message_id r
         \<and> od_event_type d = ob_event_type r \<and> od_payload d = ob_payload r \<and> od_last_error d = e
         \<and> (or_record (scanOutbox r), Some e) \<in> set calls \<and> errors_is e ErrUndeliverable
         \<and> ob_attempts r + 1 \<ge> m)"
  using run
proof (cases rule: drain_cases)
  case nothing
  then show ?thesis using r by (intro disjI1) (auto simp: scanOutbox_def)
next
  case (settled sent failed bump dead tr)
  let ?cs = "round_calls locked n (logged publish) (l, b) s"
  have log: "calls = l @ map (\<lambda>c. (or_record (fst c), snd c)) ?cs"
    using publishBatch_logged [of publish "map scanOutbox (due locked n (clock s) (tables s))" l b]
      settled(1) by (simp add: round_calls_def publish_calls_logged)
  have called: "(or_record (scanOutbox r), e) \<in> set calls"
    if "round_answer locked n (logged publish) (l, b) s (ob_id r) = Some e" for e
    using that unfolding round_answer_iff [OF wf r] log by force
  let ?ans = "round_answer locked n (logged publish) (l, b) s (ob_id r)"
  show ?thesis
  proof (cases "after_round m (clock s) ?ans r")
    case (Some r')
    have "r' \<in> set (outbox (tables s'))"
      using Some r settled_outbox_rows [OF wf settled(1,2)]
      by (auto simp: settled(4) settled_db_def set_map_filter)
    then show ?thesis
      using after_round_Some [OF Some]
      by (intro disjI1 bexI [of _ r']) (auto simp: scanOutbox_def bump_row_def)
  next
    case None
    then consider "?ans = Some None"
      | e where "?ans = Some (Some e)" "errors_is e ErrUndeliverable" "ob_attempts r + 1 \<ge> m"
      by (auto simp: after_round_def split: option.splits if_splits)
    then show ?thesis
    proof cases
      case 1
      then show ?thesis using called by blast
    next
      case (2 e)
      let ?f = "\<lparr>f_row = scanOutbox r, f_err = e\<rparr>"
      have "?f \<in> set dead"
        using 2 round_answer_iff [OF wf r, of locked n "logged publish" "(l, b)" "Some e"]
        unfolding round_lists(3) [OF settled(1,2)] round_dead_def by force
      then have "dead_row (clock s) ?f \<in> set (outbox_dead (tables s'))"
        by (simp add: settled(4) settled_db_def)
      then show ?thesis
        using called [OF 2(1)] 2(2,3)
        by (intro disjI2 bexI [of _ "dead_row (clock s) ?f"] exI [of _ e])
          (simp_all add: dead_row_def scanOutbox_def)
    qed
  qed
qed

text \<open>The record of the calls only grows, and a round touches only the outbox's two tables.\<close>

lemma drain_calls_prefix:
  assumes "DrainBatch locked n m (logged publish) (l, b) s = (res, (calls, b'), s')"
  shows "prefix l calls"
proof -
  have pre: "prefix l l'" if "publishBatch (logged publish) batch (l, b) = (x, l', y)" for batch x l' y
    using publishBatch_logged [of publish batch l b] that by simp
  show ?thesis
    using assms unfolding DrainBatch_def Let_def
    by (auto split: prod.splits sum.splits if_splits dest!: pre)
qed

lemma drain_tables:
  assumes "DrainBatch locked n m publish b s = (res, b', s')" "db_wf (tables s)"
  shows "db_wf (tables s') \<and> products (tables s') = products (tables s) \<and> orders (tables s') = orders (tables s)
    \<and> idempotency_keys (tables s') = idempotency_keys (tables s) \<and> outbox_seq (tables s') = outbox_seq (tables s)
    \<and> set (outbox_dead (tables s)) \<subseteq> set (outbox_dead (tables s'))"
  using assms(1)
proof (cases rule: drain_cases)
  case nothing
  then show ?thesis using assms(2) by simp
next
  case (settled sent failed bump dead tr)
  then show ?thesis using settled_db_wf [OF assms(2) settled(1-3)] by (simp add: settled_db_def)
qed

text \<open>
  C12: no queued event is lost. After a round, under any faults of the database and any answers of
  the broker, every event that was pending is still pending with its id, type and payload, or the
  broker took it, or it has been moved to the dead letters with the error of its last attempt,
  and only after the broker refused it for good on its last permitted attempt. \<open>logged\<close> records the
  calls to the broker and their answers.
\<close>

theorem drain_no_event_lost:
  assumes run: "DrainBatch locked n m (logged publish) ([], b) s = (res, (calls, b'), s')"
    and wf: "db_wf (tables s)" and r: "r \<in> set (outbox (tables s))"
  shows "(\<exists>r'\<in>set (outbox (tables s')). ob_id r' = ob_id r \<and> scanOutbox r' = (scanOutbox r)\<lparr>or_attempts := ob_attempts r'\<rparr>)
    \<or> (or_record (scanOutbox r), None) \<in> set calls
    \<or> (\<exists>d\<in>set (outbox_dead (tables s')). \<exists>e. od_id d = ob_id r \<and> od_message_id d = ob_message_id r
         \<and> od_event_type d = ob_event_type r \<and> od_payload d = ob_payload r \<and> od_last_error d = e
         \<and> (or_record (scanOutbox r), Some e) \<in> set calls \<and> errors_is e ErrUndeliverable
         \<and> ob_attempts r + 1 \<ge> m)"
  using drain_event_kept [OF assms] .

definition sample_run where
  "sample_run = DrainBatch (\<lambda>_. False) 10 5 (logged sample_publish) ([], []) (healthy sample_outbox)"

lemma sample_run_parts:
  "DrainBatch (\<lambda>_. False) 10 5 (logged sample_publish) ([], []) (healthy sample_outbox)
     = (fst sample_run, (fst (fst (snd sample_run)), snd (fst (snd sample_run))), snd (snd sample_run))"
  by (simp add: sample_run_def)

theorem drain_no_event_lost_witness:
  "(\<exists>r'\<in>set (outbox (tables (snd (snd sample_run)))). ob_id r' = 2)
   \<or> (or_record (scanOutbox (sample_pending 2 TypeDeleted 4)), None) \<in> set (fst (fst (snd sample_run)))
   \<or> (\<exists>d\<in>set (outbox_dead (tables (snd (snd sample_run)))). od_id d = 2)"
proof -
  have "sample_pending 2 TypeDeleted 4 \<in> set (outbox (tables (healthy sample_outbox)))"
    "db_wf (tables (healthy sample_outbox))"
    by (simp_all add: healthy_def sample_outbox_wf) (simp add: sample_outbox_def)
  from drain_no_event_lost [OF sample_run_parts this(2,1)] show ?thesis
    by (auto simp: sample_pending_def)
qed

section \<open>The order of publication\<close>

lemma drain_broker:
  assumes "DrainBatch locked n m publish b s = (res, b', s')"
  shows "b' = b \<or> b' = snd (publishBatch publish (map scanOutbox (due locked n (clock s) (tables s))) b)"
proof -
  obtain f1 s1 where f1: "tx_begin s = (f1, s1)" by fastforce
  have s1: "tables s1 = tables s" "clock s1 = clock s"
    using f1 by (auto simp: tx_begin_def tx_tick_def next_fault_def split: list.splits fault.splits)
  obtain c s2 where c: "claimOutbox locked n s1 = (c, s2)" by fastforce
  show ?thesis
  proof (cases c)
    case (Inr batch)
    have "batch = map scanOutbox (due locked n (clock s) (tables s))"
      using claimOutbox_ok(2) [OF c [unfolded Inr]] s1 by simp
    then show ?thesis
      using assms f1 c Inr unfolding DrainBatch_def
      by (cases f1) (auto simp: Let_def split: prod.splits sum.splits if_splits)
  qed (use assms f1 c in \<open>auto simp: DrainBatch_def split: sum.splits\<close>)
qed

text \<open>
  C29: a round publishes due rows in the order of their ids, each at most once, and stops at the
  first transient failure: the calls to the broker are a prefix of the due rows, no call but the
  last one failed transiently, and the round either reached every due row, or was cut off by
  such a failure, or failed before its first call. Holds for any faults of the database.
\<close>

theorem drain_publishes_in_order:
  assumes run: "DrainBatch locked n m (logged publish) ([], b) s = (res, (calls, b'), s')"
  shows "prefix (map fst calls) (map (or_record \<circ> scanOutbox) (due locked n (clock s) (tables s)))
    \<and> sorted (map ob_id (due locked n (clock s) (tables s)))
    \<and> (\<forall>c\<in>set (butlast calls). \<not> transient (snd c))
    \<and> (calls = [] \<or> map fst calls = map (or_record \<circ> scanOutbox) (due locked n (clock s) (tables s))
        \<or> transient (snd (last calls)))"
proof -
  let ?batch = "map scanOutbox (due locked n (clock s) (tables s))"
  let ?cs = "publish_calls publish ?batch b"
  have sorted: "sorted (map ob_id (due locked n (clock s) (tables s)))"
    unfolding due_def by (simp add: take_map [symmetric] sorted_wrt_take)
  consider "calls = []" | "calls = map (\<lambda>c. (or_record (fst c), snd c)) ?cs"
    using drain_broker [OF run] publishBatch_logged [of publish ?batch "[]" b]
    by (metis append_Nil fst_conv)
  then show ?thesis
  proof cases
    case 2
    have "prefix (map or_record (map fst ?cs)) (map or_record ?batch)"
      by (rule map_mono_prefix) (rule publish_calls_prefix)
    moreover have "map fst calls = map or_record (map fst ?cs)" using 2 by simp
    moreover have "\<not> transient (snd c)" if "c \<in> set (butlast calls)" for c
      using that publish_calls_butlast [of _ publish ?batch b] unfolding 2 map_butlast [symmetric] by force
    moreover have "map fst calls = map or_record ?batch \<or> transient (snd (last calls))"
    proof (cases "map fst ?cs = ?batch")
      case True
      then show ?thesis using \<open>map fst calls = map or_record (map fst ?cs)\<close> by metis
    next
      case False
      then show ?thesis using publish_calls_all [of publish ?batch b] by (auto simp: 2 last_map)
    qed
    ultimately show ?thesis using sorted by simp
  qed (use sorted in simp)
qed

theorem drain_publishes_in_order_witness:
  "prefix (map fst (fst (fst (snd sample_run)))) (map (or_record \<circ> scanOutbox)
     [sample_pending 1 TypeCreated 0, sample_pending 2 TypeDeleted 4, sample_pending 3 TypeUpdated 0])"
proof -
  have "due (\<lambda>_. False) 10 (clock (healthy sample_outbox)) (tables (healthy sample_outbox))
      = [sample_pending 1 TypeCreated 0, sample_pending 2 TypeDeleted 4, sample_pending 3 TypeUpdated 0]"
    by (simp add: due_def healthy_def sample_outbox_def sample_pending_def)
  then show ?thesis using drain_publishes_in_order [OF sample_run_parts] by simp
qed


section \<open>A round as one pass over the rows\<close>

lemma round_transient:
  "(case filter (\<lambda>c. transient (snd c)) (publish_calls publish batch b) of
      [] \<Rightarrow> None | c # cs \<Rightarrow> snd (last (c # cs)))
   = (let calls = publish_calls publish batch b in
      if calls \<noteq> [] \<and> transient (snd (last calls)) then snd (last calls) else None)"
proof -
  let ?cs = "publish_calls publish batch b"
  have "filter (\<lambda>c. transient (snd c)) (butlast ?cs) = []"
    using publish_calls_butlast [of _ publish batch b] by (simp add: filter_empty_conv)
  then have "filter (\<lambda>c. transient (snd c)) ?cs
      = (if ?cs \<noteq> [] \<and> transient (snd (last ?cs)) then [last ?cs] else [])"
    using append_butlast_last_id [of ?cs] filter_append [of "\<lambda>c. transient (snd c)" "butlast ?cs" "[last ?cs]"]
    by (cases "?cs = []") auto
  then show ?thesis by (simp add: Let_def)
qed

lemma round_can_settle:
  fixes s :: conn
  assumes wf: "db_wf (tables s)" and att: "\<forall>r\<in>set (outbox (tables s)). ob_attempts r < m" and m: "m \<le> 1024"
    and pb: "publishBatch publish (map scanOutbox (due locked n (clock s) (tables s))) b = ((sent, failed), b')"
    and cl: "classifyFailures failed m = (bump, dead, tr)"
  shows "can_settle sent bump dead (tables s)"
  unfolding can_settle_def
proof (intro conjI ballI impI)
  note L = round_lists [OF pb cl]
  fix r
  assume r: "r \<in> set (outbox (tables s))"
  have "0 \<le> ob_attempts r" using r wf by (simp add: schema_defs)
  then show "\<not> bump_fails r" using r att m by (auto simp: bump_fails_def int32_ok_def)
next
  show "distinct (map (or_id \<circ> f_row) dead)"
    using round_dead_distinct [OF wf] unfolding round_lists(3) [OF pb cl] .
next
  fix f
  assume "f \<in> set dead"
  then obtain r e where "r \<in> set (outbox (tables s))" "f = \<lparr>f_row = scanOutbox r, f_err = e\<rparr>"
    unfolding round_lists(3) [OF pb cl] by (rule round_deadD)
  then show "or_id (f_row f) \<notin> od_id ` set (outbox_dead (tables s))"
    using wf by (auto simp: schema_defs)
qed

lemma drain_round_is_pass:
  fixes s :: conn
  assumes h: "script s = []" and wf: "db_wf (tables s)" and n: "0 < n"
    and att: "\<forall>r\<in>set (outbox (tables s)). ob_attempts r < m" and m: "m \<le> 1024"
  shows "DrainBatch locked n m publish b s =
    (let calls = round_calls locked n publish b s in
     ((length (filter (\<lambda>c. snd c = None) calls), int (length (due locked n (clock s) (tables s))) = n,
       if calls \<noteq> [] \<and> transient (snd (last calls)) then snd (last calls) else None),
      snd (publishBatch publish (map scanOutbox (due locked n (clock s) (tables s))) b),
      s\<lparr>tables := (tables s)\<lparr>
          outbox := List.map_filter
            (\<lambda>r. after_round m (clock s) (round_answer locked n publish b s (ob_id r)) r) (outbox (tables s)),
          outbox_dead := outbox_dead (tables s) @ map (dead_row (clock s)) (round_dead m calls)\<rparr>\<rparr>))"
proof -
  let ?due = "due locked n (clock s) (tables s)"
  let ?calls = "round_calls locked n publish b s"
  obtain sent failed b1 where p: "publishBatch publish (map scanOutbox ?due) b = ((sent, failed), b1)"
    by (metis prod.exhaust)
  obtain bump dead tr where k: "classifyFailures failed m = (bump, dead, tr)" by (metis prod.exhaust)
  note L = round_lists [OF p k]
  have c: "claimOutbox locked n s = (Inr (map scanOutbox ?due), s)" using h n by (simp add: claimOutbox_run)
  have tr: "tr = (if ?calls \<noteq> [] \<and> transient (snd (last ?calls)) then snd (last ?calls) else None)"
    unfolding L(4) round_calls_def round_transient Let_def ..
  have st: "settle sent bump dead s = (Inr (), s\<lparr>tables := settled_db (clock s) sent bump dead (tables s)\<rparr>)"
    using settle_run [OF h] round_can_settle [OF wf att m p k] by blast
  have len: "length sent = length (filter (\<lambda>c. snd c = None) ?calls)" using L(1) by simp
  show ?thesis
  proof (cases "?due = []")
    case True
    then have "?calls = []" by (simp add: round_calls_def)
    then have rows: "List.map_filter (\<lambda>r. after_round m (clock s)
        (round_answer locked n publish b s (ob_id r)) r) xs = xs" for xs
      by (induction xs) (simp_all add: round_answer_def after_round_def)
    show ?thesis
      using True h c p n \<open>?calls = []\<close> rows
      by (simp add: DrainBatch_def tx_begin_def tx_tick_nil round_dead_def Let_def)
  next
    case False
    have "DrainBatch locked n m publish b s = ((length sent, int (length ?due) = n, tr), b1,
        s\<lparr>tables := settled_db (clock s) sent bump dead (tables s)\<rparr>)"
      using False h c p k st
      by (simp add: DrainBatch_def tx_begin_def tx_tick_nil tx_commit_def next_fault_nil Let_def)
    then show ?thesis
      using settled_outbox_rows [OF wf p k] L(3) len tr p by (simp add: settled_db_def Let_def)
  qed
qed

text \<open>
  C13: on a healthy database, with attempts below a limit of at most 1024, the round (claim, publish,
  classify, delete, bump, dead-letter) is one pass over the pending rows by the broker's
  answers: taken rows leave, rows refused for good are bumped (one more attempt, retried after
  the backoff) or dead-lettered at the limit, and rows refused for now or not reached stay as
  they are, no attempt charged. It reports the number of taken rows, whether the claim was full,
  and the transient error if one ended the round, and nothing else can make it fail.
\<close>

theorem drain_refines_pass:
  fixes s :: conn
  assumes h: "script s = []" and wf: "db_wf (tables s)" and n: "0 < n"
    and att: "\<forall>r\<in>set (outbox (tables s)). ob_attempts r < m" and m: "m \<le> 1024"
  shows "DrainBatch locked n m publish b s =
    (let calls = round_calls locked n publish b s in
     ((length (filter (\<lambda>c. snd c = None) calls), int (length (due locked n (clock s) (tables s))) = n,
       if calls \<noteq> [] \<and> transient (snd (last calls)) then snd (last calls) else None),
      snd (publishBatch publish (map scanOutbox (due locked n (clock s) (tables s))) b),
      s\<lparr>tables := (tables s)\<lparr>
          outbox := List.map_filter
            (\<lambda>r. after_round m (clock s) (round_answer locked n publish b s (ob_id r)) r) (outbox (tables s)),
          outbox_dead := outbox_dead (tables s) @ map (dead_row (clock s)) (round_dead m calls)\<rparr>\<rparr>))"
  using drain_round_is_pass [OF assms] .


theorem drain_refines_pass_witness:
  "\<exists>s'. DrainBatch (\<lambda>_. False) 10 5 sample_publish [] (healthy sample_outbox)
     = ((2, False, None), map (or_record \<circ> scanOutbox) [sample_pending 1 TypeCreated 0, sample_pending 3 TypeUpdated 0], s')
     \<and> outbox (tables s') = [] \<and> map od_id (outbox_dead (tables s')) = [2]"
proof -
  let ?s = "healthy sample_outbox"
  have h: "script ?s = []" "db_wf (tables ?s)" "\<forall>r\<in>set (outbox (tables ?s)). ob_attempts r < 5"
    using sample_outbox_wf by (simp_all add: healthy_def)
  have due: "due (\<lambda>_. False) 10 (clock ?s) (tables ?s)
      = [sample_pending 1 TypeCreated 0, sample_pending 2 TypeDeleted 4, sample_pending 3 TypeUpdated 0]"
    by (simp add: due_def healthy_def sample_outbox_def sample_pending_def)
  have ob: "outbox (tables ?s) = [sample_pending 1 TypeCreated 0, sample_pending 2 TypeDeleted 4, sample_pending 3 TypeUpdated 0]"
    "outbox_dead (tables ?s) = []"
    by (simp_all add: healthy_def sample_outbox_def empty_database_def)
  show ?thesis
    using drain_refines_pass [OF h(1,2) _ h(3), of 10 "\<lambda>_. False" sample_publish "[]"]
    by (simp add: due ob round_calls_def round_answer_def after_round_def round_dead_def dead_row_def
        sample_publish_def transient_def sample_pending_def scanOutbox_def event_type_defs Let_def)
qed

section \<open>The retry backoff and the attempts limit\<close>

text \<open>
  C31: with an attempts limit above 1025 one event the broker keeps refusing blocks the whole outbox for
  good. Once such a row has 1024 attempts and the limit is not reached, the statement that
  computes its backoff (\<open>POWER(2, attempts)\<close>) overflows, so every round that claims it fails and rolls
  back: nothing is settled, neither this row nor the rows the broker took in the same round, and the
  tables are as before, so that the next round meets the same rows.
\<close>

theorem drain_blocked_by_overflow:
  fixes s :: conn
  assumes h: "script s = []" and wf: "db_wf (tables s)" and n: "0 < n"
    and r: "r \<in> set (outbox (tables s))" "1024 \<le> ob_attempts r" "ob_attempts r + 1 < m"
    and refused: "round_answer locked n publish b s (ob_id r) = Some (Some e)" "errors_is e ErrUndeliverable"
  shows "\<exists>err b'. DrainBatch locked n m publish b s = ((0, False, Some err), b', s)"
proof -
  let ?due = "due locked n (clock s) (tables s)"
  let ?calls = "round_calls locked n publish b s"
  obtain sent failed b1 where p: "publishBatch publish (map scanOutbox ?due) b = ((sent, failed), b1)"
    by (metis prod.exhaust)
  obtain bump dead tr where k: "classifyFailures failed m = (bump, dead, tr)" by (metis prod.exhaust)
  have "ob_id r \<in> set bump" "ob_id r \<notin> set sent"
    unfolding round_lists(1,2) [OF p k] round_membership [OF wf r(1)] using refused r(3) by simp_all
  then have "\<not> can_settle sent bump dead (tables s)"
    using r(1,2) by (auto simp: can_settle_def bump_fails_def)
  moreover obtain d s3 where d: "settle sent bump dead s = (d, s3)" by fastforce
  ultimately obtain err where err: "settle sent bump dead s = (Inl err, s3)"
    using settle_run [OF h, of sent bump dead s3] by (cases d) auto
  have "?calls \<noteq> []" using refused(1) by (auto simp: round_answer_def)
  then have "?due \<noteq> []" by (auto simp: round_calls_def)
  have seq: "outbox_seq (tables s3) = outbox_seq (tables s)" by (rule keeps_seqD [OF settle_keeps_seq err])
  have frame: "clock s3 = clock s" "script s3 = []"
    using tx_frameD [OF settle_frame err] h by simp_all
  have "tx_rollback s s3 = s" using seq frame h by (simp add: tx_rollback_def)
  moreover have "claimOutbox locked n s = (Inr (map scanOutbox ?due), s)" using h n by (simp add: claimOutbox_run)
  ultimately have "DrainBatch locked n m publish b s = ((0, False, Some err), b1, s)"
    using h p k err \<open>?due \<noteq> []\<close> by (simp add: DrainBatch_def tx_begin_def tx_tick_nil Let_def)
  then show ?thesis by blast
qed

theorem drain_blocked_by_overflow_witness:
  "\<exists>err b'. DrainBatch (\<lambda>_. False) 10 2000 sample_publish []
       (healthy (sample_outbox\<lparr>outbox := [sample_pending 2 TypeDeleted 1024, sample_pending 3 TypeUpdated 0]\<rparr>))
     = ((0, False, Some err), b',
        healthy (sample_outbox\<lparr>outbox := [sample_pending 2 TypeDeleted 1024, sample_pending 3 TypeUpdated 0]\<rparr>))"
proof -
  let ?db = "sample_outbox\<lparr>outbox := [sample_pending 2 TypeDeleted 1024, sample_pending 3 TypeUpdated 0]\<rparr>"
  have wf: "db_wf (tables (healthy ?db))"
    by (simp add: healthy_def schema_defs sample_outbox_def empty_database_def sample_pending_def)
  have ans: "round_answer (\<lambda>_. False) 10 sample_publish [] (healthy ?db)
      (ob_id (sample_pending 2 TypeDeleted 1024)) = Some (Some ErrUndeliverable)"
    by (simp add: round_answer_def round_calls_def due_def healthy_def sample_pending_def
        sample_publish_def transient_def scanOutbox_def event_type_defs)
  show ?thesis
    by (rule drain_blocked_by_overflow [OF _ wf _ _ _ _ ans])
      (simp_all add: healthy_def sample_pending_def)
qed

end
