(* ===== verification/Bus.thy ===== *)
theory Bus
  imports Outbox_Store
begin

text \<open>
  \<open>internal/bus/bus.go\<close>: publishing a record to the broker. The AMQP client library is outside
  the repository: building the addressed message and sending it are parameters, the outcome
  of a send is one of the AMQP delivery states.
\<close>

datatype delivery_state = StateAccepted | StateReleased | OtherState string

definition Exchange :: string where
  "Exchange = ''storefront.product''"

definition outcomeErr :: "delivery_state \<Rightarrow> go_error option" where
  "outcomeErr outcome =
     (case outcome of
        StateAccepted \<Rightarrow> None
      | StateReleased \<Rightarrow> None
      | OtherState t \<Rightarrow> Some (Wrapped (''%w: bus publish not accepted ('' @ t @ '')'') [ErrUndeliverable]))"

definition bus_Publish ::
  "(json \<Rightarrow> string \<Rightarrow> string \<Rightarrow> go_error + 'm)
    \<Rightarrow> ('m \<Rightarrow> string \<Rightarrow> 'b \<Rightarrow> (go_error + delivery_state) \<times> 'b) \<Rightarrow> 'b publish" where
  "bus_Publish new_message send r b =
     (case new_message (Payload r) Exchange (RecType r) of
        Inl err \<Rightarrow> (Some (Wrapped ''%w: bus address: %w'' [ErrUndeliverable, err]), b)
      | Inr msg \<Rightarrow>
          (case send msg (uuid_string (MessageID r)) b of
             (Inl err, b') \<Rightarrow> (Some (errorf_w ''bus publish: '' err), b')
           | (Inr outcome, b') \<Rightarrow> (outcomeErr outcome, b')))"

text \<open>
  How the broker's settlement is classified. A record counts as published exactly when it was
  addressed, sent and settled as accepted or released. A transport error is transient (it is not
  marked undeliverable, so it stops the batch and costs no attempt) as long as the client
  library's own errors are not so marked; a refused settlement and an unaddressable record
  are undeliverable and cost one.
\<close>

theorem bus_publish_classified:
  assumes "\<forall>msg e. fst (send msg (uuid_string (MessageID r)) b) = Inl e \<longrightarrow> \<not> errors_is e ErrUndeliverable"
  shows "(fst (bus_Publish new_message send r b) = None \<longleftrightarrow>
      (\<exists>msg. new_message (Payload r) Exchange (RecType r) = Inr msg
        \<and> fst (send msg (uuid_string (MessageID r)) b) \<in> {Inr StateAccepted, Inr StateReleased}))
    \<and> (transient (fst (bus_Publish new_message send r b)) \<longleftrightarrow>
      (\<exists>msg. new_message (Payload r) Exchange (RecType r) = Inr msg
        \<and> \<not> is_ok (fst (send msg (uuid_string (MessageID r)) b))))"
  using assms
  by (auto simp: bus_Publish_def outcomeErr_def transient_def is_ok_def
      split: prod.splits sum.splits delivery_state.splits) (metis fst_conv)

theorem bus_publish_classified_witness:
  "transient (fst (bus_Publish (\<lambda>p x k. Inr p) (\<lambda>m i b. (Inl (NetError ''broken pipe''), b))
      \<lparr>MessageID = 1, RecType = TypeCreated, Payload = JNull\<rparr> ()))
   \<and> fst (bus_Publish (\<lambda>p x k. Inr p) (\<lambda>m i b. (Inr StateReleased, b))
      \<lparr>MessageID = 1, RecType = TypeCreated, Payload = JNull\<rparr> ()) = None"
  using bus_publish_classified [of "\<lambda>m i b. (Inl (NetError ''broken pipe''), b)"
      "\<lparr>MessageID = 1, RecType = TypeCreated, Payload = JNull\<rparr>" "()" "\<lambda>p x k. Inr p"]
    bus_publish_classified [of "\<lambda>m i b. (Inr StateReleased, b)"
      "\<lparr>MessageID = 1, RecType = TypeCreated, Payload = JNull\<rparr>" "()" "\<lambda>p x k. Inr p"]
  by simp

end
