(* ===== verification/Listener.thy ===== *)
theory Listener
  imports Go_Error
begin

text \<open>
  \<open>internal/pg/listener.go\<close>: the dedicated \<open>LISTEN\<close> connection of the relay. A connection is
  checked out of the pool, and either released back to it or hijacked out of it; the pool
  cannot close while a checked out connection is held, and a hijacked connection lives until it
  is closed. The answers of the driver during one call are its \<open>await_env\<close>: of the checkout, of
  \<open>LISTEN\<close>, of the wait, and what \<open>ctx.Err()\<close> says after the wait.
\<close>

record pg_pool =
  checked_out :: "nat list"
  hijacked :: "nat list"
  next_conn :: nat

record listener =
  l_channel :: string
  l_conn :: "nat option"
  l_pool :: pg_pool

record await_env =
  aw_acquire :: "go_error option"
  aw_listen :: "go_error option"
  aw_wait :: "go_error option"
  aw_ctx :: "go_error option"

definition NewListener :: "pg_pool \<Rightarrow> string \<Rightarrow> listener" where
  "NewListener pool channel = \<lparr>l_channel = channel, l_conn = None, l_pool = pool\<rparr>"

definition pool_Acquire :: "pg_pool \<Rightarrow> nat \<times> pg_pool" where
  "pool_Acquire p = (next_conn p, p\<lparr>checked_out := next_conn p # checked_out p, next_conn := Suc (next_conn p)\<rparr>)"

definition pool_Release :: "nat \<Rightarrow> pg_pool \<Rightarrow> pg_pool" where
  "pool_Release c p = p\<lparr>checked_out := remove1 c (checked_out p)\<rparr>"

definition conn_Hijack :: "nat \<Rightarrow> pg_pool \<Rightarrow> pg_pool" where
  "conn_Hijack c p = p\<lparr>checked_out := remove1 c (checked_out p), hijacked := c # hijacked p\<rparr>"

definition conn_Close :: "nat \<Rightarrow> pg_pool \<Rightarrow> pg_pool" where
  "conn_Close c p = p\<lparr>hijacked := remove1 c (hijacked p)\<rparr>"

definition listener_acquire :: "await_env \<Rightarrow> listener \<Rightarrow> (go_error + nat) \<times> listener" where
  "listener_acquire env l =
     (case l_conn l of
        Some c \<Rightarrow> (Inr c, l)
      | None \<Rightarrow>
          (case aw_acquire env of
             Some err \<Rightarrow> (Inl (errorf_w ''listen acquire: '' err), l)
           | None \<Rightarrow>
               (case pool_Acquire (l_pool l) of (c, p) \<Rightarrow>
                  (case aw_listen env of
                     Some err \<Rightarrow>
                       (Inl (errorf_w (''listen '' @ l_channel l @ '': '') err), l\<lparr>l_pool := pool_Release c p\<rparr>)
                   | None \<Rightarrow> (Inr c, l\<lparr>l_pool := conn_Hijack c p, l_conn := Some c\<rparr>)))))"

definition listener_release :: "listener \<Rightarrow> listener" where
  "listener_release l =
     (case l_conn l of
        None \<Rightarrow> l
      | Some c \<Rightarrow> l\<lparr>l_pool := conn_Close c (l_pool l), l_conn := None\<rparr>)"

definition listener_Await :: "await_env \<Rightarrow> listener \<Rightarrow> go_error option \<times> listener" where
  "listener_Await env l =
     (case listener_acquire env l of
        (Inl err, l1) \<Rightarrow> (Some err, l1)
      | (Inr _, l1) \<Rightarrow>
          (case aw_wait env of
             None \<Rightarrow> (None, l1)
           | Some err \<Rightarrow>
               (case aw_ctx env of
                  Some ce \<Rightarrow> (Some ce, listener_release l1)
                | None \<Rightarrow>
                    if errors_is err CtxDeadlineExceeded then (None, l1)
                    else (Some (errorf_w ''listen wait: '' err), listener_release l1))))"

definition listener_Close :: "listener \<Rightarrow> listener" where
  "listener_Close l = listener_release l"

section \<open>No connection leaks\<close>

text \<open>Relative to the connections others hold, the listener holds its own one and no other.\<close>

definition owns_only :: "nat list \<Rightarrow> nat list \<Rightarrow> listener \<Rightarrow> bool" where
  "owns_only co hj l \<longleftrightarrow>
     checked_out (l_pool l) = co
     \<and> hijacked (l_pool l) = (case l_conn l of None \<Rightarrow> hj | Some c \<Rightarrow> c # hj)"

lemma owns_only_New: "owns_only (checked_out p) (hijacked p) (NewListener p ch)"
  by (simp add: owns_only_def NewListener_def)

lemma owns_only_release:
  "owns_only co hj l \<Longrightarrow> owns_only co hj (listener_release l) \<and> l_conn (listener_release l) = None"
  by (auto simp: owns_only_def listener_release_def conn_Close_def split: option.splits)

lemma owns_only_acquire: "owns_only co hj l \<Longrightarrow> owns_only co hj (snd (listener_acquire env l))"
  by (auto simp: owns_only_def listener_acquire_def pool_Acquire_def pool_Release_def conn_Hijack_def
      split: option.splits)

lemma owns_only_Await:
  assumes "owns_only co hj l"
  shows "owns_only co hj (snd (listener_Await env l))"
proof -
  obtain r l1 where a: "listener_acquire env l = (r, l1)" by fastforce
  have "owns_only co hj l1" using owns_only_acquire [OF assms, of env] a by simp
  then show ?thesis
    using a owns_only_release [of co hj l1]
    by (auto simp: listener_Await_def split: sum.split option.split)
qed

text \<open>A poll tick is not an error; any other failed wait drops the connection.\<close>

lemma Await_error_drops:
  "listener_Await env l = (Some e, l') \<Longrightarrow> l_conn l' = None"
  by (auto simp: listener_Await_def listener_acquire_def listener_release_def pool_Acquire_def
      split: sum.splits option.splits if_splits)

end
