(* ===== verification/Relay.thy ===== *)
theory Relay
  imports Bus Listener
begin

text \<open>
  \<open>internal/outbox/relay.go\<close>: the loop that drains the outbox, backs off while draining fails and
  waits for a wakeup otherwise. The loop ends only when its context is cancelled, so a run is
  given by the observations of its iterations: what \<open>DrainBatch\<close> answered, whether the context
  was cancelled after it, what the wait met, and whether a pause was cut short. The result is
  the list of what the loop did, the listener it leaves, and whether it returned.
\<close>

section \<open>Operations\<close>

definition maxBackoff :: int where
  "maxBackoff = 30 * 1000000000"

record relay_config =
  BatchSize :: int
  PollInterval :: int
  PublishTimeout :: int
  MaxAttempts :: int

record relay_env =
  re_drain :: "nat \<times> bool \<times> go_error option"
  re_ctx_drain :: bool
  re_await :: await_env
  re_ctx_await :: bool
  re_pause_cut :: bool

datatype relay_action = Drain | Await int | Pause int

text \<open>\<open>pause\<close> and \<open>wait\<close>: what was done, and whether an error (cancellation) came back.\<close>

definition relay_pause :: "relay_env \<Rightarrow> int \<Rightarrow> relay_action list \<times> bool" where
  "relay_pause env d = ([Pause d], re_pause_cut env)"

definition relay_wait ::
  "relay_config \<Rightarrow> relay_env \<Rightarrow> listener \<Rightarrow> relay_action list \<times> bool \<times> listener" where
  "relay_wait cfg env l =
     (case listener_Await (re_await env) l of
        (err, l1) \<Rightarrow>
          if err = None \<or> re_ctx_await env then ([Await (PollInterval cfg)], re_ctx_await env, l1)
          else (case relay_pause env (PollInterval cfg) of
                  (acts, stopped) \<Rightarrow> (Await (PollInterval cfg) # acts, stopped, l1)))"

text \<open>One iteration: the new backoff, or None when \<open>Run\<close> returns.\<close>

definition relay_round ::
  "relay_config \<Rightarrow> int \<Rightarrow> relay_env \<Rightarrow> listener \<Rightarrow> relay_action list \<times> int option \<times> listener" where
  "relay_round cfg backoff env l =
     (case re_drain env of
        (published, full, err) \<Rightarrow>
          if re_ctx_drain env then ([Drain], None, l)
          else if err \<noteq> None then
            (let backoff' = min (wrap64 (backoff * 2)) maxBackoff;
                 (acts, stopped) = relay_pause env backoff'
             in (Drain # acts, if stopped then None else Some backoff', l))
          else if full then ([Drain], Some (PollInterval cfg), l)
          else (case relay_wait cfg env l of
                  (acts, stopped, l1) \<Rightarrow> (Drain # acts, if stopped then None else Some (PollInterval cfg), l1)))"

fun relay_loop ::
  "relay_config \<Rightarrow> int \<Rightarrow> relay_env list \<Rightarrow> listener \<Rightarrow> relay_action list \<times> bool \<times> listener" where
  "relay_loop cfg backoff [] l = ([], False, l)"
| "relay_loop cfg backoff (env # envs) l =
     (case relay_round cfg backoff env l of
        (acts, None, l1) \<Rightarrow> (acts, True, listener_Close l1)
      | (acts, Some backoff', l1) \<Rightarrow>
          (case relay_loop cfg backoff' envs l1 of (acts', ret, l2) \<Rightarrow> (acts @ acts', ret, l2)))"

definition relay_Run ::
  "relay_config \<Rightarrow> relay_env list \<Rightarrow> listener \<Rightarrow> relay_action list \<times> bool \<times> listener" where
  "relay_Run cfg envs l = relay_loop cfg (PollInterval cfg) envs l"

section \<open>The listener is closed\<close>

lemma relay_round_owns:
  "owns_only co hj l \<Longrightarrow> owns_only co hj (snd (snd (relay_round cfg bo env l)))"
  using owns_only_Await [of co hj l "re_await env"]
  by (auto simp: relay_round_def relay_wait_def relay_pause_def Let_def split: prod.splits)

lemma relay_loop_owns:
  assumes "owns_only co hj l"
  shows "owns_only co hj (snd (snd (relay_loop cfg bo envs l)))
    \<and> (fst (snd (relay_loop cfg bo envs l)) \<longrightarrow> l_conn (snd (snd (relay_loop cfg bo envs l))) = None)"
  using assms
proof (induction envs arbitrary: bo l)
  case (Cons env envs)
  obtain acts nb l1 where r: "relay_round cfg bo env l = (acts, nb, l1)" by (metis prod.exhaust)
  have l1: "owns_only co hj l1" using relay_round_owns [OF Cons.prems, of cfg bo env] r by simp
  show ?case
  proof (cases nb)
    case None
    then show ?thesis using r owns_only_release [OF l1] by (simp add: listener_Close_def)
  next
    case (Some bo')
    then show ?thesis using r Cons.IH [OF l1, of bo'] by (auto split: prod.splits)
  qed
qed simp

text \<open>
  C32: the relay holds at most one dedicated connection, whatever its waits meet, and none once it
  has returned: no pool connection stays checked out and every connection it hijacked out of
  the pool has been closed.
\<close>

theorem relay_leaks_no_connection:
  assumes "relay_Run cfg envs (NewListener pool ch) = (acts, returned, l)"
  shows "checked_out (l_pool l) = checked_out pool
    \<and> length (hijacked (l_pool l)) \<le> length (hijacked pool) + 1
    \<and> (returned \<longrightarrow> hijacked (l_pool l) = hijacked pool)"
  using relay_loop_owns [OF owns_only_New [of pool ch], of cfg "PollInterval cfg" envs] assms
  by (auto simp: relay_Run_def owns_only_def split: option.splits)

section \<open>Backoff\<close>

definition drain_failed :: "relay_env \<Rightarrow> bool" where
  "drain_failed env \<longleftrightarrow> snd (snd (re_drain env)) \<noteq> None \<and> \<not> re_ctx_drain env \<and> \<not> re_pause_cut env"

lemma failed_round:
  assumes "drain_failed env" "0 < b" "b < 2 ^ 62"
  shows "relay_round cfg b env l
    = ([Drain, Pause (min (b * 2) maxBackoff)], Some (min (b * 2) maxBackoff), l)"
proof -
  have "wrap64 (b * 2) = b * 2" using assms(2,3) by (intro wrap64_id) (simp add: int64_ok_def)
  then show ?thesis
    using assms(1) by (auto simp: relay_round_def drain_failed_def relay_pause_def Let_def split: prod.splits)
qed

lemma backoff_step:
  fixes b :: int
  assumes "0 < b"
  shows "min (min (b * 2) maxBackoff * 2 ^ Suc k) maxBackoff = min (b * 2 ^ Suc (Suc k)) maxBackoff"
proof (cases "b * 2 \<le> maxBackoff")
  case False
  have "(1::int) \<le> 2 ^ Suc k" by (rule one_le_power) simp
  then have "maxBackoff * 1 \<le> maxBackoff * 2 ^ Suc k" "b * 2 * 1 \<le> b * 2 * 2 ^ Suc k"
    using assms by (auto intro!: mult_left_mono simp: maxBackoff_def)
  then show ?thesis using False by (simp add: algebra_simps)
qed (simp add: algebra_simps)

lemma failing_loop:
  assumes "\<forall>env\<in>set envs. drain_failed env" "0 < b" "b < 2 ^ 62"
  shows "relay_loop cfg b envs l =
    (concat (map (\<lambda>k. [Drain, Pause (min (b * 2 ^ Suc k) maxBackoff)]) [0..<length envs]), False, l)"
  using assms
proof (induction envs arbitrary: b)
  case (Cons env envs)
  let ?b = "min (b * 2) maxBackoff"
  have "0 < ?b" "?b < 2 ^ 62" using Cons.prems(2) by (auto simp: maxBackoff_def)
  then have IH: "relay_loop cfg ?b envs l =
      (concat (map (\<lambda>k. [Drain, Pause (min (?b * 2 ^ Suc k) maxBackoff)]) [0..<length envs]), False, l)"
    using Cons.IH [of ?b] Cons.prems(1) by simp
  have "concat (map (\<lambda>k. [Drain, Pause (min (b * 2 ^ Suc k) maxBackoff)]) [0..<Suc (length envs)])
      = [Drain, Pause ?b] @ concat (map (\<lambda>k. [Drain, Pause (min (b * 2 ^ Suc (Suc k)) maxBackoff)]) [0..<length envs])"
    unfolding upt_conv_Cons [OF zero_less_Suc] map_Suc_upt [symmetric] by (simp add: comp_def)
  then show ?case
    using Cons.prems failed_round [of env b cfg l] IH backoff_step [OF Cons.prems(2)]
    by simp
qed simp

text \<open>
  While draining keeps failing, the relay pauses after each failed round, for twice the poll
  interval after the first, doubling up to thirty seconds: no round is retried at once and the
  doubling never overflows. A round that succeeds puts the backoff back to the poll interval, so
  later failures start over, whatever backoff had been reached before.
\<close>

theorem relay_backs_off:
  assumes "0 < PollInterval cfg" "PollInterval cfg < 2 ^ 62"
    and "\<forall>env\<in>set fails. drain_failed env"
    and "re_drain ok = (n, True, None)" "\<not> re_ctx_drain ok"
  shows "relay_loop cfg backoff (ok # fails) l =
    (Drain # concat (map (\<lambda>k. [Drain, Pause (min (PollInterval cfg * 2 ^ Suc k) (30 * 10 ^ 9))]) [0..<length fails]),
     False, l)"
  using failing_loop [OF assms(3,1,2), of cfg l] assms(4,5)
  by (simp add: relay_round_def maxBackoff_def)

definition sample_env :: "nat \<times> bool \<times> go_error option \<Rightarrow> bool \<Rightarrow> relay_env" where
  "sample_env r stop = \<lparr>re_drain = r, re_ctx_drain = stop,
     re_await = \<lparr>aw_acquire = None, aw_listen = None, aw_wait = None, aw_ctx = None\<rparr>,
     re_ctx_await = False, re_pause_cut = False\<rparr>"

definition sample_relay :: relay_config where
  "sample_relay = \<lparr>BatchSize = 100, PollInterval = 5000000000, PublishTimeout = 5000000000, MaxAttempts = 10\<rparr>"

theorem relay_backs_off_witness:
  "relay_loop sample_relay 77 (sample_env (3, True, None) False
      # replicate 4 (sample_env (0, False, Some ErrUnavailable) False))
      (NewListener \<lparr>checked_out = [], hijacked = [], next_conn = 0\<rparr> ''outbox_wakeup'')
   = ([Drain, Drain, Pause 10000000000, Drain, Pause 20000000000, Drain, Pause 30000000000,
       Drain, Pause 30000000000], False,
      NewListener \<lparr>checked_out = [], hijacked = [], next_conn = 0\<rparr> ''outbox_wakeup'')"
  using relay_backs_off [of sample_relay "replicate 4 (sample_env (0, False, Some ErrUnavailable) False)"
      "sample_env (3, True, None) False" 3 77
      "NewListener \<lparr>checked_out = [], hijacked = [], next_conn = 0\<rparr> ''outbox_wakeup''"]
  by (simp add: sample_relay_def sample_env_def drain_failed_def numeral_eq_Suc)

theorem relay_leaks_no_connection_witness:
  "\<exists>acts l. relay_Run sample_relay [sample_env (3, False, None) False, sample_env (0, False, None) True]
      (NewListener \<lparr>checked_out = [], hijacked = [], next_conn = 0\<rparr> ''outbox_wakeup'') = (acts, True, l)
    \<and> hijacked (l_pool l) = [] \<and> checked_out (l_pool l) = []"
proof -
  obtain acts l where run: "relay_Run sample_relay [sample_env (3, False, None) False, sample_env (0, False, None) True]
      (NewListener \<lparr>checked_out = [], hijacked = [], next_conn = 0\<rparr> ''outbox_wakeup'') = (acts, True, l)"
    by (simp add: relay_Run_def relay_round_def relay_wait_def sample_env_def listener_Await_def
        listener_acquire_def NewListener_def pool_Acquire_def)
  then show ?thesis using relay_leaks_no_connection [OF run] by auto
qed


section \<open>The loop never spins\<close>

text \<open>
  What an iteration does before the next: after a failed drain it pauses; after a batch that was not full it waits for
  a notification, and pauses as well when the wait itself failed. Only a full batch, or the end of the
  context, goes on at once.
\<close>

definition round_paced :: "relay_config \<Rightarrow> relay_env \<Rightarrow> relay_action list \<Rightarrow> bool" where
  "round_paced cfg env acts \<longleftrightarrow>
     (case re_drain env of
        (published, full, err) \<Rightarrow>
          if re_ctx_drain env \<or> err = None \<and> full then acts = [Drain]
          else if err \<noteq> None then (\<exists>d. acts = [Drain, Pause d] \<and> 0 < d \<and> d \<le> 30 * 10 ^ 9)
          else acts = [Drain, Await (PollInterval cfg), Pause (PollInterval cfg)]
            \<or> acts = [Drain, Await (PollInterval cfg)]
              \<and> (re_ctx_await env \<or> (\<exists>l. fst (listener_Await (re_await env) l) = None)))"

lemma relay_round_paced:
  assumes "relay_round cfg b env l = (acts, nb, l')" "0 < b" "b < 2 ^ 62" "0 < PollInterval cfg" "PollInterval cfg < 2 ^ 62"
  shows "round_paced cfg env acts \<and> (\<forall>b'. nb = Some b' \<longrightarrow> 0 < b' \<and> b' < 2 ^ 62)"
proof -
  have w: "wrap64 (b * 2) = b * 2" using assms(2,3) by (intro wrap64_id) (simp add: int64_ok_def)
  obtain n full err where d: "re_drain env = (n, full, err)" by (metis prod.exhaust)
  obtain e l1 where a: "listener_Await (re_await env) l = (e, l1)" by fastforce
  have "\<exists>k. fst (listener_Await (re_await env) k) = None" if "e = None" using a that by (metis fst_conv)
  moreover have "0 < min (b * 2) maxBackoff" "min (b * 2) maxBackoff \<le> 30 * 10 ^ 9" "min (b * 2) maxBackoff < 2 ^ 62"
    using assms(2) by (auto simp: maxBackoff_def)
  ultimately show ?thesis
    using assms(1,4,5) d a w
    by (auto simp: relay_round_def round_paced_def relay_wait_def relay_pause_def Let_def split: if_splits)
qed

lemma relay_loop_paced:
  assumes "0 < b" "b < 2 ^ 62" "0 < PollInterval cfg" "PollInterval cfg < 2 ^ 62"
  shows "\<exists>rounds. fst (relay_loop cfg b envs l) = concat rounds
    \<and> list_all2 (round_paced cfg) (take (length rounds) envs) rounds"
  using assms(1,2)
proof (induction envs arbitrary: b l)
  case (Cons env envs)
  obtain acts nb l1 where r: "relay_round cfg b env l = (acts, nb, l1)" by (metis prod.exhaust)
  note paced = relay_round_paced [OF r Cons.prems assms(3,4)]
  show ?case
  proof (cases nb)
    case None
    then show ?thesis using r paced by (intro exI [of _ "[acts]"]) simp
  next
    case (Some b')
    then obtain rounds where "fst (relay_loop cfg b' envs l1) = concat rounds"
      "list_all2 (round_paced cfg) (take (length rounds) envs) rounds"
      using Cons.IH [of b' l1] paced by blast
    then show ?thesis using r Some paced
      by (intro exI [of _ "acts # rounds"]) (auto split: prod.splits)
  qed
qed (simp add: exI [of _ "[]"])

lemma relay_Run_paced:
  assumes "0 < PollInterval cfg" "PollInterval cfg < 2 ^ 62"
  shows "\<exists>rounds. fst (relay_Run cfg envs l) = concat rounds
    \<and> list_all2 (round_paced cfg) (take (length rounds) envs) rounds"
  unfolding relay_Run_def by (rule relay_loop_paced [OF assms assms])

section \<open>The backlog drains\<close>

text \<open>Consecutive rounds of \<open>Run\<close> against the store.\<close>

fun drain_rounds :: "nat \<Rightarrow> relay_config \<Rightarrow> 'b publish \<Rightarrow> 'b \<Rightarrow> conn \<Rightarrow> 'b \<times> conn" where
  "drain_rounds 0 cfg publish b s = (b, s)"
| "drain_rounds (Suc k) cfg publish b s =
     (case DrainBatch (\<lambda>_. False) (BatchSize cfg) (MaxAttempts cfg) publish b s of
        (_, b', s') \<Rightarrow> drain_rounds k cfg publish b' s')"

definition backlog :: "conn \<Rightarrow> outbox_table_row list" where
  "backlog s = filter (\<lambda>r. ob_next_attempt_at r \<le> clock s) (outbox (tables s))"

lemma due_backlog:
  "due (\<lambda>_. False) n (clock s) (tables s) = take (nat n) (sort_key ob_id (backlog s))"
  by (simp add: due_def backlog_def)

lemma accepting_calls:
  assumes "\<And>rec b. fst (publish rec b) = None"
  shows "publish_calls publish batch b = map (\<lambda>r. (r, None)) batch"
proof (induction batch arbitrary: b)
  case (Cons r batch)
  have "fst (publish (or_record r) b) = None" by (rule assms)
  then show ?case using Cons.IH by (cases "publish (or_record r) b") (simp add: transient_def)
qed simp

lemma map_filter_filter: "List.map_filter (\<lambda>r. if P r then None else Some r) xs = filter (\<lambda>r. \<not> P r) xs"
  by (induction xs) auto

lemma accepting_round:
  assumes acc: "\<And>rec b. fst (publish rec b) = None" and h: "script s = []" and wf: "db_wf (tables s)"
    and n: "0 < n" and att: "\<forall>r\<in>set (outbox (tables s)). ob_attempts r < m" and m: "m \<le> 1024"
  defines "d \<equiv> due (\<lambda>_. False) n (clock s) (tables s)"
  obtains b' where "DrainBatch (\<lambda>_. False) n m publish b s = ((length d, int (length d) = n, None), b',
    s\<lparr>tables := (tables s)\<lparr>outbox := filter (\<lambda>r. r \<notin> set d) (outbox (tables s))\<rparr>\<rparr>)"
proof -
  let ?ans = "round_answer (\<lambda>_. False) n publish b s"
  have calls: "round_calls (\<lambda>_. False) n publish b s = map (\<lambda>r. (scanOutbox r, None)) d"
    by (simp add: round_calls_def accepting_calls [OF acc] d_def comp_def)
  have ans: "after_round m (clock s) (?ans (ob_id r)) r = (if r \<in> set d then None else Some r)"
    if r: "r \<in> set (outbox (tables s))" for r
  proof (cases "r \<in> set d")
    case True
    then have "?ans (ob_id r) = Some None" unfolding round_answer_iff [OF wf r] calls by auto
    then show ?thesis using True by (simp add: after_round_def)
  next
    case False
    have "?ans (ob_id r) = None"
    proof (cases "?ans (ob_id r)")
      case (Some e)
      then have "(scanOutbox r, e) \<in> set (round_calls (\<lambda>_. False) n publish b s)"
        unfolding round_answer_iff [OF wf r] .
      then obtain r' where r': "r' \<in> set d" "scanOutbox r' = scanOutbox r" unfolding calls by auto
      have "r' \<in> set (outbox (tables s))" using r'(1) set_due unfolding d_def by blast
      moreover have "ob_id r' = ob_id r" using r'(2) by (metis or_id_scanOutbox(1))
      ultimately have "r' = r" using outbox_id_eq [OF wf _ r] by blast
      then show ?thesis using False r'(1) by simp
    qed
    then show ?thesis using False by (simp add: after_round_def)
  qed
  have "List.map_filter (\<lambda>r. after_round m (clock s) (?ans (ob_id r)) r) (outbox (tables s))
      = List.map_filter (\<lambda>r. if r \<in> set d then None else Some r) (outbox (tables s))"
    by (rule map_filter_cong_set) (rule ans)
  also have "\<dots> = filter (\<lambda>r. r \<notin> set d) (outbox (tables s))"
    by (rule map_filter_filter)
  finally have rows: "List.map_filter (\<lambda>r. after_round m (clock s) (?ans (ob_id r)) r) (outbox (tables s))
      = filter (\<lambda>r. r \<notin> set d) (outbox (tables s))" .
  have dead: "round_dead m (round_calls (\<lambda>_. False) n publish b s) = []"
    by (simp add: calls round_dead_def)
  have last: "transient (snd (last (round_calls (\<lambda>_. False) n publish b s))) = False \<or> d = []"
    by (cases "d = []") (simp_all add: calls last_map transient_def)
  show thesis
    using drain_round_is_pass [OF h wf n att m, of "\<lambda>_. False" publish b] rows dead last
    by (intro that [of "snd (publishBatch publish (map scanOutbox d) b)"])
      (auto simp: Let_def calls d_def [symmetric] filter_map comp_def)
qed

lemma backlog_shrinks:
  assumes wf: "db_wf (tables s)"
  shows "length (backlog (s\<lparr>tables := (tables s)\<lparr>outbox :=
      filter (\<lambda>r. r \<notin> set (due (\<lambda>_. False) n (clock s) (tables s))) (outbox (tables s))\<rparr>\<rparr>))
    = length (backlog s) - nat n"
proof -
  let ?d = "due (\<lambda>_. False) n (clock s) (tables s)"
  have dist: "distinct (outbox (tables s))"
    using wf by (simp add: schema_defs distinct_map)
  then have db: "distinct (backlog s)" "distinct (sort_key ob_id (backlog s))"
    by (simp_all add: backlog_def)
  have dd: "distinct (take (nat n) (sort_key ob_id (backlog s)))"
    using db(2) by (rule distinct_take)
  have "set ?d \<subseteq> set (backlog s)"
    unfolding due_backlog using set_take_subset by fastforce
  moreover have "card (set ?d) = min (length (backlog s)) (nat n)"
    unfolding due_backlog by (simp only: distinct_card [OF dd]) simp
  moreover have "length (filter (\<lambda>r. r \<notin> set ?d) (backlog s)) = card (set (backlog s) - set ?d)"
    using db(1) by (subst distinct_card [symmetric]) (auto intro!: arg_cong [where f = card])
  ultimately have "length (filter (\<lambda>r. r \<notin> set ?d) (backlog s)) = length (backlog s) - nat n"
    using distinct_card [OF db(1)] by (simp add: card_Diff_subset min_def)
  then show ?thesis
    by (simp add: backlog_def conj_commute)
qed

text \<open>
  The backlog drains. With a healthy database and a broker that takes every event, enough
  rounds for the number of due rows leave none of them in the outbox: \<open>k\<close> rounds of
  \<open>BatchSize\<close> rows clear up to \<open>k * BatchSize\<close> due rows, and the rows that are not due stay.
\<close>

theorem relay_drains_backlog:
  fixes s :: conn
  assumes "\<forall>rec b. fst (publish rec b) = None" "script s = []" "db_wf (tables s)"
    and "0 < BatchSize cfg" "\<forall>r\<in>set (outbox (tables s)). ob_attempts r < MaxAttempts cfg"
    and "MaxAttempts cfg \<le> 1024" "length (backlog s) \<le> k * nat (BatchSize cfg)"
  shows "backlog (snd (drain_rounds k cfg publish b s)) = []
    \<and> {r \<in> set (outbox (tables s)). ob_next_attempt_at r > clock s}
        \<subseteq> set (outbox (tables (snd (drain_rounds k cfg publish b s))))"
  using assms(2,3,5,7)
proof (induction k arbitrary: b s)
  case (Suc k)
  let ?d = "due (\<lambda>_. False) (BatchSize cfg) (clock s) (tables s)"
  let ?s = "s\<lparr>tables := (tables s)\<lparr>outbox := filter (\<lambda>r. r \<notin> set ?d) (outbox (tables s))\<rparr>\<rparr>"
  obtain b' where run: "DrainBatch (\<lambda>_. False) (BatchSize cfg) (MaxAttempts cfg) publish b s =
      ((length ?d, int (length ?d) = BatchSize cfg, None), b', ?s)"
    using accepting_round [of publish s "BatchSize cfg" "MaxAttempts cfg" b] assms(1,4,6) Suc.prems(1-3) by blast
  have inv: "db_wf (tables ?s)" "\<forall>r\<in>set (outbox (tables ?s)). ob_attempts r < MaxAttempts cfg"
    using drain_keeps_attempts [OF run Suc.prems(2,3)] by auto
  have "length (backlog ?s) \<le> k * nat (BatchSize cfg)"
    using backlog_shrinks [OF Suc.prems(2), of "BatchSize cfg"] Suc.prems(4) by simp
  then have IH: "backlog (snd (drain_rounds k cfg publish b' ?s)) = []"
    "{r \<in> set (outbox (tables ?s)). ob_next_attempt_at r > clock ?s}
        \<subseteq> set (outbox (tables (snd (drain_rounds k cfg publish b' ?s))))"
    using Suc.IH [of ?s b'] inv Suc.prems(1) by simp_all
  have "ob_next_attempt_at r \<le> clock s" if "r \<in> set ?d" for r
    using that set_take_subset unfolding due_backlog by (fastforce simp: backlog_def)
  then have "{r \<in> set (outbox (tables s)). ob_next_attempt_at r > clock s}
      \<subseteq> {r \<in> set (outbox (tables ?s)). ob_next_attempt_at r > clock ?s}" by fastforce
  then show ?case using IH run by auto
qed (auto simp: backlog_def)


theorem relay_drains_backlog_witness:
  "backlog (snd (drain_rounds 2 (sample_relay\<lparr>BatchSize := 2\<rparr>) (\<lambda>rec b. (None, b @ [rec])) []
     (healthy sample_outbox))) = []"
proof -
  have "length (backlog (healthy sample_outbox)) = 3"
    by (simp add: backlog_def healthy_def sample_outbox_def sample_pending_def)
  then show ?thesis
    using relay_drains_backlog [of "\<lambda>rec b. (None, b @ [rec])" "healthy sample_outbox"
        "sample_relay\<lparr>BatchSize := 2\<rparr>" 2 "[]"] sample_outbox_wf
    by (force simp: healthy_def sample_relay_def)
qed

end
