(* ===== verification/Json_Text.thy ===== *)
theory Json_Text
  imports Event
begin

text \<open>
  The JSON texts of Go's \<open>encoding/json/v2\<close> and \<open>jsontext\<close>, as far as the repository uses them: the
  writer of \<open>json.Marshal\<close> on strings, integers, booleans, arrays and structs, and the grammar the
  reader accepts with its defaults (valid UTF-8 only, paired surrogates only, no duplicate
  names, no trailing data). An instant has no text here. The reader's limit of 10000 nested
  values is not modelled. The main result is that reading what was written gives the value back.
\<close>

section \<open>Writing\<close>

definition quote_byte :: "char \<Rightarrow> string" where
  "quote_byte c =
     (if c = CHR 0x22 \<or> c = CHR 0x5C then [CHR 0x5C, c]
      else if c = CHR 0x08 then [CHR 0x5C, CHR ''b'']
      else if c = CHR 0x0C then [CHR 0x5C, CHR ''f'']
      else if c = CHR 0x0A then [CHR 0x5C, CHR ''n'']
      else if c = CHR 0x0D then [CHR 0x5C, CHR ''r'']
      else if c = CHR 0x09 then [CHR 0x5C, CHR ''t'']
      else if byte_val c < 32
      then [CHR 0x5C, CHR ''u'', CHR ''0'', CHR ''0'', hex_char (byte_val c div 16), hex_char (byte_val c mod 16)]
      else [c])"

definition json_quote :: "string \<Rightarrow> string" where
  "json_quote s = [CHR 0x22] @ concat (map quote_byte s) @ [CHR 0x22]"

text \<open>The writer refuses text that is not valid UTF-8.\<close>

fun json_print :: "json \<Rightarrow> string" and print_elems :: "json list \<Rightarrow> string"
  and print_members :: "(string \<times> json) list \<Rightarrow> string" where
  "json_print JNull = ''null''"
| "json_print (JBool b) = (if b then ''true'' else ''false'')"
| "json_print (JInt n) = itoa n"
| "json_print (JNum t) = t"
| "json_print (JStr s) = json_quote s"
| "json_print (JTime t) = []"
| "json_print (JArr xs) = ''['' @ print_elems xs @ '']''"
| "json_print (JObj ms) = ''{'' @ print_members ms @ ''}''"
| "print_elems [] = []"
| "print_elems [x] = json_print x"
| "print_elems (x # y # xs) = json_print x @ '','' @ print_elems (y # xs)"
| "print_members [] = []"
| "print_members [(k, v)] = json_quote k @ '':'' @ json_print v"
| "print_members ((k, v) # m # ms) = json_quote k @ '':'' @ json_print v @ '','' @ print_members (m # ms)"

text \<open>What can be written: valid text, no instant, names of an object distinct.\<close>

fun json_ok :: "json \<Rightarrow> bool" where
  "json_ok (JNum t) = False"
| "json_ok (JStr s) = utf8_valid s"
| "json_ok (JTime t) = False"
| "json_ok (JArr xs) = list_all json_ok xs"
| "json_ok (JObj ms) = (distinct (map fst ms) \<and> list_all (\<lambda>(k, v). utf8_valid k \<and> json_ok v) ms)"
| "json_ok j = True"

definition json_marshal :: "json \<Rightarrow> go_error + string" where
  "json_marshal j = (if json_ok j then Inr (json_print j) else Inl (ErrText ''jsontext: invalid UTF-8''))"

section \<open>Reading\<close>

definition is_ws :: "char \<Rightarrow> bool" where
  "is_ws c \<longleftrightarrow> c = CHR 0x20 \<or> c = CHR 0x09 \<or> c = CHR 0x0A \<or> c = CHR 0x0D"

definition skip_ws :: "string \<Rightarrow> string" where
  "skip_ws s = dropWhile is_ws s"

fun hex4 :: "string \<Rightarrow> nat option" where
  "hex4 [a, b, c, d] =
     (case (hex_value a, hex_value b, hex_value c, hex_value d) of
        (Some w, Some x, Some y, Some z) \<Rightarrow> Some (4096 * w + 256 * x + 16 * y + z)
      | _ \<Rightarrow> None)"
| "hex4 _ = None"

definition utf8_encode :: "nat \<Rightarrow> string" where
  "utf8_encode n =
     (if n < 128 then [char_of n]
      else if n < 2048 then [char_of (192 + n div 64), char_of (128 + n mod 64)]
      else if n < 65536
      then [char_of (224 + n div 4096), char_of (128 + n div 64 mod 64), char_of (128 + n mod 64)]
      else [char_of (240 + n div 262144), char_of (128 + n div 4096 mod 64),
            char_of (128 + n div 64 mod 64), char_of (128 + n mod 64)])"

definition unescape :: "char \<Rightarrow> char option" where
  "unescape e =
     (if e = CHR 0x22 \<or> e = CHR 0x5C \<or> e = CHR ''/'' then Some e
      else if e = CHR ''b'' then Some (CHR 0x08)
      else if e = CHR ''f'' then Some (CHR 0x0C)
      else if e = CHR ''n'' then Some (CHR 0x0A)
      else if e = CHR ''r'' then Some (CHR 0x0D)
      else if e = CHR ''t'' then Some (CHR 0x09)
      else None)"

definition prepend :: "string \<Rightarrow> (string \<times> string) option \<Rightarrow> (string \<times> string) option" where
  "prepend p r = map_option (\<lambda>(s, rest). (p @ s, rest)) r"

text \<open>The rest of a string after its opening quote: its text and what follows its closing quote.\<close>

function (sequential) str_body :: "string \<Rightarrow> (string \<times> string) option" where
  "str_body [] = None"
| "str_body (c # cs) =
     (if c = CHR 0x22 then Some ([], cs)
      else if c \<noteq> CHR 0x5C then (if byte_val c < 32 then None else prepend [c] (str_body cs))
      else case cs of
        [] \<Rightarrow> None
      | e # r \<Rightarrow>
          if e \<noteq> CHR ''u''
          then (case unescape e of None \<Rightarrow> None | Some d \<Rightarrow> prepend [d] (str_body r))
          else case hex4 (take 4 r) of
            None \<Rightarrow> None
          | Some u \<Rightarrow>
              if u < 55296 \<or> 57343 < u then prepend (utf8_encode u) (str_body (drop 4 r))
              else if 56320 \<le> u then None
              else if take 2 (drop 4 r) \<noteq> [CHR 0x5C, CHR ''u''] then None
              else (case hex4 (take 4 (drop 6 r)) of
                      None \<Rightarrow> None
                    | Some v \<Rightarrow>
                        if 56320 \<le> v \<and> v \<le> 57343
                        then prepend (utf8_encode (65536 + (u - 55296) * 1024 + (v - 56320))) (str_body (drop 10 r))
                        else None))"
  by pat_completeness auto
termination by (relation "measure length") auto

definition str_token :: "string \<Rightarrow> (string \<times> string) option" where
  "str_token s =
     (case str_body s of Some (t, r) \<Rightarrow> if utf8_valid t then Some (t, r) else None | None \<Rightarrow> None)"

definition frac_part :: "string \<Rightarrow> (string \<times> string) option" where
  "frac_part s =
     (case s of
        c # r \<Rightarrow>
          if c \<noteq> CHR ''.'' then Some ([], s)
          else if takeWhile is_digit r = [] then None
          else Some (c # takeWhile is_digit r, dropWhile is_digit r)
      | [] \<Rightarrow> Some ([], []))"

definition exp_part :: "string \<Rightarrow> (string \<times> string) option" where
  "exp_part s =
     (case s of
        c # r \<Rightarrow>
          if c \<noteq> CHR ''e'' \<and> c \<noteq> CHR ''E'' then Some ([], s)
          else
            (let sg = takeWhile (\<lambda>x. x = CHR ''+'' \<or> x = CHR ''-'') (take 1 r);
                 r1 = drop (length sg) r in
             if takeWhile is_digit r1 = [] then None
             else Some (c # sg @ takeWhile is_digit r1, dropWhile is_digit r1))
      | [] \<Rightarrow> Some ([], []))"

definition parse_number :: "string \<Rightarrow> (json \<times> string) option" where
  "parse_number s =
     (let neg = (case s of c # _ \<Rightarrow> c = CHR ''-'' | [] \<Rightarrow> False);
          r = (if neg then drop 1 s else s);
          ds = takeWhile is_digit r;
          r1 = dropWhile is_digit r in
      if ds = [] \<or> (length ds > 1 \<and> hd ds = CHR ''0'') then None
      else case frac_part r1 of
        None \<Rightarrow> None
      | Some (f, r2) \<Rightarrow>
          (case exp_part r2 of
             None \<Rightarrow> None
           | Some (x, r3) \<Rightarrow>
               let lit = (if neg then ''-'' else []) @ ds @ f @ x in
               Some (if f = [] \<and> x = [] then JInt (int_of_text lit) else JNum lit, r3)))"

definition literal :: "string \<Rightarrow> json \<Rightarrow> string \<Rightarrow> (json \<times> string) option" where
  "literal t j s = (if take (length t) s = t then Some (j, drop (length t) s) else None)"

lemma length_skip_ws: "length (skip_ws s) \<le> length s"
  by (simp add: skip_ws_def length_dropWhile_le)

text \<open>
  The recursive descent. The length tests only serve termination: what follows a value is
  shorter than the text it was read from.
\<close>

function (sequential) parse_value :: "string \<Rightarrow> (json \<times> string) option"
  and parse_elems :: "string \<Rightarrow> (json list \<times> string) option"
  and parse_members :: "string \<Rightarrow> ((string \<times> json) list \<times> string) option" where
  "parse_value s =
     (case skip_ws s of
        [] \<Rightarrow> None
      | c # r \<Rightarrow>
          if c = CHR 0x22 then map_option (\<lambda>(t, r'). (JStr t, r')) (str_token r)
          else if c = CHR ''['' then
            (if take 1 (skip_ws r) = '']'' then Some (JArr [], drop 1 (skip_ws r))
             else map_option (\<lambda>(xs, r'). (JArr xs, r')) (parse_elems r))
          else if c = CHR ''{'' then
            (if take 1 (skip_ws r) = ''}'' then Some (JObj [], drop 1 (skip_ws r))
             else case parse_members r of
               None \<Rightarrow> None
             | Some (ms, r') \<Rightarrow> if distinct (map fst ms) then Some (JObj ms, r') else None)
          else if c = CHR ''n'' then literal ''null'' JNull (c # r)
          else if c = CHR ''t'' then literal ''true'' (JBool True) (c # r)
          else if c = CHR ''f'' then literal ''false'' (JBool False) (c # r)
          else parse_number (c # r))"
| "parse_elems s =
     (case parse_value s of
        None \<Rightarrow> None
      | Some (v, r) \<Rightarrow>
          (case skip_ws r of
             [] \<Rightarrow> None
           | c # r2 \<Rightarrow>
               if c = CHR '']'' then Some ([v], r2)
               else if c = CHR '','' \<and> length r2 < length s
               then map_option (\<lambda>(vs, r'). (v # vs, r')) (parse_elems r2)
               else None))"
| "parse_members s =
     (case skip_ws s of
        [] \<Rightarrow> None
      | q # r \<Rightarrow>
          if q \<noteq> CHR 0x22 then None
          else case str_token r of
            None \<Rightarrow> None
          | Some (k, r1) \<Rightarrow>
              (case skip_ws r1 of
                 [] \<Rightarrow> None
               | c # r2 \<Rightarrow>
                   if c = CHR '':'' \<and> length r2 < length s
                   then (case parse_value r2 of
                           None \<Rightarrow> None
                         | Some (v, r3) \<Rightarrow>
                             (case skip_ws r3 of
                                [] \<Rightarrow> None
                              | d # r4 \<Rightarrow>
                                  if d = CHR ''}'' then Some ([(k, v)], r4)
                                  else if d = CHR '','' \<and> length r4 < length s
                                  then map_option (\<lambda>(ms, r'). ((k, v) # ms, r')) (parse_members r4)
                                  else None))
                   else None))"
  by pat_completeness auto
termination
proof (relation "measure (\<lambda>x. case x of Inl s \<Rightarrow> 2 * length s
    | Inr (Inl s) \<Rightarrow> 2 * length s + 1 | Inr (Inr s) \<Rightarrow> 2 * length s + 1)", goal_cases)
  case (2 s x21 x22)
  then show ?case using length_skip_ws [of s] by simp
next
  case (3 s x21 x22)
  then show ?case using length_skip_ws [of s] by simp
qed auto

text \<open>\<open>json.Unmarshal\<close>: one value and nothing but white space after it.\<close>

definition json_parse :: "string \<Rightarrow> json option" where
  "json_parse s =
     (case parse_value s of
        None \<Rightarrow> None | Some (v, r) \<Rightarrow> if skip_ws r = [] then Some v else None)"


section \<open>Reading what was written\<close>

lemma char_of_byte_val [simp]: "char_of (byte_val c) = c"
  by (simp add: byte_val_def)

lemma byte_val_char_of [simp]: "n < 256 \<Longrightarrow> byte_val (char_of n) = n"
  by (simp add: byte_val_def)

lemma byte_val_inj: "byte_val a = byte_val b \<longleftrightarrow> a = b"
  by (simp add: byte_val_def)

declare str_body.simps [simp del]

lemma str_body_plain:
  "c \<noteq> CHR 0x22 \<Longrightarrow> c \<noteq> CHR 0x5C \<Longrightarrow> \<not> byte_val c < 32 \<Longrightarrow> str_body (c # t) = prepend [c] (str_body t)"
  by (simp add: str_body.simps(2))

lemma str_body_escape:
  "e \<noteq> CHR ''u'' \<Longrightarrow> unescape e = Some d \<Longrightarrow> str_body (CHR 0x5C # e # t) = prepend [d] (str_body t)"
  by (subst str_body.simps(2)) simp

lemma str_body_u:
  assumes "hex4 [a, b, c, d] = Some u" "u < 128"
  shows "str_body (CHR 0x5C # CHR ''u'' # a # b # c # d # t) = prepend [char_of u] (str_body t)"
  using assms by (subst str_body.simps(2)) (simp add: utf8_encode_def del: hex4.simps)

lemma unescape_simps [simp]:
  "unescape (CHR 0x22) = Some (CHR 0x22)" "unescape (CHR 0x5C) = Some (CHR 0x5C)"
  "unescape (CHR ''b'') = Some (CHR 0x08)" "unescape (CHR ''f'') = Some (CHR 0x0C)"
  "unescape (CHR ''n'') = Some (CHR 0x0A)" "unescape (CHR ''r'') = Some (CHR 0x0D)"
  "unescape (CHR ''t'') = Some (CHR 0x09)"
  by (simp_all add: unescape_def)

lemma str_body_step: "str_body (quote_byte c @ t) = prepend [c] (str_body t)"
proof -
  consider "c = CHR 0x22" | "c = CHR 0x5C" | "c = CHR 0x08" | "c = CHR 0x0C" | "c = CHR 0x0A"
    | "c = CHR 0x0D" | "c = CHR 0x09" | "\<not> byte_val c < 32" "c \<noteq> CHR 0x22" "c \<noteq> CHR 0x5C"
    | "byte_val c < 32" "c \<notin> {CHR 0x22, CHR 0x5C, CHR 0x08, CHR 0x0C, CHR 0x0A, CHR 0x0D, CHR 0x09}"
    by fastforce
  then show ?thesis
  proof cases
    case 8
    then have "quote_byte c = [c]" by (auto simp: quote_byte_def byte_val_def)
    then show ?thesis using 8 by (simp add: str_body_plain)
  next
    case 9
    have z: "hex_value (CHR ''0'') = Some 0" by (simp add: hex_value_def byte_val_def)
    have "hex4 [CHR ''0'', CHR ''0'', hex_char (byte_val c div 16), hex_char (byte_val c mod 16)] = Some (byte_val c)"
      using 9(1) by (simp add: hex_value_hex_char z)
    moreover have "quote_byte c = [CHR 0x5C, CHR ''u'', CHR ''0'', CHR ''0'',
        hex_char (byte_val c div 16), hex_char (byte_val c mod 16)]"
      using 9 by (simp add: quote_byte_def)
    ultimately show ?thesis
      using 9(1) str_body_u [of "CHR ''0''" "CHR ''0''" "hex_char (byte_val c div 16)"
          "hex_char (byte_val c mod 16)" "byte_val c" t] by simp
  qed (simp_all add: quote_byte_def str_body_escape)
qed

lemma str_body_quote: "str_body (concat (map quote_byte s) @ CHR 0x22 # rest) = Some (s, rest)"
proof (induction s)
  case Nil
  then show ?case by (simp add: str_body.simps)
next
  case (Cons c s)
  then show ?case using str_body_step [of c] by (simp add: prepend_def)
qed

lemma str_token_quote:
  "utf8_valid s \<Longrightarrow> str_token (concat (map quote_byte s) @ CHR 0x22 # rest) = Some (s, rest)"
  by (simp add: str_token_def str_body_quote)

text \<open>Integers have no superfluous leading zero, and what follows a value ends it.\<close>

lemma nat_digits_head: "n > 0 \<Longrightarrow> hd (nat_digits n) \<noteq> 0"
proof (induction n rule: nat_digits.induct)
  case (1 n)
  then show ?case by (cases "n < 10") (simp_all add: nat_digits.simps [of n])
qed

lemma nat_digits_length_1: "length (nat_digits n) > 1 \<Longrightarrow> n > 0"
  by (rule ccontr) (simp add: nat_digits.simps [of n])

definition ends_value :: "string \<Rightarrow> bool" where
  "ends_value rest \<longleftrightarrow> (case rest of [] \<Rightarrow> True
     | c # _ \<Rightarrow> \<not> is_digit c \<and> c \<noteq> CHR ''.'' \<and> c \<noteq> CHR ''e'' \<and> c \<noteq> CHR ''E'')"

lemma ends_value_simps [simp]:
  "ends_value []" "ends_value (CHR '','' # r)" "ends_value (CHR '']'' # r)" "ends_value (CHR ''}'' # r)"
  by (simp_all add: ends_value_def is_digit_def)

lemma digits_then_rest:
  assumes "list_all is_digit ds" "ends_value rest"
  shows "takeWhile is_digit (ds @ rest) = ds" "dropWhile is_digit (ds @ rest) = rest"
    "frac_part rest = Some ([], rest)" "exp_part rest = Some ([], rest)"
proof -
  have "takeWhile is_digit rest = []" "dropWhile is_digit rest = rest"
    using assms(2) by (auto simp: ends_value_def split: list.splits)
  then show "takeWhile is_digit (ds @ rest) = ds" "dropWhile is_digit (ds @ rest) = rest"
    using assms(1) by (simp_all add: list_all_iff takeWhile_append2 dropWhile_append2)
  show "frac_part rest = Some ([], rest)" "exp_part rest = Some ([], rest)"
    using assms(2) by (auto simp: frac_part_def exp_part_def ends_value_def split: list.splits)
qed

lemma parse_number_itoa:
  assumes "ends_value rest"
  shows "parse_number (itoa n @ rest) = Some (JInt n, rest)"
proof -
  let ?m = "nat (if n < 0 then - n else n)"
  let ?ds = "map digit_char (nat_digits ?m)"
  have ds: "list_all is_digit ?ds" by (rule list_all_digit_nat_digits)
  note d = digits_then_rest [OF ds assms]
  have it: "itoa n = (if n < 0 then ''-'' else []) @ ?ds" by (simp add: itoa_def)
  obtain c r where cr: "?ds = c # r" by (cases ?ds) auto
  have c: "c \<noteq> CHR ''-''" using hd_nat_digits_not_sign [OF cr] by simp
  have "hd ?ds \<noteq> CHR ''0''" if "length ?ds > 1"
  proof -
    have "?m > 0" by (rule nat_digits_length_1) (use that in simp)
    then have "hd (nat_digits ?m) \<noteq> 0" by (rule nat_digits_head)
    moreover have "hd (nat_digits ?m) < 10" by (rule nat_digits_less_10 [OF hd_in_set]) simp
    then have "(of_char (digit_char (hd (nat_digits ?m))) :: nat) = 48 + hd (nat_digits ?m)"
      by (rule digit_char_code)
    ultimately have "digit_char (hd (nat_digits ?m)) \<noteq> CHR ''0''" by auto
    then show ?thesis by (simp add: list.map_sel(1))
  qed
  moreover have "int_of_text ((if n < 0 then ''-'' else []) @ ?ds) = n"
    using int_of_text_itoa [of n] it by simp
  ultimately show ?thesis
    using d c cr unfolding it by (cases "n < 0") (auto simp: parse_number_def Let_def)
qed

lemma itoa_head:
  obtains c r where "itoa n = c # r" "is_digit c \<or> c = CHR ''-''"
proof (cases "itoa n")
  case Nil
  then show ?thesis by (simp add: itoa_def split: if_splits)
next
  case (Cons c r)
  have "is_digit c \<or> c = CHR ''-''"
    using Cons list_all_digit_nat_digits [of "nat n"] by (auto simp: itoa_def split: if_splits)
  then show ?thesis using Cons that by blast
qed

definition starts_value :: "string \<Rightarrow> bool" where
  "starts_value s \<longleftrightarrow> (case s of [] \<Rightarrow> False | c # _ \<Rightarrow> \<not> is_ws c \<and> c \<noteq> CHR '']'' \<and> c \<noteq> CHR ''}'')"

lemma starts_value_print: "json_ok j \<Longrightarrow> starts_value (json_print j @ rest)"
proof (cases j)
  case (JInt n)
  then show ?thesis
    by (rule_tac itoa_head [of n]) (auto simp: starts_value_def is_ws_def is_digit_def)
qed (auto simp: starts_value_def is_ws_def json_quote_def)

lemma skip_ws_starts: "starts_value s \<Longrightarrow> skip_ws s = s"
  by (auto simp: starts_value_def skip_ws_def split: list.splits)

lemma skip_ws_cons: "\<not> is_ws c \<Longrightarrow> skip_ws (c # s) = c # s"
  by (simp add: skip_ws_def)


declare parse_value.simps [simp del] parse_elems.simps [simp del] parse_members.simps [simp del]

lemma parse_literals:
  "parse_value (''null'' @ rest) = Some (JNull, rest)"
  "parse_value (''true'' @ rest) = Some (JBool True, rest)"
  "parse_value (''false'' @ rest) = Some (JBool False, rest)"
  by (simp_all add: parse_value.simps skip_ws_def is_ws_def literal_def)

lemma parse_int:
  assumes "ends_value rest"
  shows "parse_value (itoa n @ rest) = Some (JInt n, rest)"
proof -
  obtain c r where c: "itoa n = c # r" "is_digit c \<or> c = CHR ''-''" by (rule itoa_head)
  then have "skip_ws (itoa n @ rest) = itoa n @ rest" "c \<noteq> CHR 0x22" "c \<noteq> CHR ''[''" "c \<noteq> CHR ''{''"
    "c \<noteq> CHR ''n''" "c \<noteq> CHR ''t''" "c \<noteq> CHR ''f''"
    by (auto simp: skip_ws_def is_ws_def is_digit_def)
  then show ?thesis
    using parse_number_itoa [OF assms, of n] c(1) by (simp add: parse_value.simps)
qed

lemma parse_str:
  "utf8_valid s \<Longrightarrow> parse_value (json_quote s @ rest) = Some (JStr s, rest)"
  by (simp add: parse_value.simps json_quote_def skip_ws_def is_ws_def str_token_quote)

lemma parse_array:
  assumes "starts_value t" "parse_elems t = Some (xs, rest)"
  shows "parse_value (CHR ''['' # t) = Some (JArr xs, rest)"
  using assms
  by (cases t) (simp_all add: parse_value.simps skip_ws_def is_ws_def starts_value_def)

lemma parse_object:
  assumes "starts_value t" "parse_members t = Some (ms, rest)" "distinct (map fst ms)"
  shows "parse_value (CHR ''{'' # t) = Some (JObj ms, rest)"
  using assms
  by (cases t) (simp_all add: parse_value.simps skip_ws_def is_ws_def starts_value_def)

lemma starts_value_quote: "starts_value (json_quote k @ rest)"
  by (simp add: starts_value_def json_quote_def is_ws_def)

lemma parse_member:
  assumes k: "utf8_valid k" and v: "parse_value (t @ d # r4) = Some (v, d # r4)" and d: "\<not> is_ws d" "t \<noteq> []"
  shows "parse_members (json_quote k @ '':'' @ t @ d # r4) =
    (if d = CHR ''}'' then Some ([(k, v)], r4)
     else if d = CHR '','' then map_option (\<lambda>(ms, r'). ((k, v) # ms, r')) (parse_members r4) else None)"
proof -
  let ?s = "json_quote k @ '':'' @ t @ d # r4"
  have 1: "skip_ws ?s = CHR 0x22 # (concat (map quote_byte k) @ CHR 0x22 # CHR '':'' # t @ d # r4)"
    by (simp add: json_quote_def skip_ws_def is_ws_def)
  have 2: "str_token (concat (map quote_byte k) @ CHR 0x22 # CHR '':'' # t @ d # r4)
      = Some (k, CHR '':'' # t @ d # r4)"
    by (rule str_token_quote [OF k])
  have 3: "skip_ws (CHR '':'' # t @ d # r4) = CHR '':'' # t @ d # r4" "skip_ws (d # r4) = d # r4"
    using d by (simp_all add: skip_ws_def is_ws_def)
  show ?thesis
    unfolding parse_members.simps [of ?s] 1 list.case 2 3 using v d(2)
    by (simp add: json_quote_def 3)
qed

lemma parse_elem:
  assumes v: "parse_value (t @ d # r2) = Some (v, d # r2)" and d: "\<not> is_ws d" "t \<noteq> []"
  shows "parse_elems (t @ d # r2) =
    (if d = CHR '']'' then Some ([v], r2)
     else if d = CHR '','' then map_option (\<lambda>(vs, r'). (v # vs, r')) (parse_elems r2) else None)"
  using v d by (simp add: parse_elems.simps [of "t @ d # r2"] skip_ws_def)

lemma print_nonempty: "json_ok j \<Longrightarrow> json_print j \<noteq> []"
  using starts_value_print [of j "[]"] by (auto simp: starts_value_def)

lemma starts_value_append: "starts_value s \<Longrightarrow> starts_value (s @ t)"
  by (auto simp: starts_value_def split: list.splits)

lemma parse_print:
  "json_ok j \<Longrightarrow> ends_value rest \<Longrightarrow> parse_value (json_print j @ rest) = Some (j, rest)"
  "xs \<noteq> [] \<Longrightarrow> list_all json_ok xs \<Longrightarrow>
     parse_elems (print_elems xs @ CHR '']'' # rest') = Some (xs, rest') \<and> starts_value (print_elems xs)"
  "ms \<noteq> [] \<Longrightarrow> list_all (\<lambda>(k, v). utf8_valid k \<and> json_ok v) ms \<Longrightarrow>
     parse_members (print_members ms @ CHR ''}'' # rest') = Some (ms, rest') \<and> starts_value (print_members ms)"
proof (induction j and xs and ms arbitrary: rest and rest' and rest' rule: json_print_print_elems_print_members.induct)
  case (7 xs)
  show ?case
  proof (cases "xs = []")
    case True
    then show ?thesis by (simp add: parse_value.simps skip_ws_def is_ws_def)
  next
    case False
    then show ?thesis
      using 7 parse_array [of "print_elems xs @ CHR '']'' # rest" xs rest] by (simp add: starts_value_append)
  qed
next
  case (8 ms)
  show ?case
  proof (cases "ms = []")
    case True
    then show ?thesis by (simp add: parse_value.simps skip_ws_def is_ws_def)
  next
    case False
    then show ?thesis
      using 8 parse_object [of "print_members ms @ CHR ''}'' # rest" ms rest] by (simp add: starts_value_append)
  qed
next
  case (10 x)
  then show ?case
    using parse_elem [of "json_print x" "CHR '']''" rest' x] starts_value_print [of x "[]"]
    by (simp add: print_nonempty is_ws_def)
next
  case (11 x y xs)
  then show ?case
    using parse_elem [of "json_print x" "CHR '',''" "print_elems (y # xs) @ CHR '']'' # rest'" x]
      starts_value_print [of x]
    by (simp add: print_nonempty is_ws_def)
next
  case (13 k v)
  then show ?case
    using parse_member [of k "json_print v" "CHR ''}''" rest' v] starts_value_quote [of k]
    by (simp add: print_nonempty is_ws_def)
next
  case (14 k v m ms)
  then show ?case
    using parse_member [of k "json_print v" "CHR '',''" "print_members (m # ms) @ CHR ''}'' # rest'" v]
      starts_value_quote [of k]
    by (simp add: print_nonempty is_ws_def)
qed (simp_all add: parse_literals [simplified] parse_int parse_str)

lemma json_parse_marshal:
  assumes "json_marshal j = Inr t"
  shows "json_parse t = Some j"
  using assms parse_print(1) [of j "[]"]
  by (simp add: json_marshal_def json_parse_def skip_ws_def split: if_splits)

end
