(* ===== verification/Cache.thy ===== *)
theory Cache
  imports Tx Json_Text
begin

text \<open>
  \<open>internal/cache/cache.go\<close>: the Valkey cache of products. The server is a map from keys to a value
  and the time (milliseconds) at which it expires; \<open>SET\<close> with \<open>PX\<close>, \<open>NX\<close> and \<open>IFEQ\<close> and \<open>GET\<close> are its
  documented commands. A command meets a fault as a database call does. The random text of a
  tombstone (\<open>rand.Text()\<close>) is an argument. Durations are nanoseconds, as in Go.
\<close>

section \<open>The server\<close>

type_synonym valkey_db = "string \<Rightarrow> (string \<times> int) option"

datatype reply = ReplyOK | ReplyNil | ReplyErr go_error

definition live_value :: "int \<Rightarrow> string \<Rightarrow> valkey_db \<Rightarrow> string option" where
  "live_value now key db =
     (case db key of None \<Rightarrow> None | Some (v, ex) \<Rightarrow> if now \<le> ex then Some v else None)"

datatype set_guard = Always | Nx | Ifeq string

definition guard_ok :: "set_guard \<Rightarrow> string option \<Rightarrow> bool" where
  "guard_ok g cur = (case g of Always \<Rightarrow> True | Nx \<Rightarrow> cur = None | Ifeq t \<Rightarrow> cur = Some t)"

definition cmd_set :: "int \<Rightarrow> string \<Rightarrow> string \<Rightarrow> int \<Rightarrow> set_guard \<Rightarrow> valkey_db \<Rightarrow> reply \<times> valkey_db" where
  "cmd_set now key value ms g db =
     (if ms \<le> 0 then (ReplyErr (ErrText ''invalid expire time in 'set' command''), db)
      else if guard_ok g (live_value now key db) then (ReplyOK, db(key \<mapsto> (value, now + ms)))
      else (ReplyNil, db))"

text \<open>\<open>client.Do(...).Error()\<close>: a nil reply is an error of its own, which \<open>IsValkeyNil\<close> recognises.\<close>

definition ValkeyNil :: go_error where
  "ValkeyNil = ErrText ''valkey nil message''"

definition do_set :: "fault \<Rightarrow> reply \<times> valkey_db \<Rightarrow> valkey_db \<Rightarrow> go_error option \<times> valkey_db" where
  "do_set f r db =
     (case f of
        NoFault \<Rightarrow>
          ((case fst r of ReplyOK \<Rightarrow> None | ReplyNil \<Rightarrow> Some ValkeyNil | ReplyErr e \<Rightarrow> Some e), snd r)
      | Failed e \<Rightarrow> (Some e, db)
      | AckLost e \<Rightarrow> (Some e, snd r))"

section \<open>Operations\<close>

record money_entry =
  me_MinorAmount :: int
  me_Currency :: string

record cache_entry =
  ce_ID :: string
  ce_Name :: string
  ce_Stock :: int
  ce_Version :: int
  ce_Price :: money_entry

record entry =
  en_Product :: product
  en_Hit :: bool
  en_Found :: bool
  en_exists :: bool
  en_token :: string

record valkey =
  vk_ttl :: int
  vk_negTTL :: int

definition NewCache :: "int \<Rightarrow> int \<Rightarrow> valkey" where
  "NewCache ttl negTTL = \<lparr>vk_ttl = ttl, vk_negTTL = negTTL\<rparr>"

definition tagPayload :: char where "tagPayload = CHR ''p''"
definition tagTombstone :: char where "tagTombstone = CHR ''t''"
definition tagMissing :: char where "tagMissing = CHR ''n''"

lemmas tag_defs = tagPayload_def tagTombstone_def tagMissing_def

definition zero_product_value :: product where
  "zero_product_value = \<lparr>prod_ID = uuid_nil, prod_Name = '''',
     prod_Price = \<lparr>MinorAmount = 0, Currency = ''''\<rparr>, prod_Stock = 0, prod_Version = 0\<rparr>"

definition zero_entry :: entry where
  "zero_entry = \<lparr>en_Product = zero_product_value, en_Hit = False, en_Found = False,
     en_exists = False, en_token = []\<rparr>"

text \<open>The JSON of a cached product, and reading it back: a field that is absent or null is zero.\<close>

definition cache_entry_json :: "cache_entry \<Rightarrow> json" where
  "cache_entry_json e = JObj
     [(''id'', JStr (ce_ID e)), (''name'', JStr (ce_Name e)), (''stock'', JInt (ce_Stock e)),
      (''version'', JInt (ce_Version e)),
      (''price'', JObj [(''minorAmount'', JInt (me_MinorAmount (ce_Price e))),
                       (''currency'', JStr (me_Currency (ce_Price e)))])]"

definition get_string :: "json option \<Rightarrow> string option" where
  "get_string j = (case j of None \<Rightarrow> Some '''' | Some JNull \<Rightarrow> Some '''' | Some (JStr s) \<Rightarrow> Some s | _ \<Rightarrow> None)"

definition get_int64 :: "json option \<Rightarrow> int option" where
  "get_int64 j =
     (case j of None \<Rightarrow> Some 0 | Some JNull \<Rightarrow> Some 0
      | Some (JInt n) \<Rightarrow> if int64_ok n then Some n else None | _ \<Rightarrow> None)"

definition get_members :: "json option \<Rightarrow> (string \<times> json) list option" where
  "get_members j = (case j of None \<Rightarrow> Some [] | Some JNull \<Rightarrow> Some [] | Some (JObj ms) \<Rightarrow> Some ms | _ \<Rightarrow> None)"

definition cache_entry_of_json :: "json \<Rightarrow> cache_entry option" where
  "cache_entry_of_json j =
     (case get_members (Some j) of
        None \<Rightarrow> None
      | Some ms \<Rightarrow>
          (case (get_string (map_of ms ''id''), get_string (map_of ms ''name''), get_int64 (map_of ms ''stock''),
                 get_int64 (map_of ms ''version''), get_members (map_of ms ''price'')) of
             (Some i, Some nm, Some st, Some ver, Some pm) \<Rightarrow>
               (case (get_int64 (map_of pm ''minorAmount''), get_string (map_of pm ''currency'')) of
                  (Some ma, Some cur) \<Rightarrow>
                    Some \<lparr>ce_ID = i, ce_Name = nm, ce_Stock = st, ce_Version = ver,
                          ce_Price = \<lparr>me_MinorAmount = ma, me_Currency = cur\<rparr>\<rparr>
                | _ \<Rightarrow> None)
           | _ \<Rightarrow> None))"

definition encodeProduct :: "product \<Rightarrow> go_error + string" where
  "encodeProduct p =
     (case json_marshal (cache_entry_json
             \<lparr>ce_ID = uuid_string (prod_ID p), ce_Name = prod_Name p, ce_Stock = prod_Stock p,
              ce_Version = prod_Version p,
              ce_Price = \<lparr>me_MinorAmount = MinorAmount (prod_Price p), me_Currency = Currency (prod_Price p)\<rparr>\<rparr>) of
        Inl err \<Rightarrow> Inl err
      | Inr raw \<Rightarrow> Inr (tagPayload # raw))"

definition decodeProduct :: "string \<Rightarrow> product option" where
  "decodeProduct raw =
     (case json_parse raw of
        None \<Rightarrow> None
      | Some j \<Rightarrow>
          (case cache_entry_of_json j of
             None \<Rightarrow> None
           | Some e \<Rightarrow>
               (case uuid_parse (ce_ID e) of
                  None \<Rightarrow> None
                | Some i \<Rightarrow>
                    Some \<lparr>prod_ID = i, prod_Name = ce_Name e,
                          prod_Price = \<lparr>MinorAmount = me_MinorAmount (ce_Price e), Currency = me_Currency (ce_Price e)\<rparr>,
                          prod_Stock = ce_Stock e, prod_Version = ce_Version e\<rparr>)))"

definition classify :: "string \<Rightarrow> entry" where
  "classify raw =
     (let unknown = zero_entry\<lparr>en_exists := True, en_token := raw\<rparr> in
      case raw of
        [] \<Rightarrow> unknown
      | tag # rest \<Rightarrow>
          if tag = tagPayload then
            (case decodeProduct rest of
               Some p \<Rightarrow> zero_entry\<lparr>en_Product := p, en_Hit := True, en_Found := True, en_exists := True\<rparr>
             | None \<Rightarrow> unknown)
          else if tag = tagMissing then zero_entry\<lparr>en_Hit := True, en_exists := True\<rparr>
          else unknown)"

definition newTombstone :: "string \<Rightarrow> string" where
  "newTombstone rnd = tagTombstone # rnd"

definition milliseconds :: "int \<Rightarrow> int" where
  "milliseconds d = (if d < 0 then - (- d div 1000000) else d div 1000000)"

definition setCmd :: "int \<Rightarrow> string \<Rightarrow> string \<Rightarrow> int \<Rightarrow> entry \<Rightarrow> valkey_db \<Rightarrow> reply \<times> valkey_db" where
  "setCmd now key value ttl prev db =
     (let ms = milliseconds ttl in
      if \<not> en_exists prev then cmd_set now key value ms Nx db
      else cmd_set now key value ms (Ifeq (en_token prev)) db)"

definition guardedSet ::
  "fault \<Rightarrow> int \<Rightarrow> string \<Rightarrow> string \<Rightarrow> int \<Rightarrow> entry \<Rightarrow> valkey_db \<Rightarrow> go_error option \<times> valkey_db" where
  "guardedSet f now key value ttl prev db =
     (case do_set f (setCmd now key value ttl prev db) db of
        (Some err, db') \<Rightarrow>
          if err \<noteq> ValkeyNil then (Some (errorf_w ''set cache key: '' err), db') else (None, db')
      | (None, db') \<Rightarrow> (None, db'))"

definition cache_Set ::
  "valkey \<Rightarrow> fault \<Rightarrow> int \<Rightarrow> string \<Rightarrow> product \<Rightarrow> entry \<Rightarrow> valkey_db \<Rightarrow> go_error option \<times> valkey_db" where
  "cache_Set v f now key p prev db =
     (case encodeProduct p of
        Inl err \<Rightarrow> (Some (errorf_w ''marshal cache value: '' err), db)
      | Inr payload \<Rightarrow> guardedSet f now key payload (vk_ttl v) prev db)"

definition cache_SetMissing ::
  "valkey \<Rightarrow> fault \<Rightarrow> int \<Rightarrow> string \<Rightarrow> entry \<Rightarrow> valkey_db \<Rightarrow> go_error option \<times> valkey_db" where
  "cache_SetMissing v f now key prev db = guardedSet f now key [tagMissing] (vk_negTTL v) prev db"

definition cache_Get :: "fault \<Rightarrow> int \<Rightarrow> string \<Rightarrow> valkey_db \<Rightarrow> go_error + entry" where
  "cache_Get f now key db =
     (case f of
        NoFault \<Rightarrow>
          (case live_value now key db of None \<Rightarrow> Inr zero_entry | Some raw \<Rightarrow> Inr (classify raw))
      | Failed e \<Rightarrow> Inl (errorf_w ''get cache key: '' e)
      | AckLost e \<Rightarrow> Inl (errorf_w ''get cache key: '' e))"

definition cache_Invalidate ::
  "valkey \<Rightarrow> fault \<Rightarrow> int \<Rightarrow> string \<Rightarrow> string \<Rightarrow> valkey_db \<Rightarrow> go_error option \<times> valkey_db" where
  "cache_Invalidate v f now key rnd db =
     (case do_set f (cmd_set now key (newTombstone rnd) (milliseconds (vk_ttl v)) Always db) db of
        (Some err, db') \<Rightarrow> (Some (errorf_w ''invalidate cache key: '' err), db')
      | (None, db') \<Rightarrow> (None, db'))"

definition cache_Ping :: "fault \<Rightarrow> go_error option" where
  "cache_Ping f = (case f of NoFault \<Rightarrow> None | Failed e \<Rightarrow> Some e | AckLost e \<Rightarrow> Some e)"

section \<open>Round trips\<close>

text \<open>What the columns of a product allow is what the cache can hold.\<close>

definition cacheable :: "product \<Rightarrow> bool" where
  "cacheable p \<longleftrightarrow> utf8_valid (prod_Name p) \<and> utf8_valid (Currency (prod_Price p)) \<and> int64_ok (prod_Stock p)
     \<and> int64_ok (prod_Version p) \<and> int64_ok (MinorAmount (prod_Price p))"

lemma utf8_valid_ascii: "\<forall>c\<in>set s. byte_val c < 128 \<Longrightarrow> utf8_valid s"
  by (induction s) (simp_all add: Let_def)

lemma set_hex_digits: "c \<in> set (hex_digits k n) \<Longrightarrow> byte_val c < 128"
  by (induction k arbitrary: n) (auto simp: hex_char_def byte_val_def)

lemma utf8_valid_uuid_string: "utf8_valid (uuid_string u)"
proof (rule utf8_valid_ascii, rule ballI)
  fix c
  assume "c \<in> set (uuid_string u)"
  then have "c \<in> set (hex_digits 32 (unat u)) \<or> c = CHR ''-''"
    unfolding uuid_string_def dashed_def by (auto dest!: in_set_takeD in_set_dropD)
  then show "byte_val c < 128" using set_hex_digits by (auto simp: byte_val_def)
qed

lemma utf8_names:
  "utf8_valid ''id''" "utf8_valid ''name''" "utf8_valid ''stock''" "utf8_valid ''version''"
  "utf8_valid ''price''" "utf8_valid ''minorAmount''" "utf8_valid ''currency''"
  by (rule utf8_valid_ascii, simp add: byte_val_def)+

lemma decode_encode:
  assumes "cacheable p"
  obtains raw where "encodeProduct p = Inr (tagPayload # raw)" "decodeProduct raw = Some p"
proof -
  let ?e = "\<lparr>ce_ID = uuid_string (prod_ID p), ce_Name = prod_Name p, ce_Stock = prod_Stock p,
      ce_Version = prod_Version p, ce_Price = \<lparr>me_MinorAmount = MinorAmount (prod_Price p),
      me_Currency = Currency (prod_Price p)\<rparr>\<rparr>"
  have ok: "json_ok (cache_entry_json ?e)"
    using assms utf8_valid_uuid_string
    by (simp add: cacheable_def cache_entry_json_def utf8_names del: utf8_valid.simps)
  then have m: "json_marshal (cache_entry_json ?e) = Inr (json_print (cache_entry_json ?e))"
    by (simp add: json_marshal_def)
  have "cache_entry_of_json (cache_entry_json ?e) = Some ?e"
    using assms by (simp add: cache_entry_of_json_def cache_entry_json_def get_members_def get_string_def
        get_int64_def cacheable_def)
  then have "decodeProduct (json_print (cache_entry_json ?e)) = Some p"
    using json_parse_marshal [OF m] by (simp add: decodeProduct_def)
  moreover have "encodeProduct p = Inr (tagPayload # json_print (cache_entry_json ?e))"
    using m by (simp add: encodeProduct_def)
  ultimately show thesis using that by blast
qed

lemma classify_payload:
  assumes "cacheable p" "encodeProduct p = Inr payload"
  shows "classify payload = \<lparr>en_Product = p, en_Hit = True, en_Found = True, en_exists = True, en_token = []\<rparr>"
proof -
  obtain raw where "encodeProduct p = Inr (tagPayload # raw)" "decodeProduct raw = Some p"
    using assms(1) by (rule decode_encode)
  then show ?thesis using assms(2) by (auto simp: classify_def zero_entry_def)
qed

lemma classify_missing [simp]:
  "classify [tagMissing] = zero_entry\<lparr>en_Hit := True, en_exists := True\<rparr>"
  by (simp add: classify_def tag_defs)

lemma classify_tombstone [simp]:
  "classify (newTombstone rnd) = zero_entry\<lparr>en_exists := True, en_token := newTombstone rnd\<rparr>"
  by (simp add: classify_def newTombstone_def tag_defs)

lemma cache_set_get_at:
  assumes p: "cacheable p" and ttl: "0 < milliseconds (vk_ttl v)"
    and guard: "if en_exists prev then live_value now key db = Some (en_token prev) else live_value now key db = None"
  shows "fst (cache_Set v NoFault now key p prev db) = None
    \<and> cache_Get NoFault t k (snd (cache_Set v NoFault now key p prev db)) =
        (if k \<noteq> key then cache_Get NoFault t k db
         else if t \<le> now + milliseconds (vk_ttl v)
         then Inr \<lparr>en_Product = p, en_Hit = True, en_Found = True, en_exists = True, en_token = []\<rparr>
         else Inr zero_entry)"
proof -
  obtain raw where enc: "encodeProduct p = Inr (tagPayload # raw)" using p by (rule decode_encode)
  have "cache_Set v NoFault now key p prev db = (None, db(key \<mapsto> (tagPayload # raw, now + milliseconds (vk_ttl v))))"
    using guard ttl enc
    by (cases "en_exists prev")
      (simp_all add: cache_Set_def guardedSet_def setCmd_def cmd_set_def guard_ok_def do_set_def Let_def)
  then show ?thesis
    using classify_payload [OF p enc] by (simp add: cache_Get_def live_value_def)
qed

text \<open>
  the cache gives back what was put in. A product within the column ranges whose fill finds the
  key free (or still holding the token the reader saw) reads back, until its TTL has passed, as a
  hit carrying exactly that product; afterwards the key reads as absent.
\<close>

theorem cache_set_get:
  assumes p: "cacheable p" and ttl: "0 < milliseconds (vk_ttl v)"
    and guard: "if en_exists prev then live_value now key db = Some (en_token prev) else live_value now key db = None"
    and set: "cache_Set v NoFault now key p prev db = (r, db')"
  shows "r = None
    \<and> (\<forall>t. now \<le> t \<and> t \<le> now + milliseconds (vk_ttl v) \<longrightarrow> cache_Get NoFault t key db' =
        Inr \<lparr>en_Product = p, en_Hit = True, en_Found = True, en_exists = True, en_token = []\<rparr>)
    \<and> (\<forall>t. t > now + milliseconds (vk_ttl v) \<longrightarrow> cache_Get NoFault t key db' = Inr zero_entry)
    \<and> (\<forall>k t. k \<noteq> key \<longrightarrow> cache_Get NoFault t k db' = cache_Get NoFault t k db)"
  using cache_set_get_at [OF p ttl guard] set by (auto simp: prod_eq_iff)

definition sample_cached :: product where
  "sample_cached = \<lparr>prod_ID = 9, prod_Name = ''a'' @ [CHR 0x22], prod_Price = \<lparr>MinorAmount = 5, Currency = ''EUR''\<rparr>,
     prod_Stock = 3, prod_Version = 2\<rparr>"

lemma cacheable_sample: "cacheable sample_cached"
  by (simp add: cacheable_def sample_cached_def int64_ok_def byte_val_def)

theorem cache_set_get_witness:
  "cache_Get NoFault 40 ''k'' (snd (cache_Set (NewCache 1000000000 1000000000) NoFault 7 ''k'' sample_cached zero_entry
       (\<lambda>_. None)))
   = Inr \<lparr>en_Product = sample_cached, en_Hit = True, en_Found = True, en_exists = True, en_token = []\<rparr>"
proof -
  have ms: "milliseconds (vk_ttl (NewCache 1000000000 1000000000)) = 1000"
    by (simp add: milliseconds_def NewCache_def)
  have g: "if en_exists zero_entry then live_value 7 ''k'' (\<lambda>_. None) = Some (en_token zero_entry)
      else live_value 7 ''k'' (\<lambda>_. None) = None"
    by (simp add: zero_entry_def live_value_def)
  show ?thesis
    using cache_set_get [OF cacheable_sample _ g surjective_pairing, of "NewCache 1000000000 1000000000"] ms by simp
qed

end
