(* ===== verification/Cache_Protocol.thy ===== *)
theory Cache_Protocol
  imports Cache
begin

text \<open>
  The interleavings of readers and writers on one key, across any number of service processes
  (\<open>internal/service/service.go\<close> over \<open>internal/cache/cache.go\<close>). A reader that missed reads the key
  again inside its flight, then the row, then fills under its guard, all before the deadline
  the load timeout sets; a writer commits, then tombstones the key. Steps of different
  readers and writers interleave freely, and time passes between them. Each step is the cache
  operation of the code; the row is what the database holds at that moment.
\<close>

section \<open>Steps\<close>

record flight =
  fl_prev :: entry
  fl_deadline :: int
  fl_read :: "product option option"

record protocol =
  cp_row :: "product option"
  cp_vk :: valkey_db
  cp_now :: int
  cp_flights :: "nat \<Rightarrow> flight option"
  cp_pending :: nat
  cp_used :: "string set"

text \<open>
  \<open>cp_pending\<close> counts the writers between their commit and their tombstone, \<open>cp_used\<close> is the set of
  tombstones written so far: random tombstones do not repeat. \<open>lt\<close> is the load timeout in
  milliseconds.
\<close>

inductive protocol_step :: "valkey \<Rightarrow> string \<Rightarrow> int \<Rightarrow> protocol \<Rightarrow> protocol \<Rightarrow> bool" for v key lt where
  tick: "0 \<le> d \<Longrightarrow> \<forall>i fl. cp_flights s i = Some fl \<longrightarrow> cp_now s + d \<le> fl_deadline fl \<Longrightarrow>
    protocol_step v key lt s (s\<lparr>cp_now := cp_now s + d\<rparr>)"
| timeout: "protocol_step v key lt s (s\<lparr>cp_flights := (cp_flights s)(i := None)\<rparr>)"
| load_get: "cp_flights s i = None \<Longrightarrow> cache_Get NoFault (cp_now s) key (cp_vk s) = Inr e \<Longrightarrow> \<not> en_Hit e \<Longrightarrow>
    cp_now s \<le> dl \<Longrightarrow> dl \<le> cp_now s + lt \<Longrightarrow>
    protocol_step v key lt s
      (s\<lparr>cp_flights := (cp_flights s)(i \<mapsto> \<lparr>fl_prev = e, fl_deadline = dl, fl_read = None\<rparr>)\<rparr>)"
| load_read: "cp_flights s i = Some fl \<Longrightarrow> fl_read fl = None \<Longrightarrow>
    protocol_step v key lt s (s\<lparr>cp_flights := (cp_flights s)(i \<mapsto> fl\<lparr>fl_read := Some (cp_row s)\<rparr>)\<rparr>)"
| fill: "cp_flights s i = Some fl \<Longrightarrow> fl_read fl = Some (Some p) \<Longrightarrow>
    cache_Set v f (cp_now s) key p (fl_prev fl) (cp_vk s) = (r, vk') \<Longrightarrow>
    protocol_step v key lt s (s\<lparr>cp_vk := vk', cp_flights := (cp_flights s)(i := None)\<rparr>)"
| fill_missing: "cp_flights s i = Some fl \<Longrightarrow> fl_read fl = Some None \<Longrightarrow>
    cache_SetMissing v f (cp_now s) key (fl_prev fl) (cp_vk s) = (r, vk') \<Longrightarrow>
    protocol_step v key lt s (s\<lparr>cp_vk := vk', cp_flights := (cp_flights s)(i := None)\<rparr>)"
| commit: "(\<forall>p. row' = Some p \<longrightarrow> cacheable p) \<Longrightarrow>
    protocol_step v key lt s (s\<lparr>cp_row := row', cp_pending := Suc (cp_pending s)\<rparr>)"
| invalidate: "cp_pending s = Suc n \<Longrightarrow> newTombstone rnd \<notin> cp_used s \<Longrightarrow> f = NoFault \<or> f = AckLost e \<Longrightarrow>
    cache_Invalidate v f (cp_now s) key rnd (cp_vk s) = (r, vk') \<Longrightarrow>
    protocol_step v key lt s
      (s\<lparr>cp_vk := vk', cp_pending := n, cp_used := insert (newTombstone rnd) (cp_used s)\<rparr>)"

definition protocol_init :: "string \<Rightarrow> protocol \<Rightarrow> bool" where
  "protocol_init key s \<longleftrightarrow> cp_vk s key = None \<and> (\<forall>i. cp_flights s i = None) \<and> cp_pending s = 0
     \<and> cp_used s = {} \<and> (\<forall>p. cp_row s = Some p \<longrightarrow> cacheable p)"

inductive protocol_reach :: "valkey \<Rightarrow> string \<Rightarrow> int \<Rightarrow> protocol \<Rightarrow> bool" for v key lt where
  start: "protocol_init key s \<Longrightarrow> protocol_reach v key lt s"
| move: "protocol_reach v key lt s \<Longrightarrow> protocol_step v key lt s s' \<Longrightarrow> protocol_reach v key lt s'"

section \<open>What the cache commands do to the key\<close>

definition guard_of :: "entry \<Rightarrow> set_guard" where
  "guard_of e = (if en_exists e then Ifeq (en_token e) else Nx)"

lemma guardedSet_effect:
  assumes "guardedSet f now key x ttl prev vk = (r, vk')"
  shows "vk' = vk \<or> guard_ok (guard_of prev) (live_value now key vk)
    \<and> vk' = vk(key \<mapsto> (x, now + milliseconds ttl))"
  using assms
  by (auto simp: guardedSet_def setCmd_def cmd_set_def do_set_def guard_of_def Let_def
      split: fault.splits reply.splits if_splits)

lemma invalidate_effect:
  assumes "cache_Invalidate v f now key rnd vk = (r, vk')" "f = NoFault \<or> f = AckLost e"
    and "0 < milliseconds (vk_ttl v)"
  shows "vk' = vk(key \<mapsto> (newTombstone rnd, now + milliseconds (vk_ttl v)))"
  using assms
  by (auto simp: cache_Invalidate_def cmd_set_def do_set_def guard_ok_def split: option.splits)

section \<open>The invariant\<close>

definition agrees :: "entry \<Rightarrow> product option \<Rightarrow> bool" where
  "agrees e row \<longleftrightarrow> row = (if en_Found e then Some (en_Product e) else None)"

text \<open>A flight is blocked when its guard cannot succeed before its deadline.\<close>

definition blocked :: "string \<Rightarrow> protocol \<Rightarrow> flight \<Rightarrow> bool" where
  "blocked key s fl \<longleftrightarrow>
     (if en_exists (fl_prev fl)
      then \<forall>raw ex. cp_vk s key = Some (raw, ex) \<longrightarrow> raw \<noteq> en_token (fl_prev fl)
      else \<exists>raw ex. cp_vk s key = Some (raw, ex) \<and> fl_deadline fl \<le> ex)"

definition flight_ok :: "string \<Rightarrow> int \<Rightarrow> protocol \<Rightarrow> flight \<Rightarrow> bool" where
  "flight_ok key lt s fl \<longleftrightarrow>
     cp_now s \<le> fl_deadline fl \<and> fl_deadline fl \<le> cp_now s + lt
     \<and> (en_exists (fl_prev fl) \<longrightarrow> en_token (fl_prev fl) \<in> cp_used s)
     \<and> (\<forall>p. fl_read fl = Some (Some p) \<longrightarrow> cacheable p)
     \<and> (cp_pending s = 0 \<and> fl_read fl \<noteq> None \<and> fl_read fl \<noteq> Some (cp_row s) \<longrightarrow> blocked key s fl)"

definition protocol_inv :: "string \<Rightarrow> int \<Rightarrow> protocol \<Rightarrow> bool" where
  "protocol_inv key lt s \<longleftrightarrow>
     (\<forall>p. cp_row s = Some p \<longrightarrow> cacheable p)
     \<and> (\<forall>t\<in>cp_used s. \<exists>rnd. t = newTombstone rnd)
     \<and> (\<forall>raw ex. cp_vk s key = Some (raw, ex) \<longrightarrow>
          raw \<in> cp_used s \<or> en_Hit (classify raw) \<and> (cp_pending s = 0 \<longrightarrow> agrees (classify raw) (cp_row s)))
     \<and> (\<forall>i fl. cp_flights s i = Some fl \<longrightarrow> flight_ok key lt s fl)"

lemma hit_not_tombstone: "en_Hit (classify raw) \<Longrightarrow> raw \<noteq> newTombstone rnd"
  by (auto simp: zero_entry_def)

lemma protocol_inv_init: "protocol_init key s \<Longrightarrow> protocol_inv key lt s"
  by (simp add: protocol_init_def protocol_inv_def)

text \<open>A fill either changes nothing, or passed its guard: then its flight was not blocked.\<close>

lemma fill_keeps_inv:
  assumes inv: "protocol_inv key lt s" and fl: "cp_flights s i = Some fl" and rd: "fl_read fl = Some row"
    and set: "guardedSet f (cp_now s) key x ttl (fl_prev fl) (cp_vk s) = (r, vk')"
    and x: "en_Hit (classify x)" "agrees (classify x) row" and ttl: "lt \<le> milliseconds ttl"
  shows "protocol_inv key lt (s\<lparr>cp_vk := vk', cp_flights := (cp_flights s)(i := None)\<rparr>)"
  using guardedSet_effect [OF set]
proof
  assume "vk' = cp_vk s"
  then show ?thesis using inv by (auto simp: protocol_inv_def flight_ok_def blocked_def)
next
  assume g: "guard_ok (guard_of (fl_prev fl)) (live_value (cp_now s) key (cp_vk s))
    \<and> vk' = (cp_vk s)(key \<mapsto> (x, cp_now s + milliseconds ttl))"
  have ok: "flight_ok key lt s fl" using inv fl by (auto simp: protocol_inv_def)
  have nb: "\<not> blocked key s fl"
    using g ok
    by (auto simp: blocked_def guard_of_def guard_ok_def live_value_def flight_ok_def
        split: if_splits option.splits)
  have row: "cp_pending s = 0 \<longrightarrow> row = cp_row s"
    using nb ok rd by (auto simp: flight_ok_def)
  have others: "flight_ok key lt (s\<lparr>cp_vk := vk', cp_flights := (cp_flights s)(i := None)\<rparr>) fl'"
    if "cp_flights s j = Some fl'" for j fl'
  proof -
    have ok': "flight_ok key lt s fl'" using inv that by (auto simp: protocol_inv_def)
    have "x \<noteq> en_token (fl_prev fl')" if ex: "en_exists (fl_prev fl')"
    proof -
      have "en_token (fl_prev fl') \<in> cp_used s" using ex ok' by (simp add: flight_ok_def)
      then obtain rnd where "en_token (fl_prev fl') = newTombstone rnd"
        using inv by (auto simp: protocol_inv_def)
      then show ?thesis using hit_not_tombstone [OF x(1)] by metis
    qed
    moreover have "fl_deadline fl' \<le> cp_now s + milliseconds ttl"
      using ok' ttl by (simp add: flight_ok_def)
    ultimately show ?thesis using ok' g by (auto simp: flight_ok_def blocked_def)
  qed
  show ?thesis
    using inv g x row others by (auto simp: protocol_inv_def)
qed

lemma load_get_inv:
  assumes inv: "protocol_inv key lt s" and get: "cache_Get NoFault (cp_now s) key (cp_vk s) = Inr e" "\<not> en_Hit e"
  shows "en_exists e \<Longrightarrow> en_token e \<in> cp_used s"
proof -
  assume ex: "en_exists e"
  then obtain raw t where raw: "cp_vk s key = Some (raw, t)" "e = classify raw"
    using get(1) by (auto simp: cache_Get_def live_value_def zero_entry_def split: option.splits if_splits)
  then have "raw \<in> cp_used s" using inv get(2) unfolding protocol_inv_def by blast
  moreover from this obtain rnd where "raw = newTombstone rnd" using inv by (auto simp: protocol_inv_def)
  ultimately show ?thesis using raw(2) by simp
qed

lemma protocol_step_inv:
  assumes step: "protocol_step v key lt s s'" and inv: "protocol_inv key lt s"
    and ttl: "0 < milliseconds (vk_ttl v)" "lt \<le> milliseconds (vk_ttl v)" "lt \<le> milliseconds (vk_negTTL v)"
  shows "protocol_inv key lt s'"
  using step
proof cases
  case (tick d)
  then show ?thesis using inv by (fastforce simp: protocol_inv_def flight_ok_def blocked_def)
next
  case (timeout i)
  then show ?thesis using inv by (auto simp: protocol_inv_def flight_ok_def blocked_def)
next
  case (load_get i e dl)
  then show ?thesis
    using inv load_get_inv [OF inv load_get(3,4)] by (auto simp: protocol_inv_def flight_ok_def blocked_def)
next
  case (load_read i fl)
  then have "flight_ok key lt s fl" using inv by (auto simp: protocol_inv_def)
  then show ?thesis
    using load_read inv by (auto simp: protocol_inv_def flight_ok_def blocked_def)
next
  case (fill i fl p f r vk')
  have p: "cacheable p" using inv fill(2,3) by (auto simp: protocol_inv_def flight_ok_def)
  then obtain raw where enc: "encodeProduct p = Inr (tagPayload # raw)" by (rule decode_encode)
  have cl: "classify (tagPayload # raw)
      = \<lparr>en_Product = p, en_Hit = True, en_Found = True, en_exists = True, en_token = []\<rparr>"
    by (rule classify_payload [OF p enc])
  have set: "guardedSet f (cp_now s) key (tagPayload # raw) (vk_ttl v) (fl_prev fl) (cp_vk s) = (r, vk')"
    using fill(4) enc by (simp add: cache_Set_def)
  show ?thesis
    unfolding fill(1)
    by (rule fill_keeps_inv [OF inv fill(2,3) set]) (simp_all add: cl agrees_def ttl)
next
  case (fill_missing i fl f r vk')
  have set: "guardedSet f (cp_now s) key [tagMissing] (vk_negTTL v) (fl_prev fl) (cp_vk s) = (r, vk')"
    using fill_missing(4) by (simp add: cache_SetMissing_def)
  show ?thesis
    unfolding fill_missing(1)
    by (rule fill_keeps_inv [OF inv fill_missing(2,3) set]) (simp_all add: agrees_def zero_entry_def ttl)
next
  case (commit row')
  then show ?thesis using inv by (auto simp: protocol_inv_def flight_ok_def)
next
  case (invalidate n rnd f e r vk')
  have vk': "vk' = (cp_vk s)(key \<mapsto> (newTombstone rnd, cp_now s + milliseconds (vk_ttl v)))"
    by (rule invalidate_effect [OF invalidate(5,4) ttl(1)])
  have "flight_ok key lt s' fl" if fl: "cp_flights s j = Some fl" for j fl
  proof -
    have ok: "flight_ok key lt s fl" using inv fl by (auto simp: protocol_inv_def)
    have "fl_deadline fl \<le> cp_now s + milliseconds (vk_ttl v)" using ok ttl(2) by (simp add: flight_ok_def)
    then show ?thesis
      using ok vk' invalidate(1,3) by (auto simp: flight_ok_def blocked_def)
  qed
  then show ?thesis using inv invalidate(1) vk' by (auto simp: protocol_inv_def)
qed

lemma protocol_reach_inv:
  assumes "protocol_reach v key lt s"
    and "0 < milliseconds (vk_ttl v)" "lt \<le> milliseconds (vk_ttl v)" "lt \<le> milliseconds (vk_negTTL v)"
  shows "protocol_inv key lt s"
  using assms(1) by induction (auto intro: protocol_inv_init protocol_step_inv [OF _ _ assms(2-4)])


section \<open>Coherence\<close>

lemma hit_is_current:
  assumes "protocol_reach v key lt s"
    and "0 < milliseconds (vk_ttl v)" "lt \<le> milliseconds (vk_ttl v)" "lt \<le> milliseconds (vk_negTTL v)"
    and "cp_pending s = 0" "cache_Get NoFault (cp_now s) key (cp_vk s) = Inr e" "en_Hit e"
  shows "cp_row s = (if en_Found e then Some (en_Product e) else None)"
proof -
  have inv: "protocol_inv key lt s" by (rule protocol_reach_inv [OF assms(1-4)])
  obtain raw t where raw: "cp_vk s key = Some (raw, t)" "e = classify raw"
    using assms(6,7) by (auto simp: cache_Get_def live_value_def zero_entry_def split: option.splits if_splits)
  have "raw \<notin> cp_used s"
    using inv assms(7) raw(2) hit_not_tombstone unfolding protocol_inv_def by metis
  then have "agrees e (cp_row s)" using inv raw assms(5) by (auto simp: protocol_inv_def)
  then show ?thesis by (simp add: agrees_def)
qed

text \<open>
  C15: a reader that raced a writer never restores stale data. In every interleaving of readers and
  writers, across processes and over time, whenever no writer stands between its commit and its
  tombstone, a cache hit says what the database says: the current product for a found entry, that
  there is none for a cached absence. This needs the load timeout not to exceed either TTL.
\<close>

theorem cache_hit_is_current:
  assumes "protocol_reach v key lt s"
    and "0 < milliseconds (vk_ttl v)" "lt \<le> milliseconds (vk_ttl v)" "lt \<le> milliseconds (vk_negTTL v)"
    and "cp_pending s = 0" "cache_Get NoFault (cp_now s) key (cp_vk s) = Inr e" "en_Hit e"
  shows "cp_row s = (if en_Found e then Some (en_Product e) else None)"
  using hit_is_current [OF assms] .

definition sample_start :: "product option \<Rightarrow> protocol" where
  "sample_start row = \<lparr>cp_row = row, cp_vk = (\<lambda>_. None), cp_now = 0, cp_flights = (\<lambda>_. None),
     cp_pending = 0, cp_used = {}\<rparr>"

lemma sample_start_reach: "protocol_reach v key lt (sample_start (Some sample_cached))"
  by (rule start) (simp add: protocol_init_def sample_start_def cacheable_sample)

lemma sample_flight_reach:
  assumes "0 \<le> lt"
  shows "protocol_reach v ''k'' lt ((sample_start (Some sample_cached))\<lparr>cp_flights := [0 \<mapsto>
    \<lparr>fl_prev = zero_entry, fl_deadline = lt, fl_read = Some (Some sample_cached)\<rparr>]\<rparr>)"
proof -
  let ?s1 = "(sample_start (Some sample_cached))\<lparr>cp_flights := [0 \<mapsto>
    \<lparr>fl_prev = zero_entry, fl_deadline = lt, fl_read = None\<rparr>]\<rparr>"
  have get: "cache_Get NoFault 0 ''k'' (\<lambda>_. None) = Inr zero_entry"
    by (simp add: cache_Get_def live_value_def)
  have "protocol_step v ''k'' lt (sample_start (Some sample_cached)) ?s1"
    using load_get [of "sample_start (Some sample_cached)" 0 "''k''" zero_entry lt lt v] get assms
    by (simp add: sample_start_def zero_entry_def)
  then have 1: "protocol_reach v ''k'' lt ?s1" by (rule move [OF sample_start_reach])
  have "protocol_step v ''k'' lt ?s1 ((sample_start (Some sample_cached))\<lparr>cp_flights := [0 \<mapsto>
    \<lparr>fl_prev = zero_entry, fl_deadline = lt, fl_read = Some (Some sample_cached)\<rparr>]\<rparr>)"
    using load_read [of ?s1 0 "\<lparr>fl_prev = zero_entry, fl_deadline = lt, fl_read = None\<rparr>" v "''k''" lt]
    by (simp add: sample_start_def)
  then show ?thesis by (rule move [OF 1])
qed

definition sample_filled :: "valkey \<Rightarrow> int \<Rightarrow> valkey_db \<Rightarrow> valkey_db" where
  "sample_filled v now vk = snd (cache_Set v NoFault now ''k'' sample_cached zero_entry vk)"

lemma sample_filled_get:
  assumes "0 < milliseconds (vk_ttl v)" "live_value now ''k'' vk = None"
  shows "cache_Get NoFault now ''k'' (sample_filled v now vk) = Inr
    \<lparr>en_Product = sample_cached, en_Hit = True, en_Found = True, en_exists = True, en_token = []\<rparr>"
  using cache_set_get_at [OF cacheable_sample assms(1), of zero_entry now "''k''" vk] assms
  by (simp add: sample_filled_def zero_entry_def)

theorem cache_hit_is_current_witness:
  "\<exists>s e. protocol_reach (NewCache 2000000000 2000000000) ''k'' 1000 s \<and> cp_pending s = 0
     \<and> cache_Get NoFault (cp_now s) ''k'' (cp_vk s) = Inr e \<and> en_Hit e
     \<and> cp_row s = (if en_Found e then Some (en_Product e) else None)"
proof -
  let ?v = "NewCache 2000000000 2000000000"
  have ms: "milliseconds (vk_ttl ?v) = 2000" "milliseconds (vk_negTTL ?v) = 2000"
    by (simp_all add: milliseconds_def NewCache_def)
  let ?s1 = "(sample_start (Some sample_cached))\<lparr>cp_flights := [0 \<mapsto>
    \<lparr>fl_prev = zero_entry, fl_deadline = 1000, fl_read = Some (Some sample_cached)\<rparr>]\<rparr>"
  let ?s = "?s1\<lparr>cp_vk := sample_filled ?v 0 (\<lambda>_. None), cp_flights := (cp_flights ?s1)(0 := None)\<rparr>"
  have "protocol_step ?v ''k'' 1000 ?s1 ?s"
    by (rule fill [where f = NoFault and p = sample_cached
          and fl = "\<lparr>fl_prev = zero_entry, fl_deadline = 1000, fl_read = Some (Some sample_cached)\<rparr>"
          and r = "fst (cache_Set ?v NoFault 0 ''k'' sample_cached zero_entry (\<lambda>_. None))"])
      (simp_all add: sample_start_def sample_filled_def)
  then have reach: "protocol_reach ?v ''k'' 1000 ?s" using move [OF sample_flight_reach] by simp
  have get: "cache_Get NoFault (cp_now ?s) ''k'' (cp_vk ?s) = Inr
      \<lparr>en_Product = sample_cached, en_Hit = True, en_Found = True, en_exists = True, en_token = []\<rparr>"
    using sample_filled_get [of ?v 0 "\<lambda>_. None"] ms by (simp add: sample_start_def live_value_def)
  have pend: "cp_pending ?s = 0" by (simp add: sample_start_def)
  show ?thesis
    using cache_hit_is_current [OF reach _ _ _ pend get] reach get pend ms by fastforce
qed

text \<open>
  The condition on the load timeout is needed. With a TTL of one second
  and a load timeout of five, a reader that read the row before a write and fills two seconds
  after it puts the old product back: the tombstone it should have met has expired. The cache then
  answers the old product although the writer has committed and tombstoned the key.
\<close>

lemma short_ttl_restores_stale:
  "\<exists>s e. protocol_reach (NewCache 1000000000 1000000000) ''k'' 5000 s \<and> cp_pending s = 0
     \<and> cache_Get NoFault (cp_now s) ''k'' (cp_vk s) = Inr e \<and> en_Hit e
     \<and> cp_row s = Some (sample_cached\<lparr>prod_Stock := 0\<rparr>) \<and> en_Product e = sample_cached"
proof -
  let ?v = "NewCache 1000000000 1000000000"
  let ?new = "sample_cached\<lparr>prod_Stock := 0\<rparr>"
  let ?fl = "\<lparr>fl_prev = zero_entry, fl_deadline = 5000, fl_read = Some (Some sample_cached)\<rparr>"
  have ms: "milliseconds (vk_ttl ?v) = 1000" by (simp add: milliseconds_def NewCache_def)
  let ?s1 = "(sample_start (Some sample_cached))\<lparr>cp_flights := [0 \<mapsto> ?fl]\<rparr>"
  let ?s2 = "?s1\<lparr>cp_row := Some ?new, cp_pending := Suc 0\<rparr>"
  let ?vk3 = "[''k'' \<mapsto> (newTombstone ''x'', 1000)]"
  let ?s3 = "?s2\<lparr>cp_vk := ?vk3, cp_pending := 0, cp_used := {newTombstone ''x''}\<rparr>"
  let ?s4 = "?s3\<lparr>cp_now := 2000\<rparr>"
  let ?s5 = "?s4\<lparr>cp_vk := sample_filled ?v 2000 ?vk3, cp_flights := (cp_flights ?s4)(0 := None)\<rparr>"
  have "cacheable ?new" using cacheable_sample by (simp add: cacheable_def int64_ok_def)
  then have "protocol_step ?v ''k'' 5000 ?s1 ?s2"
    using commit [of "Some ?new" ?v "''k''" 5000 ?s1] by (simp add: sample_start_def)
  then have 2: "protocol_reach ?v ''k'' 5000 ?s2" using move [OF sample_flight_reach] by simp
  have inv: "cache_Invalidate ?v NoFault 0 ''k'' ''x'' (\<lambda>_. None) = (None, ?vk3)"
    by (simp add: cache_Invalidate_def cmd_set_def do_set_def guard_ok_def ms)
  have "protocol_step ?v ''k'' 5000 ?s2 ?s3"
    using invalidate [of ?s2 0 "''x''" NoFault undefined ?v "''k''" None ?vk3 5000] inv
    by (simp add: sample_start_def)
  then have 3: "protocol_reach ?v ''k'' 5000 ?s3" by (rule move [OF 2])
  have "protocol_step ?v ''k'' 5000 ?s3 ?s4"
    using tick [of 2000 ?s3 ?v "''k''" 5000] by (simp add: sample_start_def)
  then have 4: "protocol_reach ?v ''k'' 5000 ?s4" by (rule move [OF 3])
  have "protocol_step ?v ''k'' 5000 ?s4 ?s5"
    by (rule fill [where f = NoFault and p = sample_cached and fl = ?fl
          and r = "fst (cache_Set ?v NoFault 2000 ''k'' sample_cached zero_entry ?vk3)"])
      (simp_all add: sample_start_def sample_filled_def)
  then have 5: "protocol_reach ?v ''k'' 5000 ?s5" by (rule move [OF 4])
  have get: "cache_Get NoFault (cp_now ?s5) ''k'' (cp_vk ?s5) = Inr
      \<lparr>en_Product = sample_cached, en_Hit = True, en_Found = True, en_exists = True, en_token = []\<rparr>"
    using sample_filled_get [of ?v 2000 ?vk3] ms by (simp add: live_value_def)
  show ?thesis
    by (intro exI [of _ ?s5] exI [of _ "\<lparr>en_Product = sample_cached, en_Hit = True, en_Found = True,
        en_exists = True, en_token = []\<rparr>"] conjI 5 get) simp_all
qed

end
