(* ===== verification/Service.thy ===== *)
theory Service
  imports Idempotency_Store Cache_Protocol
begin

text \<open>
  \<open>internal/service/service.go\<close> and \<open>callgroup.go\<close>: the operations both transports call, over the
  store and the cache. The state is the connection, the cache server, the time in milliseconds
  and the faults the next cache commands meet. Ids and random tombstones the code draws are
  arguments. Log lines are left out. \<open>callGroup.Do\<close> runs one call per key at a time and
  shares its result, so on its own it is the call; concurrent loads are the subject of the
  protocol theory.
\<close>

section \<open>Operations\<close>

record svc =
  sv_conn :: conn
  sv_vk :: valkey_db
  sv_time :: int
  sv_faults :: "fault list"

record service =
  srv_cache :: valkey
  srv_loadTimeout :: int

type_synonym 'a svc_op = "svc \<Rightarrow> (go_error + 'a) \<times> svc"

definition NewService :: "valkey \<Rightarrow> int \<Rightarrow> service" where
  "NewService c loadTimeout = \<lparr>srv_cache = c, srv_loadTimeout = loadTimeout\<rparr>"

definition on_store :: "'a tx \<Rightarrow> 'a svc_op" where
  "on_store m sv = (case m (sv_conn sv) of (r, c) \<Rightarrow> (r, sv\<lparr>sv_conn := c\<rparr>))"

definition next_cache_fault :: "svc \<Rightarrow> fault \<times> svc" where
  "next_cache_fault sv =
     (case sv_faults sv of [] \<Rightarrow> (NoFault, sv) | f # r \<Rightarrow> (f, sv\<lparr>sv_faults := r\<rparr>))"

definition svc_Get :: "string \<Rightarrow> svc \<Rightarrow> (go_error + entry) \<times> svc" where
  "svc_Get key sv =
     (case next_cache_fault sv of (f, sv1) \<Rightarrow> (cache_Get f (sv_time sv1) key (sv_vk sv1), sv1))"

definition on_cache ::
  "(fault \<Rightarrow> int \<Rightarrow> valkey_db \<Rightarrow> go_error option \<times> valkey_db) \<Rightarrow> svc \<Rightarrow> go_error option \<times> svc" where
  "on_cache m sv =
     (case next_cache_fault sv of
        (f, sv1) \<Rightarrow> (case m f (sv_time sv1) (sv_vk sv1) of (r, vk') \<Rightarrow> (r, sv1\<lparr>sv_vk := vk'\<rparr>)))"

definition productFrom :: "entry \<Rightarrow> go_error + product" where
  "productFrom e = (if \<not> en_Found e then Inl (errorf_w ''find product: '' ErrNotFound) else Inr (en_Product e))"

definition service_fill :: "service \<Rightarrow> string \<Rightarrow> entry \<Rightarrow> go_error + product \<Rightarrow> svc \<Rightarrow> svc" where
  "service_fill srv key prev load sv =
     (case load of
        Inr p \<Rightarrow> snd (on_cache (\<lambda>f now. cache_Set (srv_cache srv) f now key p prev) sv)
      | Inl loadErr \<Rightarrow>
          if errors_is loadErr ErrNotFound
          then snd (on_cache (\<lambda>f now. cache_SetMissing (srv_cache srv) f now key prev) sv)
          else sv)"

definition service_invalidate :: "service \<Rightarrow> string \<Rightarrow> uuid \<Rightarrow> svc \<Rightarrow> svc" where
  "service_invalidate srv rnd i sv =
     (let key = uuid_string i in
      snd (on_cache (\<lambda>f now. cache_Invalidate (srv_cache srv) f now key rnd) sv))"

definition callGroup_Do :: "'a svc_op \<Rightarrow> 'a svc_op" where
  "callGroup_Do fn sv = fn sv"

definition service_loadProduct :: "service \<Rightarrow> uuid \<Rightarrow> product svc_op" where
  "service_loadProduct srv i =
     (let key = uuid_string i in
      callGroup_Do
        (\<lambda>sv. case svc_Get key sv of
           (Inr entry, sv1) \<Rightarrow>
             if en_Hit entry then (productFrom entry, sv1)
             else (case on_store (store_FindByID i) sv1 of
                     (r, sv2) \<Rightarrow> (r, service_fill srv key entry r sv2))
         | (Inl cacheErr, sv1) \<Rightarrow> on_store (store_FindByID i) sv1))"

definition service_FindByID :: "service \<Rightarrow> uuid \<Rightarrow> product svc_op" where
  "service_FindByID srv i sv =
     (let key = uuid_string i in
      case svc_Get key sv of
        (Inr entry, sv1) \<Rightarrow>
          if en_Hit entry then (productFrom entry, sv1) else service_loadProduct srv i sv1
      | (Inl err, sv1) \<Rightarrow> service_loadProduct srv i sv1)"

definition service_Create :: "uuid \<Rightarrow> uuid \<Rightarrow> timestamp \<Rightarrow> product \<Rightarrow> product svc_op" where
  "service_Create newV7 eid at p = on_store (store_Save eid at (p\<lparr>prod_ID := newV7\<rparr>))"

definition service_FindAll :: "cursor \<Rightarrow> int \<Rightarrow> product_page svc_op" where
  "service_FindAll c limit = on_store (store_FindAll c limit)"

definition service_Update :: "service \<Rightarrow> string \<Rightarrow> uuid \<Rightarrow> timestamp \<Rightarrow> product \<Rightarrow> product svc_op" where
  "service_Update srv rnd eid at p sv =
     (case on_store (store_Update eid at p) sv of
        (Inl err, sv1) \<Rightarrow> (Inl err, sv1)
      | (Inr updated, sv1) \<Rightarrow> (Inr updated, service_invalidate srv rnd (prod_ID p) sv1))"

definition service_Delete :: "service \<Rightarrow> string \<Rightarrow> uuid \<Rightarrow> timestamp \<Rightarrow> uuid \<Rightarrow> unit svc_op" where
  "service_Delete srv rnd eid at i sv =
     (case on_store (store_Delete eid at i) sv of
        (Inl err, sv1) \<Rightarrow> (Inl err, sv1)
      | (Inr _, sv1) \<Rightarrow> (Inr (), service_invalidate srv rnd i sv1))"

definition new_order :: "uuid \<Rightarrow> uuid \<Rightarrow> uuid \<Rightarrow> int \<Rightarrow> order" where
  "new_order newV7 userID productID qty =
     \<lparr>ord_ID = newV7, ord_UserID = userID, ord_ProductID = productID, ord_Quantity = qty,
      ord_UnitPrice = \<lparr>MinorAmount = 0, Currency = ''''\<rparr>, ord_CreatedAt = 0\<rparr>"

definition service_CreateOrder ::
  "(string \<Rightarrow> string) \<Rightarrow> postgres \<Rightarrow> service \<Rightarrow> string \<Rightarrow> uuid \<Rightarrow> uuid \<Rightarrow> timestamp
    \<Rightarrow> uuid \<Rightarrow> uuid \<Rightarrow> int \<Rightarrow> idempotency_key \<Rightarrow> (order \<times> bool) svc_op" where
  "service_CreateOrder sha256 pg srv rnd newV7 eid at userID productID qty idem sv =
     (case on_store (store_CreateOrder sha256 pg eid at (new_order newV7 userID productID qty) idem) sv of
        (Inl err, sv1) \<Rightarrow> (Inl err, sv1)
      | (Inr (order, replayed), sv1) \<Rightarrow>
          (Inr (order, replayed),
           if \<not> replayed then service_invalidate srv rnd productID sv1 else sv1))"

definition service_FindOrder :: "uuid \<Rightarrow> uuid \<Rightarrow> order svc_op" where
  "service_FindOrder userID orderID = on_store (store_FindOrder userID orderID)"

definition service_FindOrders :: "uuid \<Rightarrow> cursor \<Rightarrow> int \<Rightarrow> order_page svc_op" where
  "service_FindOrders userID c limit = on_store (store_FindOrders userID c limit)"

section \<open>Coherence of the cache\<close>

text \<open>Every entry the cache would count as a hit, live or expired, says what the table says.\<close>

definition row_of :: "uuid \<Rightarrow> database \<Rightarrow> product option" where
  "row_of i db = map_option scanProduct (find_key p_id i (products db))"

definition coherent :: "svc \<Rightarrow> bool" where
  "coherent sv \<longleftrightarrow>
     (\<forall>i raw ex. sv_vk sv (uuid_string i) = Some (raw, ex) \<longrightarrow> en_Hit (classify raw) \<longrightarrow>
        agrees (classify raw) (row_of i (tables (sv_conn sv))))"

lemma encode_classify:
  assumes "encodeProduct p = Inr payload" "en_Hit (classify payload)"
  shows "agrees (classify payload) (Some p)"
proof (cases "cacheable p")
  case True
  then show ?thesis using classify_payload [OF True assms(1)] by (simp add: agrees_def)
next
  case False
  let ?e = "\<lparr>ce_ID = uuid_string (prod_ID p), ce_Name = prod_Name p, ce_Stock = prod_Stock p,
      ce_Version = prod_Version p, ce_Price = \<lparr>me_MinorAmount = MinorAmount (prod_Price p),
      me_Currency = Currency (prod_Price p)\<rparr>\<rparr>"
  obtain raw where m: "json_marshal (cache_entry_json ?e) = Inr raw" "payload = tagPayload # raw"
    using assms(1) by (auto simp: encodeProduct_def split: sum.splits)
  then have ok: "json_ok (cache_entry_json ?e)" by (simp add: json_marshal_def split: if_splits)
  then have "utf8_valid (prod_Name p)" "utf8_valid (Currency (prod_Price p))"
    by (simp_all add: cache_entry_json_def del: utf8_valid.simps)
  then have "cache_entry_of_json (cache_entry_json ?e) = None"
    using False
    by (auto simp: cache_entry_of_json_def cache_entry_json_def get_members_def get_string_def
        get_int64_def cacheable_def)
  then have "decodeProduct raw = None" using json_parse_marshal [OF m(1)] by (simp add: decodeProduct_def)
  then show ?thesis using assms(2) m(2) by (simp add: classify_def zero_entry_def Let_def)
qed

lemma coherent_upd:
  assumes "coherent sv" "en_Hit (classify x) \<Longrightarrow> agrees (classify x) (row_of i (tables (sv_conn sv)))"
  shows "coherent (sv\<lparr>sv_vk := (sv_vk sv)(uuid_string i \<mapsto> (x, ex))\<rparr>)"
  using assms by (auto simp: coherent_def uuid_string_inject)

lemma coherent_faults [simp]: "coherent (sv\<lparr>sv_faults := fs\<rparr>) = coherent sv"
  by (simp add: coherent_def)

lemma next_cache_fault_frame:
  assumes "next_cache_fault sv = (f, sv1)"
  shows "sv_conn sv1 = sv_conn sv" "sv_vk sv1 = sv_vk sv" "sv_time sv1 = sv_time sv" "coherent sv1 = coherent sv"
  using assms by (auto simp: next_cache_fault_def split: list.splits)

lemma svc_Get_cases:
  assumes "svc_Get key sv = (r, sv1)" "coherent sv" "key = uuid_string i"
  shows "sv_conn sv1 = sv_conn sv" "coherent sv1"
    and "r = Inr e \<Longrightarrow> en_Hit e \<Longrightarrow> agrees e (row_of i (tables (sv_conn sv)))"
proof -
  obtain f where f: "next_cache_fault sv = (f, sv1)" "r = cache_Get f (sv_time sv1) key (sv_vk sv1)"
    using assms(1) by (auto simp: svc_Get_def split: prod.splits)
  note n = next_cache_fault_frame [OF f(1)]
  show "sv_conn sv1 = sv_conn sv" "coherent sv1" using n assms(2) by simp_all
  show "agrees e (row_of i (tables (sv_conn sv)))" if "r = Inr e" "en_Hit e"
    using that f(2) n assms(2,3)
    by (auto simp: cache_Get_def live_value_def zero_entry_def coherent_def split: fault.splits option.splits if_splits)
qed

lemma productFrom_agrees:
  "agrees e row \<Longrightarrow> productFrom e = (case row of None \<Rightarrow> Inl (errorf_w ''find product: '' ErrNotFound) | Some p \<Rightarrow> Inr p)"
  by (auto simp: agrees_def productFrom_def)


lemma guardedSet_coherent:
  assumes "coherent sv" "en_Hit (classify x) \<Longrightarrow> agrees (classify x) (row_of i (tables (sv_conn sv)))"
    and "guardedSet f now (uuid_string i) x ttl prev (sv_vk sv) = (r, vk')"
  shows "coherent (sv\<lparr>sv_vk := vk'\<rparr>)"
  using guardedSet_effect [OF assms(3)] coherent_upd [OF assms(1,2)] assms(1) by auto

lemma on_cache_frame:
  assumes "on_cache m sv = (r, sv')"
  obtains f sv1 vk' where "next_cache_fault sv = (f, sv1)" "m f (sv_time sv) (sv_vk sv1) = (r, vk')"
    "sv' = sv1\<lparr>sv_vk := vk'\<rparr>"
  using assms next_cache_fault_frame(3) [of sv] by (force simp: on_cache_def split: prod.splits)

lemma service_fill_coherent:
  assumes co: "coherent sv"
    and load: "case load of Inr p \<Rightarrow> row_of i (tables (sv_conn sv)) = Some p
       | Inl e \<Rightarrow> errors_is e ErrNotFound \<longrightarrow> row_of i (tables (sv_conn sv)) = None"
  shows "coherent (service_fill srv (uuid_string i) prev load sv)
    \<and> sv_conn (service_fill srv (uuid_string i) prev load sv) = sv_conn sv"
proof (cases load)
  case (Inr p)
  obtain r sv' where c: "on_cache (\<lambda>f now. cache_Set (srv_cache srv) f now (uuid_string i) p prev) sv = (r, sv')"
    by fastforce
  then obtain f sv1 vk' where s: "next_cache_fault sv = (f, sv1)"
    "cache_Set (srv_cache srv) f (sv_time sv) (uuid_string i) p prev (sv_vk sv1) = (r, vk')" "sv' = sv1\<lparr>sv_vk := vk'\<rparr>"
    by (rule on_cache_frame)
  note n = next_cache_fault_frame [OF s(1)]
  have "coherent (sv1\<lparr>sv_vk := vk'\<rparr>)"
  proof (cases "encodeProduct p")
    case (Inl e)
    then have "vk' = sv_vk sv1" using s(2) by (simp add: cache_Set_def)
    then show ?thesis using n(4) co by simp
  next
    case (Inr payload)
    show ?thesis
    proof (rule guardedSet_coherent)
      show "coherent sv1" using n co by simp
      show "agrees (classify payload) (row_of i (tables (sv_conn sv1)))" if "en_Hit (classify payload)"
        using encode_classify [OF Inr that] load \<open>load = Inr p\<close> n by simp
      show "guardedSet f (sv_time sv) (uuid_string i) payload (vk_ttl (srv_cache srv)) prev (sv_vk sv1) = (r, vk')"
        using s(2) Inr by (simp add: cache_Set_def)
    qed
  qed
  then show ?thesis using Inr c s(3) n by (simp add: service_fill_def)
next
  case (Inl e)
  show ?thesis
  proof (cases "errors_is e ErrNotFound")
    case True
    obtain r sv' where c: "on_cache (\<lambda>f now. cache_SetMissing (srv_cache srv) f now (uuid_string i) prev) sv = (r, sv')"
      by fastforce
    then obtain f sv1 vk' where s: "next_cache_fault sv = (f, sv1)"
      "cache_SetMissing (srv_cache srv) f (sv_time sv) (uuid_string i) prev (sv_vk sv1) = (r, vk')" "sv' = sv1\<lparr>sv_vk := vk'\<rparr>"
      by (rule on_cache_frame)
    note n = next_cache_fault_frame [OF s(1)]
    have "coherent (sv1\<lparr>sv_vk := vk'\<rparr>)"
    proof (rule guardedSet_coherent)
      show "coherent sv1" using n co by simp
      show "agrees (classify [tagMissing]) (row_of i (tables (sv_conn sv1)))"
        using load Inl True n by (simp add: agrees_def zero_entry_def)
      show "guardedSet f (sv_time sv) (uuid_string i) [tagMissing] (vk_negTTL (srv_cache srv)) prev (sv_vk sv1) = (r, vk')"
        using s(2) by (simp add: cache_SetMissing_def)
    qed
    then show ?thesis using Inl True c s(3) n by (simp add: service_fill_def)
  next
    case False
    then show ?thesis using Inl co by (simp add: service_fill_def)
  qed
qed

section \<open>Reads\<close>

text \<open>
  What an error of the connection is not: the driver's report that no row was found, or the domain's.
\<close>

definition foreign_faults :: "fault list \<Rightarrow> bool" where
  "foreign_faults fs \<longleftrightarrow>
     (\<forall>e. Failed e \<in> set fs \<or> AckLost e \<in> set fs \<longrightarrow> \<not> errors_is e ErrNoRows \<and> \<not> errors_is e ErrNotFound)"

lemma mapDBError_not_found: "\<not> errors_is e ErrNotFound \<Longrightarrow> \<not> errors_is (mapDBError e) ErrNotFound"
  by (auto simp: mapDBError_def split: option.split)

text \<open>What a read answers when it is right: a row of the table, or \<open>ErrNotFound\<close> only where there is none.\<close>

definition answer_of :: "product option \<Rightarrow> go_error + product \<Rightarrow> bool" where
  "answer_of row r \<longleftrightarrow>
     (case r of Inr p \<Rightarrow> row = Some p | Inl e \<Rightarrow> errors_is e ErrNotFound \<longrightarrow> row = None)"

lemma FindByID_sound:
  assumes run: "store_FindByID i c = (r, c')" and f: "foreign_faults (script c)"
  shows "tables c' = tables c \<and> answer_of (row_of i (tables c)) r
    \<and> (script c = [] \<longrightarrow> c' = c \<and> r = (case row_of i (tables c) of None \<Rightarrow> Inl ErrNotFound | Some p \<Rightarrow> Inr p))"
proof (cases "script c")
  case Nil
  then show ?thesis using run by (auto simp: store_FindByID_run row_of_def answer_of_def split: option.splits)
next
  case (Cons g gs)
  have "g = Failed e \<or> g = AckLost e \<Longrightarrow> \<not> errors_is e ErrNoRows \<and> \<not> errors_is e ErrNotFound" for e
    using f Cons by (auto simp: foreign_faults_def)
  then show ?thesis
    using run Cons
    by (cases g)
      (auto simp: store_FindByID_def tx_catch_def tx_bind_def tx_query_row_def tx_exec_def tx_raise_def tx_return_def
        next_fault_def queryGetByID_def find_key_filter row_of_def answer_of_def mapDBError_not_found
        split: list.splits option.splits if_splits)
qed

lemma loadProduct_sound:
  assumes co: "coherent sv" and f: "foreign_faults (script (sv_conn sv))"
    and run: "service_loadProduct srv i sv = (r, sv')"
  shows "tables (sv_conn sv') = tables (sv_conn sv) \<and> coherent sv' \<and> answer_of (row_of i (tables (sv_conn sv))) r
    \<and> (script (sv_conn sv) = [] \<longrightarrow> sv_conn sv' = sv_conn sv \<and> (\<forall>e. r = Inl e \<longrightarrow> errors_is e ErrNotFound))"
proof -
  obtain g sv1 where g: "svc_Get (uuid_string i) sv = (g, sv1)" by fastforce
  note G = svc_Get_cases [OF g co refl]
  let ?row = "row_of i (tables (sv_conn sv))"
  obtain l c where l: "store_FindByID i (sv_conn sv1) = (l, c)" by fastforce
  note L = FindByID_sound [OF l] f
  have st: "on_store (store_FindByID i) sv1 = (l, sv1\<lparr>sv_conn := c\<rparr>)" using l by (simp add: on_store_def)
  have co1: "coherent (sv1\<lparr>sv_conn := c\<rparr>)" using L G by (simp add: coherent_def)
  have nf: "l = Inl e \<Longrightarrow> script (sv_conn sv) = [] \<Longrightarrow> errors_is e ErrNotFound" for e
    using L G(1) by (auto split: option.splits)
  show ?thesis
  proof (cases "\<exists>e. g = Inr e \<and> en_Hit e")
    case True
    then obtain e where e: "g = Inr e" "en_Hit e" by blast
    then have "r = productFrom e \<and> sv' = sv1"
      using run g by (simp add: service_loadProduct_def callGroup_Do_def Let_def)
    then show ?thesis
      using productFrom_agrees [OF G(3) [OF e]] G(1,2) by (auto simp: answer_of_def split: option.splits)
  next
    case False
    then consider (failed) e where "g = Inl e" | (miss) e where "g = Inr e" "\<not> en_Hit e" by (cases g) auto
    then show ?thesis
    proof cases
      case failed
      then have "r = l \<and> sv' = sv1\<lparr>sv_conn := c\<rparr>"
        using run g st by (simp add: service_loadProduct_def callGroup_Do_def Let_def)
      then show ?thesis using L G(1) co1 nf by auto
    next
      case miss
      then have r: "r = l" "sv' = service_fill srv (uuid_string i) e l (sv1\<lparr>sv_conn := c\<rparr>)"
        using run g st by (auto simp: service_loadProduct_def callGroup_Do_def Let_def)
      have "coherent sv' \<and> sv_conn sv' = c"
        unfolding r(2) using service_fill_coherent [OF co1, of i l srv e] L G(1)
        by (auto simp: answer_of_def split: sum.splits)
      then show ?thesis using L G(1) nf r(1) by auto
    qed
  qed
qed

text \<open>
  A product read from a coherent cache is right, whatever the cache commands and the connection meet, and leaves a
  coherent cache. On a healthy connection it answers the product, or \<open>ErrNotFound\<close>.
\<close>

lemma FindByID_coherent:
  assumes co: "coherent sv" and f: "foreign_faults (script (sv_conn sv))"
    and run: "service_FindByID srv i sv = (r, sv')"
  shows "tables (sv_conn sv') = tables (sv_conn sv) \<and> coherent sv' \<and> answer_of (row_of i (tables (sv_conn sv))) r
    \<and> (script (sv_conn sv) = [] \<longrightarrow> sv_conn sv' = sv_conn sv \<and> (\<forall>e. r = Inl e \<longrightarrow> errors_is e ErrNotFound))"
proof -
  obtain g sv1 where g: "svc_Get (uuid_string i) sv = (g, sv1)" by fastforce
  note G = svc_Get_cases [OF g co refl]
  show ?thesis
  proof (cases "\<exists>e. g = Inr e \<and> en_Hit e")
    case True
    then obtain e where e: "g = Inr e" "en_Hit e" by blast
    then have "r = productFrom e \<and> sv' = sv1" using run g by (simp add: service_FindByID_def)
    then show ?thesis
      using productFrom_agrees [OF G(3) [OF e]] G(1,2) by (auto simp: answer_of_def split: option.splits)
  next
    case False
    then have "service_loadProduct srv i sv1 = (r, sv')"
      using run g by (auto simp: service_FindByID_def split: sum.splits)
    then show ?thesis using loadProduct_sound [OF G(2)] f G(1) by fastforce
  qed
qed

section \<open>Writes\<close>

text \<open>A write of one product leaves the rows of all others alone, under any faults.\<close>

definition keeps_others :: "uuid \<Rightarrow> database \<Rightarrow> database \<Rightarrow> bool" where
  "keeps_others i a b \<longleftrightarrow> (\<forall>j. j \<noteq> i \<longrightarrow> find_key p_id j (products b) = find_key p_id j (products a))"

interpretation others_rel: table_relation "keeps_others i" for i
  by unfold_locales (auto simp: keeps_others_def)

lemma write_keeps_others:
  "sql_rel (keeps_others i) (queryUpdate i name price cur)"
  "sql_rel (keeps_others i) (queryDelete i)"
  "sql_rel (keeps_others i) (queryPurchase i qty)"
  "sql_rel (keeps_others i) (queryInsertOutbox mid t pl)"
  "sql_rel (keeps_others i) queryNotifyOutbox"
  "sql_rel (keeps_others i) (queryInsertOrder oid uid pid qty price cur)"
  "sql_rel (keeps_others i) (queryInsertIdempotency uid key h ttl)"
  "sql_rel (keeps_others i) (queryUpdateIdempotencyResult uid key oid)"
  "sql_rel (keeps_others i) (querySelectIdempotency uid key)"
  "sql_rel (keeps_others i) (queryProductExists j)"
  by (auto simp: sql_rel_def sql_defs keeps_others_def Let_def find_key_delete find_key_replace
      dest!: find_key_SomeD split: option.splits if_splits)

lemma insertOutbox_others: "tx_rel (keeps_others i) (insertOutbox e)"
  unfolding insertOutbox_def by (intro others_rel.rel_intros write_keeps_others)

lemma store_Update_others: "tx_rel (keeps_others (prod_ID p)) (store_Update eid at p)"
  unfolding store_Update_def
  by (auto intro!: others_rel.rel_intros write_keeps_others insertOutbox_others)

lemma store_Delete_others: "tx_rel (keeps_others i) (store_Delete eid at i)"
  unfolding store_Delete_def Let_def
  by (auto intro!: others_rel.rel_intros write_keeps_others insertOutbox_others)

lemma store_CreateOrder_others:
  "tx_rel (keeps_others (ord_ProductID o1)) (store_CreateOrder sha256 pg eid at o1 idem)"
  unfolding store_CreateOrder_def createOrderIdempotent_def create_order_body_def purchaseTx_def
    purchaseNoRowError_def replayIdempotent_def updateIdempotencyResult_def Let_def
  by (auto intro!: others_rel.rel_intros write_keeps_others insertOutbox_others)

lemma withTx_error_products:
  assumes "tx_frame fn" "withTx fn c = (Inl e, c')" "\<forall>x. AckLost x \<notin> set (script c)"
  shows "products (tables c') = products (tables c)"
  using assms(1,2) by (cases rule: withTx_all_or_nothing) (use assms(3) in \<open>auto simp: same_rows_sel\<close>)

lemma store_Update_error:
  assumes "store_Update eid at p c = (Inl e, c')" "\<forall>x. AckLost x \<notin> set (script c)"
  shows "products (tables c') = products (tables c)"
  using assms unfolding store_Update_def
  by (intro withTx_error_products) (auto intro!: tx_frame_bind tx_frame_catch tx_frame_query_row insertOutbox_frame)

lemma store_Delete_error:
  assumes "store_Delete eid at i c = (Inl e, c')" "\<forall>x. AckLost x \<notin> set (script c)"
  shows "products (tables c') = products (tables c)"
  using assms unfolding store_Delete_def Let_def
  by (intro withTx_error_products) (auto intro!: tx_frame_bind tx_frame_catch tx_frame_query_row insertOutbox_frame)

lemma store_CreateOrder_error:
  assumes "store_CreateOrder sha256 pg eid at o1 idem c = (Inl e, c')" "\<forall>x. AckLost x \<notin> set (script c)"
  shows "products (tables c') = products (tables c)"
  using withTx_error_products [OF create_order_body_frame] assms
  unfolding store_CreateOrder_def createOrderIdempotent_def by blast

lemma coherent_same_products:
  "coherent sv \<Longrightarrow> products (tables c) = products (tables (sv_conn sv)) \<Longrightarrow> coherent (sv\<lparr>sv_conn := c\<rparr>)"
  by (simp add: coherent_def row_of_def)

text \<open>A tombstone that reached the server restores coherence for the product it covers.\<close>

lemma invalidate_coherent:
  assumes co: "coherent sv" and others: "keeps_others i (tables (sv_conn sv)) (tables c)"
    and applied: "\<forall>e. fst (next_cache_fault sv) \<noteq> Failed e" and ttl: "0 < milliseconds (vk_ttl (srv_cache srv))"
  shows "coherent (service_invalidate srv rnd i (sv\<lparr>sv_conn := c\<rparr>))
    \<and> sv_conn (service_invalidate srv rnd i (sv\<lparr>sv_conn := c\<rparr>)) = c"
proof -
  let ?sv = "sv\<lparr>sv_conn := c\<rparr>"
  obtain r sv' where run: "on_cache (\<lambda>f now. cache_Invalidate (srv_cache srv) f now (uuid_string i) rnd) ?sv = (r, sv')"
    by fastforce
  then obtain f sv1 vk' where s: "next_cache_fault ?sv = (f, sv1)"
    "cache_Invalidate (srv_cache srv) f (sv_time ?sv) (uuid_string i) rnd (sv_vk sv1) = (r, vk')" "sv' = sv1\<lparr>sv_vk := vk'\<rparr>"
    by (rule on_cache_frame)
  note n = next_cache_fault_frame [OF s(1)]
  have "f = fst (next_cache_fault sv)" using s(1) by (auto simp: next_cache_fault_def split: list.splits)
  then obtain e where "f = NoFault \<or> f = AckLost e" using applied by (metis fault.exhaust)
  then have "vk' = (sv_vk sv1)(uuid_string i \<mapsto> (newTombstone rnd, sv_time ?sv + milliseconds (vk_ttl (srv_cache srv))))"
    by (rule invalidate_effect [OF s(2) _ ttl])
  then have "sv' = sv1\<lparr>sv_vk := (sv_vk sv)(uuid_string i \<mapsto>
      (newTombstone rnd, sv_time ?sv + milliseconds (vk_ttl (srv_cache srv))))\<rparr>" "sv_conn sv1 = c"
    using s(3) n by simp_all
  then have "coherent sv'" "sv_conn sv' = c"
    using co others
    by (auto simp: coherent_def row_of_def keeps_others_def uuid_string_inject zero_entry_def)
  then show ?thesis using run by (simp add: service_invalidate_def)
qed

lemma service_writes_coherent:
  assumes co: "coherent sv" and wf: "db_wf (tables (sv_conn sv))" "keys_settled sha256 (tables (sv_conn sv))"
    and acks: "\<forall>x. AckLost x \<notin> set (script (sv_conn sv))"
    and tomb: "\<forall>e. fst (next_cache_fault sv) \<noteq> Failed e" "0 < milliseconds (vk_ttl (srv_cache srv))"
  shows "coherent (snd (service_Update srv rnd eid at p sv))
    \<and> coherent (snd (service_Delete srv rnd eid at i sv))
    \<and> coherent (snd (service_CreateOrder sha256 pg srv rnd newV7 eid at uid i qty idem sv))"
proof (intro conjI)
  obtain r c where r: "store_Update eid at p (sv_conn sv) = (r, c)" by fastforce
  have "keeps_others (prod_ID p) (tables (sv_conn sv)) (tables c)"
    using store_Update_others r unfolding tx_rel_def by (metis snd_conv)
  note inv = invalidate_coherent [OF co this tomb, of rnd]
  show "coherent (snd (service_Update srv rnd eid at p sv))"
    using r inv coherent_same_products [OF co] store_Update_error [of eid at p "sv_conn sv" _ c] acks
    by (cases r) (auto simp: service_Update_def on_store_def)
next
  obtain r c where r: "store_Delete eid at i (sv_conn sv) = (r, c)" by fastforce
  have "keeps_others i (tables (sv_conn sv)) (tables c)"
    using store_Delete_others r unfolding tx_rel_def by (metis snd_conv)
  note inv = invalidate_coherent [OF co this tomb, of rnd]
  show "coherent (snd (service_Delete srv rnd eid at i sv))"
    using r inv coherent_same_products [OF co] store_Delete_error [of eid at i "sv_conn sv" _ c] acks
    by (cases r) (auto simp: service_Delete_def on_store_def)
next
  let ?o = "new_order newV7 uid i qty"
  obtain r c where r: "store_CreateOrder sha256 pg eid at ?o idem (sv_conn sv) = (r, c)" by fastforce
  have pid: "ord_ProductID ?o = i" by (simp add: new_order_def)
  have "keeps_others i (tables (sv_conn sv)) (tables c)"
    using store_CreateOrder_others [of ?o sha256 pg eid at idem] r unfolding tx_rel_def pid by (metis snd_conv)
  note inv = invalidate_coherent [OF co this tomb, of rnd]
  have replay: "tables c = tables (sv_conn sv)" if "r = Inr (x, True)" for x
    using r wf by (cases rule: create_order_effect_cases) (use that in auto)
  show "coherent (snd (service_CreateOrder sha256 pg srv rnd newV7 eid at uid i qty idem sv))"
    using r inv coherent_same_products [OF co] replay
      store_CreateOrder_error [of sha256 pg eid at ?o idem "sv_conn sv" _ c] acks
    by (cases r) (auto simp: service_CreateOrder_def on_store_def split: prod.splits)
qed

text \<open>
  C34: writes keep the cache coherent. An update, a deletion or an order, whatever faults its
  transaction meets short of a lost answer to the commit, leaves a coherent cache coherent, provided
  the tombstone of a write that went through reaches the cache server: the changed product's
  entry is gone and every other entry still says what the table says.
\<close>

theorem service_writes_keep_coherence:
  assumes co: "coherent sv" and wf: "db_wf (tables (sv_conn sv))" "keys_settled sha256 (tables (sv_conn sv))"
    and acks: "\<forall>x. AckLost x \<notin> set (script (sv_conn sv))"
    and tomb: "\<forall>e. fst (next_cache_fault sv) \<noteq> Failed e" "0 < milliseconds (vk_ttl (srv_cache srv))"
  shows "coherent (snd (service_Update srv rnd eid at p sv))
    \<and> coherent (snd (service_Delete srv rnd eid at i sv))
    \<and> coherent (snd (service_CreateOrder sha256 pg srv rnd newV7 eid at uid i qty idem sv))"
  using service_writes_coherent [OF assms] .

section \<open>Samples\<close>

definition sample_service :: service where
  "sample_service = NewService (NewCache 60000000000 10000000000) 5000000000"

definition sample_svc :: svc where
  "sample_svc = \<lparr>sv_conn = healthy sample_db, sv_vk = (\<lambda>_. None), sv_time = 0, sv_faults = []\<rparr>"

lemma sample_svc_facts:
  "coherent (sample_svc\<lparr>sv_faults := fs\<rparr>)" "script (sv_conn sample_svc) = []" "tables (sv_conn sample_svc) = sample_db"
  "0 < milliseconds (vk_ttl (srv_cache sample_service))"
  by (simp_all add: sample_svc_def coherent_def healthy_def sample_service_def NewService_def NewCache_def
      milliseconds_def)

theorem service_writes_keep_coherence_witness:
  "coherent (snd (service_Update sample_service ''r'' 50 0 (scanProduct (sample_row 7 10)) sample_svc))"
proof -
  have "coherent sample_svc" using sample_svc_facts(1) [of "[]"] by (simp add: sample_svc_def)
  then show ?thesis
    using service_writes_keep_coherence [of sample_svc "\<lambda>x. x" sample_service "''r''" 50 0 "scanProduct (sample_row 7 10)"]
      sample_svc_facts sample_db_wf sample_db_settled
    by (simp add: next_cache_fault_def) (simp add: sample_svc_def)
qed

end
