(* ===== verification/Auth.thy ===== *)
theory Auth
  imports Go_Error Uuid
begin

text \<open>
  \<open>internal/auth/auth.go\<close>: reading a bearer token and verifying it. The JWT library is outside the
  repository: \<open>parse_claims secret token\<close> is what its parser answers under the options the
  verifier sets (HS256 only, expiry required), an error or the token's subject.
\<close>

definition ascii_lower :: "char \<Rightarrow> char" where
  "ascii_lower c = (if 65 \<le> byte_val c \<and> byte_val c \<le> 90 then char_of (byte_val c + 32) else c)"

text \<open>
  \<open>strings.EqualFold\<close> with the scheme: none of its letters has a case variant outside ASCII.
\<close>

definition equal_fold :: "string \<Rightarrow> string \<Rightarrow> bool" where
  "equal_fold a b \<longleftrightarrow> map ascii_lower a = map ascii_lower b"

definition BearerToken :: "string \<Rightarrow> string option" where
  "BearerToken header =
     (let scheme = ''Bearer '' in
      if length header < length scheme \<or> \<not> equal_fold (take (length scheme) header) scheme then None
      else Some (drop (length scheme) header))"

record verifier =
  v_secret :: string

definition NewVerifier :: "string \<Rightarrow> verifier" where
  "NewVerifier secret = \<lparr>v_secret = secret\<rparr>"

definition Verify :: "(string \<Rightarrow> string \<Rightarrow> go_error + string) \<Rightarrow> verifier \<Rightarrow> string \<Rightarrow> go_error + uuid" where
  "Verify parse_claims v token =
     (case parse_claims (v_secret v) token of
        Inl err \<Rightarrow> Inl (errorf_ww ErrInvalidToken err)
      | Inr subject \<Rightarrow>
          (case uuid_parse subject of
             None \<Rightarrow> Inl (Wrapped ''%w: sub is not a uuid: %w'' [ErrInvalidToken, ErrText ''invalid UUID''])
           | Some sub \<Rightarrow> Inr sub))"

text \<open>The identity the context carries: \<open>WithUserID\<close> sets it, \<open>UserID\<close> reads it.\<close>

type_synonym identity = "uuid option"

definition WithUserID :: "identity \<Rightarrow> uuid \<Rightarrow> identity" where
  "WithUserID ctx i = Some i"

definition auth_UserID :: "identity \<Rightarrow> uuid option" where
  "auth_UserID ctx = ctx"

lemma BearerToken_scheme:
  "BearerToken h = Some t \<Longrightarrow> \<exists>s. h = s @ t \<and> equal_fold s ''Bearer ''"
  by (auto simp: BearerToken_def Let_def split: if_splits) (metis append_take_drop_id)

lemma BearerToken_intro: "equal_fold s ''Bearer '' \<Longrightarrow> BearerToken (s @ t) = Some t"
proof -
  assume s: "equal_fold s ''Bearer ''"
  then have "length s = length ''Bearer ''" unfolding equal_fold_def by (rule map_eq_imp_length_eq)
  then show ?thesis using s by (simp add: BearerToken_def)
qed

lemma Verify_error: "Verify pc v t = Inl e \<Longrightarrow> errors_is e ErrInvalidToken"
  by (auto simp: Verify_def errorf_ww_def split: sum.splits option.splits)

end
