(* ===== verification/Processor.thy ===== *)
theory Processor
  imports Service Auth
begin

text \<open>
  The \<open>processor\<close> interface both transports are written against (\<open>internal/transport/http/handler.go\<close>
  and \<open>internal/transport/grpc/handler.go\<close> declare the same eight operations) and the service that
  provides it. The ids, instants and random bytes one call draws are a record of their own. Request
  deadlines reach the operations as faults of the connection.
\<close>

section \<open>The interface\<close>

record 's processor =
  pr_Create :: "product \<Rightarrow> 's \<Rightarrow> (go_error + product) \<times> 's"
  pr_FindByID :: "uuid \<Rightarrow> 's \<Rightarrow> (go_error + product) \<times> 's"
  pr_FindAll :: "cursor \<Rightarrow> int \<Rightarrow> 's \<Rightarrow> (go_error + product_page) \<times> 's"
  pr_Update :: "product \<Rightarrow> 's \<Rightarrow> (go_error + product) \<times> 's"
  pr_Delete :: "uuid \<Rightarrow> 's \<Rightarrow> (go_error + unit) \<times> 's"
  pr_CreateOrder :: "uuid \<Rightarrow> uuid \<Rightarrow> int \<Rightarrow> idempotency_key \<Rightarrow> 's \<Rightarrow> (go_error + order \<times> bool) \<times> 's"
  pr_FindOrder :: "uuid \<Rightarrow> uuid \<Rightarrow> 's \<Rightarrow> (go_error + order) \<times> 's"
  pr_FindOrders :: "uuid \<Rightarrow> cursor \<Rightarrow> int \<Rightarrow> 's \<Rightarrow> (go_error + order_page) \<times> 's"

record draws =
  dr_newV7 :: uuid
  dr_event :: uuid
  dr_now :: timestamp
  dr_random :: string

definition service_processor ::
  "(string \<Rightarrow> string) \<Rightarrow> postgres \<Rightarrow> service \<Rightarrow> draws \<Rightarrow> svc processor" where
  "service_processor sha256 pg srv d =
     \<lparr>pr_Create = service_Create (dr_newV7 d) (dr_event d) (dr_now d),
      pr_FindByID = service_FindByID srv,
      pr_FindAll = service_FindAll,
      pr_Update = service_Update srv (dr_random d) (dr_event d) (dr_now d),
      pr_Delete = service_Delete srv (dr_random d) (dr_event d) (dr_now d),
      pr_CreateOrder = service_CreateOrder sha256 pg srv (dr_random d) (dr_newV7 d) (dr_event d) (dr_now d),
      pr_FindOrder = service_FindOrder,
      pr_FindOrders = service_FindOrders\<rparr>"

text \<open>\<open>uuid.Parse\<close> with its error.\<close>

definition uuid_Parse :: "string \<Rightarrow> go_error + uuid" where
  "uuid_Parse s = (case uuid_parse s of None \<Rightarrow> Inl (ErrText ''invalid UUID'') | Some i \<Rightarrow> Inr i)"

text \<open>
  The text of a reply: a text of the source, the text of an error (\<open>err.Error()\<close>), or a text with
  a quoted name in it (\<open>fmt.Sprintf("... %q ...", name)\<close>).
\<close>

datatype message = Text string | ErrorOf go_error | Quoting string string string

text \<open>\<open>mapSlice\<close>, the same loop in both transports: \<open>out[i] = f(v)\<close> for each \<open>i, v\<close> of the input.\<close>

fun mapSlice_loop :: "('a \<Rightarrow> 'b) \<Rightarrow> nat \<Rightarrow> 'a list \<Rightarrow> 'b list \<Rightarrow> 'b list" where
  "mapSlice_loop f i [] out = out"
| "mapSlice_loop f i (v # vs) out = mapSlice_loop f (Suc i) vs (out[i := f v])"

definition mapSlice :: "'a list \<Rightarrow> ('a \<Rightarrow> 'b) \<Rightarrow> 'b \<Rightarrow> 'b list" where
  "mapSlice xs f zero = mapSlice_loop f 0 xs (replicate (length xs) zero)"

lemma mapSlice_loop_map:
  "length out = i + length xs \<Longrightarrow> mapSlice_loop f i xs out = take i out @ map f xs"
proof (induction f i xs out rule: mapSlice_loop.induct)
  case (2 f i v vs out)
  then have "take (Suc i) (out[i := f v]) = take i out @ [f v]"
    by (simp add: take_Suc_conv_app_nth)
  then show ?case using 2 by simp
qed simp

lemma mapSlice_map [simp]: "mapSlice xs f zero = map f xs"
  by (simp add: mapSlice_def mapSlice_loop_map)

section \<open>What the transports rely on\<close>

text \<open>
  The contract: reads leave the stored data as it is, and an operation that reports an error has
  changed nothing, in states where the interface can promise it (\<open>quiet\<close>: no answer to a commit
  gets lost).
\<close>

locale processor_contract =
  fixes P :: "'s processor" and quiet :: "'s \<Rightarrow> bool" and same :: "'s \<Rightarrow> 's \<Rightarrow> bool"
  assumes same_refl: "same s s"
    and FindByID_same: "same s (snd (pr_FindByID P i s))"
    and FindAll_same: "same s (snd (pr_FindAll P c n s))"
    and FindOrder_same: "same s (snd (pr_FindOrder P u i s))"
    and FindOrders_same: "same s (snd (pr_FindOrders P u c n s))"
    and Create_error: "quiet s \<Longrightarrow> pr_Create P p s = (Inl e, s') \<Longrightarrow> same s s'"
    and Update_error: "quiet s \<Longrightarrow> pr_Update P p s = (Inl e, s') \<Longrightarrow> same s s'"
    and Delete_error: "quiet s \<Longrightarrow> pr_Delete P i s = (Inl e, s') \<Longrightarrow> same s s'"
    and CreateOrder_error: "quiet s \<Longrightarrow> pr_CreateOrder P u i q k s = (Inl e, s') \<Longrightarrow> same s s'"
begin

lemmas reads_same = FindByID_same FindAll_same FindOrder_same FindOrders_same

lemmas errors_same = Create_error Update_error Delete_error CreateOrder_error

end

text \<open>The service keeps it: \<open>same\<close> compares the rows of all tables, the id sequence aside.\<close>

definition svc_quiet :: "svc \<Rightarrow> bool" where
  "svc_quiet sv \<longleftrightarrow> (\<forall>x. AckLost x \<notin> set (script (sv_conn sv)))"

definition svc_same :: "svc \<Rightarrow> svc \<Rightarrow> bool" where
  "svc_same a b \<longleftrightarrow> same_rows (tables (sv_conn a)) (tables (sv_conn b))"

interpretation eq_rel: table_relation "(=)"
  by unfold_locales auto

lemma store_reads_equal:
  "tx_rel (=) (store_FindByID i)" "tx_rel (=) (store_FindAll c n)"
  "tx_rel (=) (store_FindOrder u i)" "tx_rel (=) (store_FindOrders u c n)"
  unfolding store_FindByID_def store_FindAll_def store_FindOrder_def store_FindOrders_def cursor_After_def
    Let_def prod.case
  by (auto intro!: eq_rel.rel_intros select_same [THEN select_rel])

text \<open>Everything the service does to the cache leaves the connection alone.\<close>

lemma sv_conn_next_fault [simp]: "sv_conn (snd (next_cache_fault sv)) = sv_conn sv"
  by (simp add: next_cache_fault_def split: list.split)

lemma sv_conn_Get [simp]: "sv_conn (snd (svc_Get key sv)) = sv_conn sv"
  by (cases "next_cache_fault sv") (use sv_conn_next_fault [of sv] in \<open>simp add: svc_Get_def\<close>)

lemma sv_conn_on_cache [simp]: "sv_conn (snd (on_cache m sv)) = sv_conn sv"
  by (cases "next_cache_fault sv") (use sv_conn_next_fault [of sv] in \<open>simp add: on_cache_def split: prod.split\<close>)

lemma sv_conn_fill [simp]: "sv_conn (service_fill srv key prev load sv) = sv_conn sv"
  by (simp add: service_fill_def split: sum.split)

lemma sv_conn_invalidate [simp]: "sv_conn (service_invalidate srv rnd i sv) = sv_conn sv"
  by (simp add: service_invalidate_def Let_def)

lemma sv_conn_on_store [simp]: "sv_conn (snd (on_store m sv)) = snd (m (sv_conn sv))"
  by (simp add: on_store_def split: prod.split)

lemma loadProduct_conn:
  "sv_conn (snd (service_loadProduct srv i sv)) \<in> {sv_conn sv, snd (store_FindByID i (sv_conn sv))}"
proof -
  obtain g sv1 where g: "svc_Get (uuid_string i) sv = (g, sv1)" by fastforce
  then have c: "sv_conn sv1 = sv_conn sv" using sv_conn_Get [of "uuid_string i" sv] by simp
  obtain r sv2 where r: "on_store (store_FindByID i) sv1 = (r, sv2)" by fastforce
  then have "sv_conn sv2 = snd (store_FindByID i (sv_conn sv))"
    using sv_conn_on_store [of "store_FindByID i" sv1] c by simp
  then show ?thesis
    using g c r by (auto simp: service_loadProduct_def callGroup_Do_def Let_def split: sum.splits)
qed

lemma FindByID_conn:
  "sv_conn (snd (service_FindByID srv i sv)) \<in> {sv_conn sv, snd (store_FindByID i (sv_conn sv))}"
proof -
  obtain g sv1 where g: "svc_Get (uuid_string i) sv = (g, sv1)" by fastforce
  then have c: "sv_conn sv1 = sv_conn sv" using sv_conn_Get [of "uuid_string i" sv] by simp
  show ?thesis
    using g c loadProduct_conn [of srv i sv1] by (auto simp: service_FindByID_def Let_def split: sum.splits)
qed

lemma withTx_error_same:
  assumes "tx_frame fn" "withTx fn c = (Inl e, c')" "\<forall>x. AckLost x \<notin> set (script c)"
  shows "same_rows (tables c) (tables c')"
  using assms(1,2) by (cases rule: withTx_all_or_nothing) (use assms(3) in auto)

lemma store_Save_error_same:
  assumes "store_Save eid at p c = (Inl e, c')" "\<forall>x. AckLost x \<notin> set (script c)"
  shows "same_rows (tables c) (tables c')"
  using assms unfolding store_Save_def Let_def
  by (intro withTx_error_same) (auto intro!: tx_frame_bind tx_frame_query_row insertOutbox_frame)

lemma store_Update_error_same:
  assumes "store_Update eid at p c = (Inl e, c')" "\<forall>x. AckLost x \<notin> set (script c)"
  shows "same_rows (tables c) (tables c')"
  using assms unfolding store_Update_def
  by (intro withTx_error_same) (auto intro!: tx_frame_bind tx_frame_catch tx_frame_query_row insertOutbox_frame)

lemma store_Delete_error_same:
  assumes "store_Delete eid at i c = (Inl e, c')" "\<forall>x. AckLost x \<notin> set (script c)"
  shows "same_rows (tables c) (tables c')"
  using assms unfolding store_Delete_def Let_def
  by (intro withTx_error_same) (auto intro!: tx_frame_bind tx_frame_catch tx_frame_query_row insertOutbox_frame)

lemma store_CreateOrder_error_same:
  assumes "store_CreateOrder sha256 pg eid at o1 k c = (Inl e, c')" "\<forall>x. AckLost x \<notin> set (script c)"
  shows "same_rows (tables c) (tables c')"
  using withTx_error_same [OF create_order_body_frame] assms
  unfolding store_CreateOrder_def createOrderIdempotent_def by blast

lemmas store_errors_same = store_Save_error_same store_Update_error_same store_Delete_error_same
  store_CreateOrder_error_same

lemma tx_rel_eqD: "tx_rel (=) m \<Longrightarrow> tables (snd (m c)) = tables c"
  by (metis tx_rel_def)

lemmas service_op_defs = service_Create_def service_FindAll_def service_Update_def service_Delete_def
  service_CreateOrder_def service_FindOrder_def service_FindOrders_def

interpretation svcp: processor_contract "service_processor sha256 pg srv d" svc_quiet svc_same
  for sha256 pg srv d
proof
  fix s s' :: svc and i u :: uuid and c :: cursor and n q :: int and p :: product and k :: string and e
  let ?P = "service_processor sha256 pg srv d"
  show "svc_same s s" by (simp add: svc_same_def)
  show "svc_same s (snd (pr_FindByID ?P i s))"
    using FindByID_conn [of srv i s] tx_rel_eqD [OF store_reads_equal(1), of i "sv_conn s"]
    by (auto simp: svc_same_def service_processor_def)
  show "svc_same s (snd (pr_FindAll ?P c n s))" "svc_same s (snd (pr_FindOrder ?P u i s))"
    "svc_same s (snd (pr_FindOrders ?P u c n s))"
    by (simp_all add: svc_same_def service_processor_def service_op_defs
        store_reads_equal [THEN tx_rel_eqD])
  assume q: "svc_quiet s"
  note E = store_errors_same [OF _ q [unfolded svc_quiet_def]]
  show "svc_same s s'" if "pr_Create ?P p s = (Inl e, s')"
    using that E(1) by (auto simp: svc_same_def service_processor_def service_op_defs on_store_def split: prod.splits)
  show "svc_same s s'" if "pr_Update ?P p s = (Inl e, s')"
    using that E(2) by (auto simp: svc_same_def service_processor_def service_op_defs on_store_def
        split: prod.splits sum.splits)
  show "svc_same s s'" if "pr_Delete ?P i s = (Inl e, s')"
    using that E(3) by (auto simp: svc_same_def service_processor_def service_op_defs on_store_def
        split: prod.splits sum.splits)
  show "svc_same s s'" if "pr_CreateOrder ?P u i q k s = (Inl e, s')" for q
    using that E(4) by (auto simp: svc_same_def service_processor_def service_op_defs on_store_def
        split: prod.splits sum.splits)
qed

section \<open>A repeated order\<close>

lemma service_order_replays:
  assumes first: "service_CreateOrder sha256 pg srv rnd n1 eid at u i q k sv = (res, sv')"
    and wf: "db_wf (tables (sv_conn sv))" "keys_settled sha256 (tables (sv_conn sv))"
    and effect: "orders (tables (sv_conn sv')) \<noteq> orders (tables (sv_conn sv))"
    and retry: "script (sv_conn tv) = []"
      "keeps_orders sha256 (clock (sv_conn tv)) (tables (sv_conn sv')) (tables (sv_conn tv))"
      "clock (sv_conn tv) \<le> clock (sv_conn sv) + interval_us (idempotencyTTL pg)"
  shows "\<exists>o3. service_CreateOrder sha256 pg srv rnd2 n2 eid2 at2 u i q k tv = (Inr (o3, True), tv)
    \<and> ord_ID o3 = n1 \<and> (is_ok res \<longrightarrow> res = Inr (o3, False))"
proof -
  let ?o1 = "new_order n1 u i q" and ?o2 = "new_order n2 u i q"
  obtain r c where r: "store_CreateOrder sha256 pg eid at ?o1 k (sv_conn sv) = (r, c)" by fastforce
  then have sv': "sv_conn sv' = c" "res = r"
    using first by (auto simp: service_CreateOrder_def on_store_def split: sum.splits prod.splits if_splits)
  obtain o3 where o3: "store_CreateOrder sha256 pg eid2 at2 ?o2 k (sv_conn tv) = (Inr (o3, True), sv_conn tv)"
    "ord_ID o3 = ord_ID ?o1" "is_ok r \<longrightarrow> r = Inr (o3, False)"
    using stored_order_replays [OF r wf effect [unfolded sv'] retry(1) retry(2) [unfolded sv'] retry(3), of ?o2 eid2 at2]
    by (auto simp: new_order_def)
  have "tv\<lparr>sv_conn := sv_conn tv\<rparr> = tv" by simp
  then have "service_CreateOrder sha256 pg srv rnd2 n2 eid2 at2 u i q k tv = (Inr (o3, True), tv)"
    using o3(1) by (simp add: service_CreateOrder_def on_store_def)
  then show ?thesis using o3(2,3) sv'(2) by (auto simp: new_order_def)
qed

section \<open>Products the schema does not hold\<close>

lemma queryInsert_unstorable:
  assumes "stock > 2147483647 \<or> varchar_fit 100 name = None"
  shows "\<exists>e\<in>{int4_encode_error, character_not_in_repertoire, string_data_right_truncation}.
    queryInsert i name price cur stock now db = Inl e"
  using assms by (auto simp: queryInsert_def int32_ok_def split: option.splits)

lemma unstorable_raw:
  "mapDBError int4_encode_error = int4_encode_error"
  "mapDBError character_not_in_repertoire = character_not_in_repertoire"
  "mapDBError string_data_right_truncation = string_data_right_truncation"
  by (simp_all add: mapDBError_def int4_encode_error_def character_not_in_repertoire_def
      string_data_right_truncation_def sqlclass_defs)

end
