(* ===== verification/Http_Codec.thy ===== *)
theory Http_Codec
  imports Processor
begin

text \<open>
  \<open>internal/transport/http\<close>: requests and responses, \<open>codec.go\<close> and \<open>dto.go\<close>. The response writer keeps
  the header as it is when the status line goes out; later changes to it are lost. A request body is
  its bytes and the limit a middleware put on them. Reading a body decodes it as \<open>json.UnmarshalRead\<close>
  does, member by member in the order of the text, and reports the first error it meets. A body
  above the limit is reported as such, unless the decoder stumbles over the bytes before it;
  \<open>rb_fault\<close> is the error of a body that cannot be read to its end (a client that goes away, or such
  an early error), whichever it is.
\<close>

section \<open>Requests and responses\<close>

datatype decode_error =
    MaxBytesError int
  | SyntacticError
  | UnknownName string
  | SemanticError string
  | ReadError

record request_body =
  rb_bytes :: string
  rb_limit :: "int option"
  rb_fault :: "decode_error option"

record http_request =
  rq_method :: string
  rq_path :: "string list"
  rq_host :: string
  rq_query :: "(string \<times> string) list"
  rq_header :: "(string \<times> string) list"
  rq_content_length :: int
  rq_body :: request_body
  rq_path_id :: string
  rq_user :: identity

datatype http_body = Json json | MessageResponse message | PlainText string

text \<open>
  The writer, with the status recorder the access log puts around it: \<open>rw_status\<close> is the status sent, which only the
  first call decides, \<open>rw_recorded\<close> the code of the last call.
\<close>

record response_writer =
  rw_header :: "(string \<times> string) list"
  rw_status :: "nat option"
  rw_body :: "http_body list"
  rw_recorded :: nat

text \<open>\<open>Header.Get\<close> and \<open>Values.Get\<close>: the first value, or the empty text.\<close>

definition get_first :: "(string \<times> string) list \<Rightarrow> string \<Rightarrow> string" where
  "get_first kvs k = (case map_of kvs k of None \<Rightarrow> '''' | Some v \<Rightarrow> v)"

definition header_Set :: "string \<Rightarrow> string \<Rightarrow> response_writer \<Rightarrow> response_writer" where
  "header_Set k v w =
     (if rw_status w \<noteq> None then w
      else w\<lparr>rw_header := (k, v) # filter (\<lambda>(k', _). k' \<noteq> k) (rw_header w)\<rparr>)"

definition WriteHeader :: "nat \<Rightarrow> response_writer \<Rightarrow> response_writer" where
  "WriteHeader code w =
     (let w1 = w\<lparr>rw_recorded := code\<rparr> in if rw_status w \<noteq> None then w1 else w1\<lparr>rw_status := Some code\<rparr>)"

definition write_body :: "http_body \<Rightarrow> response_writer \<Rightarrow> response_writer" where
  "write_body b w = w\<lparr>rw_body := rw_body w @ [b]\<rparr>"

text \<open>\<open>http.Error\<close>.\<close>

definition http_Error :: "string \<Rightarrow> nat \<Rightarrow> response_writer \<Rightarrow> response_writer" where
  "http_Error msg code w =
     write_body (PlainText msg)
       (WriteHeader code
         (header_Set ''X-Content-Type-Options'' ''nosniff''
           (header_Set ''Content-Type'' ''text/plain; charset=utf-8'' w)))"

section \<open>Replies (codec.go)\<close>

definition MediaTypeJSON :: string where "MediaTypeJSON = ''application/json''"
definition msgEncodeFailed :: string where "msgEncodeFailed = ''error encoding data''"
definition msgBodyTooLarge :: string where "msgBodyTooLarge = ''request body too large''"
definition msgEmptyBody :: string where "msgEmptyBody = ''request body must not be empty''"
definition msgMalformedJSON :: string where "msgMalformedJSON = ''request body contains malformed JSON''"
definition msgInvalidBody :: string where "msgInvalidBody = ''invalid request body''"
definition msgInternalError :: string where "msgInternalError = ''internal server error''"
definition msgUnavailable :: string where "msgUnavailable = ''service temporarily unavailable''"
definition msgInvalidQuantity :: string where "msgInvalidQuantity = ''quantity must be between 1 and 10000''"
definition headerIdempotencyKey :: string where "headerIdempotencyKey = ''Idempotency-Key''"
definition headerIdempotencyReplayed :: string where "headerIdempotencyReplayed = ''Idempotency-Replayed''"
definition msgIdempotencyMismatch :: string where
  "msgIdempotencyMismatch = ''idempotency key reused with different payload''"
definition msgIdempotencyRequired :: string where
  "msgIdempotencyRequired = ''Idempotency-Key header is required''"

text \<open>
  What \<open>json.MarshalWrite\<close> can write: every text is valid UTF-8. The messages are: their texts are
  constants, and names are quoted.
\<close>

fun encodable :: "json \<Rightarrow> bool" where
  "encodable (JStr s) = utf8_valid s"
| "encodable (JArr xs) = list_all encodable xs"
| "encodable (JObj ms) = list_all (\<lambda>(k, v). utf8_valid k \<and> encodable v) ms"
| "encodable j = True"

fun marshalable :: "http_body \<Rightarrow> bool" where
  "marshalable (Json j) = encodable j"
| "marshalable _ = True"

definition respond :: "nat \<Rightarrow> http_body \<Rightarrow> response_writer \<Rightarrow> response_writer" where
  "respond httpCode payload w =
     (let w1 = WriteHeader httpCode (header_Set ''Content-Type'' MediaTypeJSON w) in
      if marshalable payload then write_body payload w1 else http_Error msgEncodeFailed 500 w1)"

definition respondError :: "nat \<Rightarrow> message \<Rightarrow> response_writer \<Rightarrow> response_writer" where
  "respondError code msg w = respond code (MessageResponse msg) w"

definition describeDecodeError :: "decode_error \<Rightarrow> message" where
  "describeDecodeError err =
     (case err of
        SyntacticError \<Rightarrow> Text msgMalformedJSON
      | UnknownName field \<Rightarrow> Quoting ''unknown field '' field ''''
      | SemanticError field \<Rightarrow>
          if field \<noteq> '''' then Quoting ''invalid value for the '' field '' field'' else Text msgInvalidBody
      | _ \<Rightarrow> Text msgInvalidBody)"

definition mapDecodeError :: "decode_error \<Rightarrow> message \<times> nat" where
  "mapDecodeError err =
     (case err of
        MaxBytesError limit \<Rightarrow> (Text (msgBodyTooLarge @ '': max '' @ itoa limit @ '' bytes''), 413)
      | _ \<Rightarrow> (describeDecodeError err, 400))"

definition respondDecodeError :: "decode_error \<Rightarrow> response_writer \<Rightarrow> response_writer" where
  "respondDecodeError err w = (case mapDecodeError err of (msg, status) \<Rightarrow> respondError status msg w)"

section \<open>Reading a body (codec.go)\<close>

text \<open>
  \<open>json.UnmarshalRead\<close> with unknown members rejected. A value of a string or integer field is read as a
  whole before its kind is looked at, a struct token by token; null leaves the field zero; an
  integer has neither fraction nor exponent and fits 64 bits. Errors name the innermost member.
\<close>

type_synonym 'a reader = "string \<Rightarrow> decode_error + ('a \<times> string)"

definition read_string :: "string \<Rightarrow> json reader" where
  "read_string name s =
     (case parse_value s of
        None \<Rightarrow> Inl SyntacticError
      | Some (JStr t, r) \<Rightarrow> Inr (JStr t, r)
      | Some (JNull, r) \<Rightarrow> Inr (JNull, r)
      | Some (_, r) \<Rightarrow> Inl (SemanticError name))"

definition read_int64 :: "string \<Rightarrow> json reader" where
  "read_int64 name s =
     (case parse_value s of
        None \<Rightarrow> Inl SyntacticError
      | Some (JInt n, r) \<Rightarrow> if int64_ok n then Inr (JInt n, r) else Inl (SemanticError name)
      | Some (JNull, r) \<Rightarrow> Inr (JNull, r)
      | Some (_, r) \<Rightarrow> Inl (SemanticError name))"

text \<open>
  The members of an object after its opening brace, up to and with the closing one. The length tests
  only serve termination.
\<close>

function (sequential) read_members ::
  "(string \<Rightarrow> json reader option) \<Rightarrow> string list \<Rightarrow> ((string \<times> json) list) reader" where
  "read_members field seen s =
     (case skip_ws s of
        [] \<Rightarrow> Inl SyntacticError
      | q # r \<Rightarrow>
          if q \<noteq> CHR 0x22 then Inl SyntacticError
          else case str_token r of
            None \<Rightarrow> Inl SyntacticError
          | Some (k, r1) \<Rightarrow>
              (case field k of
                 None \<Rightarrow> Inl (UnknownName k)
               | Some rd \<Rightarrow>
                   if k \<in> set seen then Inl SyntacticError
                   else (case skip_ws r1 of
                      [] \<Rightarrow> Inl SyntacticError
                    | c # r2 \<Rightarrow>
                        if c \<noteq> CHR '':'' then Inl SyntacticError
                        else (case rd r2 of
                           Inl e \<Rightarrow> Inl e
                         | Inr (v, r3) \<Rightarrow>
                             (case skip_ws r3 of
                                [] \<Rightarrow> Inl SyntacticError
                              | d # r4 \<Rightarrow>
                                  if d = CHR ''}'' then Inr ([(k, v)], r4)
                                  else if d = CHR '','' \<and> length r4 < length s
                                  then (case read_members field (k # seen) r4 of
                                          Inl e \<Rightarrow> Inl e
                                        | Inr (ms, r') \<Rightarrow> Inr ((k, v) # ms, r'))
                                  else Inl SyntacticError)))))"
  by pat_completeness auto
termination by (relation "measure (\<lambda>(_, _, s). length s)") auto

declare read_members.simps [simp del]

definition read_struct :: "string \<Rightarrow> (string \<Rightarrow> json reader option) \<Rightarrow> json reader" where
  "read_struct name field s =
     (case skip_ws s of
        [] \<Rightarrow> Inl SyntacticError
      | c # r \<Rightarrow>
          if c = CHR ''{'' then
            (if take 1 (skip_ws r) = ''}'' then Inr (JObj [], drop 1 (skip_ws r))
             else case read_members field [] r of Inl e \<Rightarrow> Inl e | Inr (ms, r') \<Rightarrow> Inr (JObj ms, r'))
          else if c = CHR ''['' then Inl (SemanticError name)
          else (case parse_value s of
                  None \<Rightarrow> Inl SyntacticError
                | Some (JNull, r') \<Rightarrow> Inr (JNull, r')
                | Some (_, r') \<Rightarrow> Inl (SemanticError name)))"

definition unmarshal :: "(string \<Rightarrow> json reader option) \<Rightarrow> string \<Rightarrow> decode_error + json" where
  "unmarshal field body =
     (case read_struct '''' field body of
        Inl e \<Rightarrow> Inl e
      | Inr (j, r) \<Rightarrow> if skip_ws r = [] then Inr j else Inl SyntacticError)"

definition decodeBody :: "(string \<Rightarrow> json reader option) \<Rightarrow> request_body \<Rightarrow> decode_error + json" where
  "decodeBody field b =
     (case rb_fault b of
        Some e \<Rightarrow> Inl e
      | None \<Rightarrow>
          (case rb_limit b of
             None \<Rightarrow> unmarshal field (rb_bytes b)
           | Some limit \<Rightarrow>
               if int (length (rb_bytes b)) \<le> limit then unmarshal field (rb_bytes b)
               else Inl (MaxBytesError limit)))"

section \<open>Inputs (handler.go)\<close>

record moneyInput =
  mi_MinorAmount :: int
  mi_Currency :: currency

record addInput =
  ai_Name :: string
  ai_Stock :: int
  ai_Price :: moneyInput

record updateInput =
  ui_Name :: string
  ui_Price :: moneyInput

record createOrderInput =
  ci_ProductID :: string
  ci_Quantity :: int

text \<open>The fields a struct declares, by the names of its tags.\<close>

definition money_fields :: "string \<Rightarrow> json reader option" where
  "money_fields k =
     (if k = ''minorAmount'' then Some (read_int64 k) else if k = ''currency'' then Some (read_string k) else None)"

definition add_fields :: "string \<Rightarrow> json reader option" where
  "add_fields k =
     (if k = ''name'' then Some (read_string k) else if k = ''stock'' then Some (read_int64 k)
      else if k = ''price'' then Some (read_struct k money_fields) else None)"

definition update_fields :: "string \<Rightarrow> json reader option" where
  "update_fields k =
     (if k = ''name'' then Some (read_string k) else if k = ''price'' then Some (read_struct k money_fields) else None)"

definition order_fields :: "string \<Rightarrow> json reader option" where
  "order_fields k =
     (if k = ''productId'' then Some (read_string k) else if k = ''quantity'' then Some (read_int64 k) else None)"

definition str_member :: "json \<Rightarrow> string \<Rightarrow> string" where
  "str_member j k = (case j of JObj ms \<Rightarrow> (case map_of ms k of Some (JStr s) \<Rightarrow> s | _ \<Rightarrow> '''') | _ \<Rightarrow> '''')"

definition int_member :: "json \<Rightarrow> string \<Rightarrow> int" where
  "int_member j k = (case j of JObj ms \<Rightarrow> (case map_of ms k of Some (JInt n) \<Rightarrow> n | _ \<Rightarrow> 0) | _ \<Rightarrow> 0)"

definition obj_member :: "json \<Rightarrow> string \<Rightarrow> json" where
  "obj_member j k = (case j of JObj ms \<Rightarrow> (case map_of ms k of Some v \<Rightarrow> v | None \<Rightarrow> JNull) | _ \<Rightarrow> JNull)"

definition money_of_json :: "json \<Rightarrow> moneyInput" where
  "money_of_json j = \<lparr>mi_MinorAmount = int_member j ''minorAmount'', mi_Currency = str_member j ''currency''\<rparr>"

definition decode_add :: "request_body \<Rightarrow> decode_error + addInput" where
  "decode_add b =
     (case decodeBody add_fields b of
        Inl e \<Rightarrow> Inl e
      | Inr j \<Rightarrow> Inr \<lparr>ai_Name = str_member j ''name'', ai_Stock = int_member j ''stock'',
                    ai_Price = money_of_json (obj_member j ''price'')\<rparr>)"

definition decode_update :: "request_body \<Rightarrow> decode_error + updateInput" where
  "decode_update b =
     (case decodeBody update_fields b of
        Inl e \<Rightarrow> Inl e
      | Inr j \<Rightarrow> Inr \<lparr>ui_Name = str_member j ''name'', ui_Price = money_of_json (obj_member j ''price'')\<rparr>)"

definition decode_order :: "request_body \<Rightarrow> decode_error + createOrderInput" where
  "decode_order b =
     (case decodeBody order_fields b of
        Inl e \<Rightarrow> Inl e
      | Inr j \<Rightarrow> Inr \<lparr>ci_ProductID = str_member j ''productId'', ci_Quantity = int_member j ''quantity''\<rparr>)"

section \<open>Payloads (dto.go)\<close>

record moneyDTO =
  md_MinorAmount :: int
  md_Currency :: currency

record productResponse =
  prs_ID :: uuid
  prs_Name :: string
  prs_Stock :: int
  prs_Price :: moneyDTO

record productsPage =
  psp_Items :: "productResponse list"
  psp_NextCursor :: string

record orderResponse =
  ors_ID :: uuid
  ors_ProductID :: uuid
  ors_Quantity :: int
  ors_UnitPrice :: moneyDTO
  ors_CreatedAt :: timestamp

type_synonym createOrderResponse = orderResponse

record ordersPage =
  osp_Items :: "orderResponse list"
  osp_NextCursor :: string

definition toMoneyDTO :: "money \<Rightarrow> moneyDTO" where
  "toMoneyDTO m = \<lparr>md_MinorAmount = MinorAmount m, md_Currency = Currency m\<rparr>"

definition toMoney :: "moneyInput \<Rightarrow> money" where
  "toMoney m = \<lparr>MinorAmount = mi_MinorAmount m, Currency = mi_Currency m\<rparr>"

definition toProductResponse :: "product \<Rightarrow> productResponse" where
  "toProductResponse p = \<lparr>prs_ID = prod_ID p, prs_Name = prod_Name p, prs_Stock = prod_Stock p,
     prs_Price = toMoneyDTO (prod_Price p)\<rparr>"

definition toOrderResponse :: "order \<Rightarrow> orderResponse" where
  "toOrderResponse x = \<lparr>ors_ID = ord_ID x, ors_ProductID = ord_ProductID x, ors_Quantity = ord_Quantity x,
     ors_UnitPrice = toMoneyDTO (ord_UnitPrice x), ors_CreatedAt = ord_CreatedAt x\<rparr>"

definition toCreateOrderResponse :: "order \<Rightarrow> createOrderResponse" where
  "toCreateOrderResponse x = \<lparr>ors_ID = ord_ID x, ors_ProductID = ord_ProductID x, ors_Quantity = ord_Quantity x,
     ors_UnitPrice = toMoneyDTO (ord_UnitPrice x), ors_CreatedAt = ord_CreatedAt x\<rparr>"

definition zero_productResponse :: productResponse where
  "zero_productResponse = toProductResponse zero_product"

definition zero_orderResponse :: orderResponse where
  "zero_orderResponse = \<lparr>ors_ID = uuid_nil, ors_ProductID = uuid_nil, ors_Quantity = 0,
     ors_UnitPrice = \<lparr>md_MinorAmount = 0, md_Currency = ''''\<rparr>, ors_CreatedAt = 0\<rparr>"

definition toProductsPage :: "product_page \<Rightarrow> productsPage" where
  "toProductsPage page = \<lparr>psp_Items = mapSlice (pp_Items page) toProductResponse zero_productResponse,
     psp_NextCursor = product_NextCursor page\<rparr>"

definition toOrdersPage :: "order_page \<Rightarrow> ordersPage" where
  "toOrdersPage page = \<lparr>osp_Items = mapSlice (op_Items page) toOrderResponse zero_orderResponse,
     osp_NextCursor = order_NextCursor page\<rparr>"

text \<open>Their JSON, by the tags: \<open>nextCursor\<close> is left out when empty.\<close>

definition money_json :: "moneyDTO \<Rightarrow> json" where
  "money_json m = JObj [(''minorAmount'', JInt (md_MinorAmount m)), (''currency'', JStr (md_Currency m))]"

definition product_json :: "productResponse \<Rightarrow> json" where
  "product_json p = JObj [(''id'', JStr (uuid_string (prs_ID p))), (''name'', JStr (prs_Name p)),
     (''stock'', JInt (prs_Stock p)), (''price'', money_json (prs_Price p))]"

definition order_json :: "orderResponse \<Rightarrow> json" where
  "order_json x = JObj [(''id'', JStr (uuid_string (ors_ID x))), (''productId'', JStr (uuid_string (ors_ProductID x))),
     (''quantity'', JInt (ors_Quantity x)), (''unitPrice'', money_json (ors_UnitPrice x)),
     (''createdAt'', JTime (ors_CreatedAt x))]"

definition page_json :: "json list \<Rightarrow> string \<Rightarrow> json" where
  "page_json items next =
     JObj ((''items'', JArr items) # (if next = '''' then [] else [(''nextCursor'', JStr next)]))"

definition products_page_json :: "productsPage \<Rightarrow> json" where
  "products_page_json p = page_json (map product_json (psp_Items p)) (psp_NextCursor p)"

definition orders_page_json :: "ordersPage \<Rightarrow> json" where
  "orders_page_json p = page_json (map order_json (osp_Items p)) (osp_NextCursor p)"

end
