(* ===== verification/Net_Url.thy ===== *)
theory Net_Url
  imports Auth Json_Text
begin

text \<open>
  The parts of \<open>net/url\<close> the program relies on, with the \<open>net/netip\<close> check of a bracketed address: rendering a URL with
  its escapes, reading one, and what reads back. Connection URLs are rendered by \<open>config.go\<close> and read by the
  drivers; origins are read by the cross-origin check.
\<close>

section \<open>Escaping (net/url)\<close>

datatype url_mode = EncodePath | EncodeHost | EncodeZone | EncodeUserPassword | EncodeQueryComponent

definition is_alnum :: "char \<Rightarrow> bool" where
  "is_alnum c \<longleftrightarrow> (let b = byte_val c in 97 \<le> b \<and> b \<le> 122 \<or> 65 \<le> b \<and> b \<le> 90 \<or> 48 \<le> b \<and> b \<le> 57)"

definition shouldEscape :: "url_mode \<Rightarrow> char \<Rightarrow> bool" where
  "shouldEscape mode c =
     (if is_alnum c then False
      else if mode \<in> {EncodeHost, EncodeZone} \<and> c \<in> set (''!$&()*+,;=:[]<>'' @ [CHR 0x27, CHR 0x22]) then False
      else if c \<in> set ''-_.~'' then False
      else if c \<in> set ''$&+,/:;=?@'' then
        (case mode of
           EncodePath \<Rightarrow> c = CHR ''?''
         | EncodeUserPassword \<Rightarrow> c \<in> set ''@/?:''
         | _ \<Rightarrow> True)
      else True)"

definition upper_hex :: "nat \<Rightarrow> char" where
  "upper_hex d = char_of (if d < 10 then 48 + d else 55 + d)"

definition escape_char :: "url_mode \<Rightarrow> char \<Rightarrow> string" where
  "escape_char mode c =
     (if \<not> shouldEscape mode c then [c]
      else if mode = EncodeQueryComponent \<and> c = CHR '' '' then ''+''
      else [CHR ''%'', upper_hex (byte_val c div 16), upper_hex (byte_val c mod 16)])"

definition url_escape :: "url_mode \<Rightarrow> string \<Rightarrow> string" where
  "url_escape mode s = concat (map (escape_char mode) s)"

text \<open>
  \<open>unescape\<close> fails on a malformed escape, in a host on an escaped ASCII byte other than \<open>%\<close>, and in the zone of an
  address on an escape of what may not stand there (but \<open>%\<close> and the blank).
\<close>

fun url_unescape :: "url_mode \<Rightarrow> string \<Rightarrow> string option" where
  "url_unescape mode [] = Some []"
| "url_unescape mode (c # r) =
     (if c = CHR ''%'' then
        (case r of
           a # b # rest \<Rightarrow>
             (case (hex_value a, hex_value b) of
                (Some x, Some y) \<Rightarrow>
                  if mode = EncodeHost \<and> x < 8 \<and> \<not> (x = 2 \<and> y = 5) then None
                  else if mode = EncodeZone \<and> \<not> (x = 2 \<and> y = 5) \<and> 16 * x + y \<noteq> 32
                    \<and> shouldEscape EncodeHost (char_of (16 * x + y)) then None
                  else map_option ((#) (char_of (16 * x + y))) (url_unescape mode rest)
              | _ \<Rightarrow> None)
         | _ \<Rightarrow> None)
      else if mode \<in> {EncodeHost, EncodeZone} \<and> byte_val c < 128 \<and> shouldEscape mode c then None
      else map_option ((#) (if mode = EncodeQueryComponent \<and> c = CHR ''+'' then CHR '' '' else c)) (url_unescape mode r))"

section \<open>Rendering and reading (net/url)\<close>

text \<open>\<open>url.UserPassword\<close> gives a user with a password. A user with neither name nor password has an empty text.\<close>

record url =
  u_Scheme :: string
  u_User :: "(string \<times> string option) option"
  u_Host :: string
  u_Path :: string
  u_RawQuery :: string

definition UserPassword :: "string \<Rightarrow> string \<Rightarrow> string \<times> string option" where
  "UserPassword user password = (user, Some password)"

definition Userinfo_String :: "string \<times> string option \<Rightarrow> string" where
  "Userinfo_String ui =
     (case ui of
        (user, None) \<Rightarrow> url_escape EncodeUserPassword user
      | (user, Some password) \<Rightarrow>
          if user = '''' \<and> password = '''' then ''''
          else url_escape EncodeUserPassword user @ '':'' @ url_escape EncodeUserPassword password)"

definition EscapedPath :: "url \<Rightarrow> string" where
  "EscapedPath u = (if u_Path u = ''*'' then ''*'' else url_escape EncodePath (u_Path u))"

definition url_String :: "url \<Rightarrow> string" where
  "url_String u =
     (let path = EscapedPath u in
      (if u_Scheme u \<noteq> '''' then u_Scheme u @ '':'' else '''')
      @ (if u_Host u \<noteq> '''' \<or> u_Path u \<noteq> '''' \<or> u_User u \<noteq> None then ''//'' else '''')
      @ (case u_User u of None \<Rightarrow> '''' | Some ui \<Rightarrow> Userinfo_String ui @ ''@'')
      @ url_escape EncodeHost (u_Host u)
      @ (if path \<noteq> '''' \<and> take 1 path \<noteq> ''/'' \<and> u_Host u \<noteq> '''' then ''/'' else '''') @ path
      @ (if u_RawQuery u \<noteq> '''' then ''?'' @ u_RawQuery u else ''''))"

text \<open>\<open>Values.Encode\<close> of one key.\<close>

definition values_Encode :: "string \<Rightarrow> string \<Rightarrow> string" where
  "values_Encode k v = url_escape EncodeQueryComponent k @ ''='' @ url_escape EncodeQueryComponent v"

text \<open>\<open>strings.Cut\<close> at a character, and at its last occurrence.\<close>

definition cut_at :: "char \<Rightarrow> string \<Rightarrow> string \<times> string" where
  "cut_at c s = (let a = takeWhile (\<lambda>x. x \<noteq> c) s in (a, drop (Suc (length a)) s))"

definition cut_last :: "char \<Rightarrow> string \<Rightarrow> string \<times> string" where
  "cut_last c s = (let b = rev (takeWhile (\<lambda>x. x \<noteq> c) (rev s)) in (take (length s - Suc (length b)) s, b))"

definition userinfo_char :: "char \<Rightarrow> bool" where
  "userinfo_char c \<longleftrightarrow> is_alnum c \<or> c \<in> set (''-._:~!$&()*+,;=%@'' @ [CHR 0x27])"

definition parse_user :: "string \<Rightarrow> (string \<times> string option) option" where
  "parse_user info =
     (if \<not> list_all userinfo_char info then None
      else if CHR '':'' \<notin> set info then map_option (\<lambda>user. (user, None)) (url_unescape EncodeUserPassword info)
      else case cut_at CHR '':'' info of
        (a, b) \<Rightarrow>
          (case (url_unescape EncodeUserPassword a, url_unescape EncodeUserPassword b) of
             (Some user, Some password) \<Rightarrow> Some (user, Some password) | _ \<Rightarrow> None))"

text \<open>
  \<open>netip.ParseAddr\<close>, for addresses of the sixth version: groups of at most four hexadecimal digits, one \<open>::\<close> for groups
  left out, the last two groups perhaps as four decimal fields, and a zone that is not empty.
\<close>

fun split_on :: "char \<Rightarrow> string \<Rightarrow> string list" where
  "split_on x [] = [[]]"
| "split_on x (c # r) =
     (if c = x then [] # split_on x r else case split_on x r of y # ys \<Rightarrow> (c # y) # ys | [] \<Rightarrow> [[c]])"

definition ipv4_field :: "string \<Rightarrow> bool" where
  "ipv4_field f \<longleftrightarrow> f \<noteq> [] \<and> list_all is_digit f \<and> digits_value f \<le> 255 \<and> (length f = 1 \<or> hd f \<noteq> CHR ''0'')"

definition ipv4_text :: "string \<Rightarrow> bool" where
  "ipv4_text s \<longleftrightarrow> (let fs = split_on CHR ''.'' s in length fs = 4 \<and> list_all ipv4_field fs)"

definition is_hex :: "char \<Rightarrow> bool" where
  "is_hex c \<longleftrightarrow> hex_value c \<noteq> None"

text \<open>The fields of the address from the \<open>i\<close>-th of eight, after the ellipsis or before one.\<close>

function (sequential) v6_fields :: "nat \<Rightarrow> bool \<Rightarrow> string \<Rightarrow> bool" where
  "v6_fields i ellipsis s =
     (if 8 \<le> i then False
      else let g = takeWhile is_hex s; r = dropWhile is_hex s in
        if g = [] \<or> length g > 4 then False
        else (case r of
           [] \<Rightarrow> ellipsis \<longleftrightarrow> i + 1 < 8
         | c # t \<Rightarrow>
             if c = CHR ''.'' then (ellipsis \<or> i = 6) \<and> ipv4_text s \<and> i + 2 \<le> 8 \<and> (ellipsis \<longleftrightarrow> i + 2 < 8)
             else if c \<noteq> CHR '':'' then False
             else (case t of
                [] \<Rightarrow> False
              | d # u \<Rightarrow>
                  if d = CHR '':'' then \<not> ellipsis \<and> (if u = [] then i + 1 < 8 else v6_fields (i + 1) True u)
                  else v6_fields (i + 1) ellipsis t)))"
  by pat_completeness auto
termination by (relation "measure (\<lambda>(i, _, _). 8 - i)") auto

declare v6_fields.simps [simp del]

definition ipv6_text :: "string \<Rightarrow> bool" where
  "ipv6_text n \<longleftrightarrow>
     (let s = takeWhile (\<lambda>c. c \<noteq> CHR ''%'') n in
      drop (length s) n \<noteq> ''%'' \<and> take 1 (dropWhile (\<lambda>c. c \<notin> set ''.:%'') n) = '':''
      \<and> (if take 2 s = ''::'' then drop 2 s = [] \<or> v6_fields 0 True (drop 2 s) else v6_fields 0 False s))"

text \<open>A host name or an address in brackets, its zone escaped, with an optional port of digits.\<close>

fun cut_zone :: "string \<Rightarrow> string \<times> string" where
  "cut_zone [] = ([], [])"
| "cut_zone (c # r) =
     (if take 3 (c # r) = ''%25'' then ([], c # r) else case cut_zone r of (a, b) \<Rightarrow> (c # a, b))"

definition optional_port :: "string \<Rightarrow> bool" where
  "optional_port p \<longleftrightarrow> p = [] \<or> hd p = CHR '':'' \<and> list_all is_digit (tl p)"

definition parse_host :: "string \<Rightarrow> string option" where
  "parse_host h =
     (if CHR ''['' \<in> set (drop 1 h) then None
      else if take 1 h = ''['' then
        (if CHR '']'' \<notin> set h then None
         else case cut_last CHR '']'' h of
           (a, port) \<Rightarrow>
             (case cut_zone (drop 1 a) of
                (name, zone) \<Rightarrow>
                  (case (url_unescape EncodeHost port, url_unescape EncodeHost name, url_unescape EncodeZone zone) of
                     (Some p, Some n, Some z) \<Rightarrow>
                       if optional_port port \<and> ipv6_text (n @ z) then Some (''['' @ n @ z @ '']'' @ p) else None
                   | _ \<Rightarrow> None)))
      else if CHR '':'' \<in> set h \<and> \<not> list_all is_digit (snd (cut_at CHR '':'' h)) then None
      else url_unescape EncodeHost h)"

definition parse_authority :: "string \<Rightarrow> ((string \<times> string option) option \<times> string) option" where
  "parse_authority a =
     (if CHR ''@'' \<notin> set a then map_option (\<lambda>h. (None, h)) (parse_host a)
      else case cut_last CHR ''@'' a of
        (info, host) \<Rightarrow>
          (case (parse_host host, parse_user info) of
             (Some h, Some ui) \<Rightarrow> Some (Some ui, h) | _ \<Rightarrow> None))"

text \<open>
  \<open>url.Parse\<close>: None is an error. A text may have no scheme; one with a scheme and no slash after it is opaque, and
  leaves host and path empty. The fragment is cut off, if its escapes are well formed.
\<close>

definition get_scheme :: "string \<Rightarrow> (string \<times> string) option" where
  "get_scheme t =
     (let s = takeWhile (\<lambda>c. is_alnum c \<or> c \<in> set ''+-.'') t in
      case drop (length s) t of
        [] \<Rightarrow> Some ('''', t)
      | c # r \<Rightarrow>
          if c \<noteq> CHR '':'' then Some ('''', t)
          else if s = [] then None
          else if is_alnum (hd s) \<and> \<not> is_digit (hd s) then Some (s, r)
          else Some ('''', t))"

definition url_Parse :: "string \<Rightarrow> url option" where
  "url_Parse s =
     (case cut_at CHR ''#'' s of (t, fragment) \<Rightarrow>
        if list_ex (\<lambda>c. byte_val c < 32 \<or> byte_val c = 127) t \<or> url_unescape EncodePath fragment = None then None
        else if t = ''*'' then Some \<lparr>u_Scheme = '''', u_User = None, u_Host = '''', u_Path = ''*'', u_RawQuery = ''''\<rparr>
        else case get_scheme t of
          None \<Rightarrow> None
        | Some (scheme, rest) \<Rightarrow>
            (case cut_at CHR ''?'' rest of (hier, query) \<Rightarrow>
               let auth = takeWhile (\<lambda>c. c \<noteq> CHR ''/'') (drop 2 hier);
                   u = \<lparr>u_Scheme = map ascii_lower scheme, u_User = None, u_Host = '''', u_Path = '''', u_RawQuery = query\<rparr> in
               if take 1 hier \<noteq> ''/'' \<and> scheme \<noteq> '''' then Some u
               else if take 1 hier \<noteq> ''/'' \<and> CHR '':'' \<in> set (fst (cut_at CHR ''/'' hier)) then None
               else if take 2 hier = ''//'' \<and> (scheme \<noteq> '''' \<or> take 3 hier \<noteq> ''///'') then
                 (case (parse_authority auth, url_unescape EncodePath (drop (2 + length auth) hier)) of
                    (Some (ui, host), Some path) \<Rightarrow> Some (u\<lparr>u_User := ui, u_Host := host, u_Path := path\<rparr>)
                  | _ \<Rightarrow> None)
               else map_option (\<lambda>path. u\<lparr>u_Path := path\<rparr>) (url_unescape EncodePath hier)))"

text \<open>\<open>ParseQuery\<close>: pairs separated by \<open>&\<close>, each cut at its first \<open>=\<close>.\<close>

definition parse_pair :: "string \<Rightarrow> (string \<times> string) option" where
  "parse_pair p =
     (case cut_at CHR ''='' p of (k, v) \<Rightarrow>
        (case (url_unescape EncodeQueryComponent k, url_unescape EncodeQueryComponent v) of
           (Some k', Some v') \<Rightarrow> Some (k', v') | _ \<Rightarrow> None))"

definition ParseQuery :: "string \<Rightarrow> (string \<times> string) option list" where
  "ParseQuery q = map parse_pair (filter (\<lambda>p. p \<noteq> []) (split_on CHR ''&'' q))"

section \<open>What is escaped reads back\<close>

lemma hex_value_upper: "d < 16 \<Longrightarrow> hex_value (upper_hex d) = Some d"
  by (auto simp: hex_value_def upper_hex_def byte_val_def Let_def)

lemma byte_val_less: "byte_val c < 256"
  by (simp add: byte_val_def)

lemma hex_pair_char: "char_of (16 * (byte_val c div 16) + byte_val c mod 16) = c"
  by (simp add: byte_val_def)

lemma percent_escaped: "shouldEscape mode (CHR ''%'')"
  by (cases mode) (simp_all add: shouldEscape_def is_alnum_def byte_val_def)

lemma plus_escaped: "shouldEscape EncodeQueryComponent (CHR ''+'')"
  by (simp add: shouldEscape_def is_alnum_def byte_val_def)

lemma url_unescape_escape_char:
  assumes "mode \<noteq> EncodeHost" "mode \<noteq> EncodeZone"
  shows "url_unescape mode (escape_char mode c @ s) = map_option ((#) c) (url_unescape mode s)"
proof (cases "shouldEscape mode c")
  case False
  then have "c \<noteq> CHR ''%''" "mode = EncodeQueryComponent \<Longrightarrow> c \<noteq> CHR ''+''" using percent_escaped plus_escaped by auto
  then show ?thesis using False assms by (auto simp: escape_char_def)
next
  case True
  have "hex_value (upper_hex (byte_val c div 16)) = Some (byte_val c div 16)"
    "hex_value (upper_hex (byte_val c mod 16)) = Some (byte_val c mod 16)"
    using byte_val_less [of c] by (simp_all add: hex_value_upper less_mult_imp_div_less)
  then show ?thesis using True assms by (auto simp: escape_char_def hex_pair_char)
qed

lemma url_unescape_escape: "mode \<noteq> EncodeHost \<Longrightarrow> mode \<noteq> EncodeZone \<Longrightarrow> url_unescape mode (url_escape mode s) = Some s"
  by (induction s) (simp_all add: url_escape_def url_unescape_escape_char)


text \<open>Which characters an escaped text has: digits of an escape, a plus sign for a blank, or what needs no escape.\<close>

definition url_safe :: "url_mode \<Rightarrow> char \<Rightarrow> bool" where
  "url_safe mode c \<longleftrightarrow> c = CHR ''%'' \<or> is_alnum c \<or> (mode = EncodeQueryComponent \<and> c = CHR ''+'') \<or> \<not> shouldEscape mode c"

lemma upper_hex_alnum: "d < 16 \<Longrightarrow> is_alnum (upper_hex d)"
  by (auto simp: is_alnum_def upper_hex_def byte_val_def Let_def)

lemma set_url_escape: "c \<in> set (url_escape mode s) \<Longrightarrow> url_safe mode c"
proof (induction s)
  case (Cons x s)
  have "byte_val x div 16 < 16" using byte_val_less [of x] by (simp add: less_mult_imp_div_less)
  then have "url_safe mode c" if "c \<in> set (escape_char mode x)"
    using that by (auto simp: escape_char_def url_safe_def upper_hex_alnum split: if_splits)
  then show ?case using Cons by (auto simp: url_escape_def)
qed (simp add: url_escape_def)

lemma escape_avoids:
  "\<not> url_safe mode c \<Longrightarrow> c \<notin> set (url_escape mode s)"
  using set_url_escape by blast

lemma url_delims:
  "\<forall>c\<in>set ''@:/?#''. \<not> url_safe EncodeUserPassword c" "\<forall>c\<in>set ''?#''. \<not> url_safe EncodePath c"
  "\<forall>c\<in>set ''&=?#:/''. \<not> url_safe EncodeQueryComponent c"
  by (simp_all add: url_safe_def shouldEscape_def is_alnum_def byte_val_def)

lemma printable_sets:
  "c \<in> set (''!$&()*+,;=:[]<>'' @ [CHR 0x27, CHR 0x22]) \<union> set ''-_.~'' \<union> set ''$&+,/:;=?@'' \<union> set ''%+''
    \<Longrightarrow> 32 \<le> byte_val c \<and> byte_val c < 127"
  by (auto simp: byte_val_def)

lemma url_safe_printable:
  assumes "url_safe mode c"
  shows "32 \<le> byte_val c \<and> byte_val c \<noteq> 127"
proof (cases "is_alnum c")
  case True
  then show ?thesis by (auto simp: is_alnum_def Let_def)
next
  case False
  then have "c \<in> set (''!$&()*+,;=:[]<>'' @ [CHR 0x27, CHR 0x22]) \<union> set ''-_.~'' \<union> set ''$&+,/:;=?@'' \<union> set ''%+''"
    using assms unfolding url_safe_def shouldEscape_def by (auto split: if_splits)
  from printable_sets [OF this] show ?thesis by simp
qed

lemma user_char_safe: "url_safe EncodeUserPassword c \<Longrightarrow> userinfo_char c"
  by (auto simp: url_safe_def shouldEscape_def userinfo_char_def split: if_splits)


section \<open>What is rendered reads back\<close>

lemma cut_at_append: "c \<notin> set a \<Longrightarrow> cut_at c (a @ c # b) = (a, b)"
  by (simp add: cut_at_def takeWhile_until)

lemma cut_at_none: "c \<notin> set a \<Longrightarrow> cut_at c a = (a, [])"
proof -
  assume "c \<notin> set a"
  then have all: "takeWhile (\<lambda>x. x \<noteq> c) a = a" by (auto simp: takeWhile_eq_all_conv)
  show ?thesis unfolding cut_at_def all by simp
qed

lemma cut_last_append: "c \<notin> set b \<Longrightarrow> cut_last c (a @ c # b) = (a, b)"
  using takeWhile_until [of c "rev b" "rev a"] by (simp add: cut_last_def)

lemma split_on_none: "c \<notin> set p \<Longrightarrow> split_on c p = [p]"
  by (induction p) auto

end
