(* ===== verification/Http.thy ===== *)
theory Http
  imports Http_Codec Net_Url
begin

text \<open>
  \<open>internal/transport/http\<close>: the handlers, the router, the middleware chain and the probes. A handler
  reads the request, writes to the response writer and steps the state; its first result says
  whether it returned or panicked. The path is the list of its unescaped segments after the mux has
  cleaned it; the mux puts the segment a pattern names \<open>{id}\<close> into \<open>rq_path_id\<close>. Header names are in
  canonical form. The CORS and compression middlewares are third-party code: they are arguments of
  the chain. Request deadlines reach the service as faults of its connection; log lines are left out.
\<close>

section \<open>Handlers (handler.go)\<close>

type_synonym 's handler = "http_request \<Rightarrow> response_writer \<Rightarrow> 's \<Rightarrow> bool \<times> response_writer \<times> 's"

definition served :: "response_writer \<Rightarrow> 's \<Rightarrow> bool \<times> response_writer \<times> 's" where
  "served w s = (True, w, s)"

definition http_internalError :: "response_writer \<Rightarrow> response_writer" where
  "http_internalError w = respondError 500 (Text msgInternalError) w"

definition respondServerError :: "go_error \<Rightarrow> response_writer \<Rightarrow> response_writer" where
  "respondServerError err w =
     (if errors_is err ErrUnavailable then respondError 503 (Text msgUnavailable) w
      else http_internalError w)"

definition parseLimit :: "string \<Rightarrow> go_error + int" where
  "parseLimit raw =
     (if raw = '''' then Inr DefaultPageSize
      else case atoi raw of
        None \<Rightarrow> Inl (ErrQuoted ''invalid limit: '' raw)
      | Some n \<Rightarrow> Inr (NormalizePageSize n))"

definition idempotencyFromHeader :: "http_request \<Rightarrow> go_error + idempotency_key" where
  "idempotencyFromHeader r =
     (let key = get_first (rq_header r) headerIdempotencyKey in
      if key = '''' then Inl (ErrText msgIdempotencyRequired)
      else if length key > MaxIdempotencyKeyLen
      then Inl (ErrText (headerIdempotencyKey @ '' must be at most 255 bytes''))
      else Inr key)"

definition http_GetByID :: "'s processor \<Rightarrow> 's handler" where
  "http_GetByID P r w s =
     (case uuid_Parse (rq_path_id r) of
        Inl err \<Rightarrow> served (respondError 400 (ErrorOf err) w) s
      | Inr i \<Rightarrow>
          (case pr_FindByID P i s of
             (Inl err, s1) \<Rightarrow>
               if errors_is err ErrNotFound then served (respondError 404 (Text ''product not found'') w) s1
               else served (respondServerError err w) s1
           | (Inr p, s1) \<Rightarrow> served (respond 200 (Json (product_json (toProductResponse p))) w) s1))"

definition http_Get :: "'s processor \<Rightarrow> 's handler" where
  "http_Get P r w s =
     (case parseLimit (get_first (rq_query r) ''limit'') of
        Inl err \<Rightarrow> served (respondError 400 (ErrorOf err) w) s
      | Inr limit \<Rightarrow>
          (case ParseCursor (get_first (rq_query r) ''cursor'') of
             Inl err \<Rightarrow> served (respondError 400 (ErrorOf err) w) s
           | Inr cursor \<Rightarrow>
               (case pr_FindAll P cursor limit s of
                  (Inl err, s1) \<Rightarrow> served (respondServerError err w) s1
                | (Inr page, s1) \<Rightarrow> served (respond 200 (Json (products_page_json (toProductsPage page))) w) s1)))"

definition http_Add :: "'s processor \<Rightarrow> 's handler" where
  "http_Add P r w s =
     (if rq_content_length r = 0 then served (respondError 400 (Text msgEmptyBody) w) s
      else case decode_add (rq_body r) of
        Inl err \<Rightarrow> served (respondDecodeError err w) s
      | Inr inp \<Rightarrow>
          (let p = zero_product\<lparr>prod_Name := ai_Name inp, prod_Price := toMoney (ai_Price inp), prod_Stock := ai_Stock inp\<rparr> in
           case product_Validate p of
             Some err \<Rightarrow> served (respondError 422 (ErrorOf err) w) s
           | None \<Rightarrow>
               (case pr_Create P p s of
                  (Inl err, s1) \<Rightarrow> served (respondServerError err w) s1
                | (Inr result, s1) \<Rightarrow> served (respond 201 (Json (product_json (toProductResponse result))) w) s1)))"

definition http_Delete :: "'s processor \<Rightarrow> 's handler" where
  "http_Delete P r w s =
     (case uuid_Parse (rq_path_id r) of
        Inl err \<Rightarrow> served (respondError 400 (ErrorOf err) w) s
      | Inr i \<Rightarrow>
          (case pr_Delete P i s of
             (Inl err, s1) \<Rightarrow>
               if errors_is err ErrNotFound
               then served (respondError 404 (Text ''unable to delete product, which does not exist'') w) s1
               else if errors_is err ErrProductInUse
               then served (respondError 409 (Text ''product has existing orders'') w) s1
               else served (respondServerError err w) s1
           | (Inr _, s1) \<Rightarrow> served (respond 200 (MessageResponse (Text ''product deleted'')) w) s1))"

definition http_Update :: "'s processor \<Rightarrow> 's handler" where
  "http_Update P r w s =
     (case uuid_Parse (rq_path_id r) of
        Inl err \<Rightarrow> served (respondError 400 (ErrorOf err) w) s
      | Inr i \<Rightarrow>
          if rq_content_length r = 0 then served (respondError 400 (Text msgEmptyBody) w) s
          else case decode_update (rq_body r) of
            Inl err \<Rightarrow> served (respondDecodeError err w) s
          | Inr inp \<Rightarrow>
              (let p = zero_product\<lparr>prod_ID := i, prod_Name := ui_Name inp, prod_Price := toMoney (ui_Price inp)\<rparr> in
               case product_Validate p of
                 Some err \<Rightarrow> served (respondError 422 (ErrorOf err) w) s
               | None \<Rightarrow>
                   (case pr_Update P p s of
                      (Inl err, s1) \<Rightarrow>
                        if errors_is err ErrNotFound
                        then served (respondError 404 (Text ''unable to update product, which does not exist'') w) s1
                        else served (respondServerError err w) s1
                    | (Inr updated, s1) \<Rightarrow>
                        served (respond 200 (Json (product_json (toProductResponse updated))) w) s1)))"

text \<open>\<open>callerID\<close> answers the caller, or replies itself.\<close>

definition http_callerID :: "http_request \<Rightarrow> response_writer \<Rightarrow> response_writer + uuid" where
  "http_callerID r w =
     (case auth_UserID (rq_user r) of None \<Rightarrow> Inl (http_internalError w) | Some userID \<Rightarrow> Inr userID)"

definition http_CreateOrder :: "'s processor \<Rightarrow> 's handler" where
  "http_CreateOrder P r w s =
     (case http_callerID r w of
        Inl w1 \<Rightarrow> served w1 s
      | Inr userID \<Rightarrow>
          if rq_content_length r = 0 then served (respondError 400 (Text msgEmptyBody) w) s
          else case decode_order (rq_body r) of
            Inl err \<Rightarrow> served (respondDecodeError err w) s
          | Inr inp \<Rightarrow>
              (case uuid_Parse (ci_ProductID inp) of
                 Inl err \<Rightarrow> served (respondError 400 (ErrorOf err) w) s
               | Inr productID \<Rightarrow>
                   (case idempotencyFromHeader r of
                      Inl err \<Rightarrow> served (respondError 400 (ErrorOf err) w) s
                    | Inr idem \<Rightarrow>
                        if \<not> ValidPurchaseQuantity (ci_Quantity inp)
                        then served (respondError 422 (Text msgInvalidQuantity) w) s
                        else
                          (case pr_CreateOrder P userID productID (ci_Quantity inp) idem s of
                             (Inl err, s1) \<Rightarrow>
                               if errors_is err ErrNotFound
                               then served (respondError 404 (Text ''product not found'') w) s1
                               else if errors_is err ErrInsufficientStock
                               then served (respondError 409 (Text ''insufficient stock'') w) s1
                               else if errors_is err ErrIdempotencyMismatch
                               then served (respondError 422 (Text msgIdempotencyMismatch) w) s1
                               else served (respondServerError err w) s1
                           | (Inr (order, replayed), s1) \<Rightarrow>
                               let w1 = header_Set ''Location'' (''/v1/orders/'' @ uuid_string (ord_ID order)) w;
                                   w2 = (if replayed then header_Set headerIdempotencyReplayed ''true'' w1 else w1)
                               in served (respond 201 (Json (order_json (toCreateOrderResponse order))) w2) s1))))"

definition http_GetOrder :: "'s processor \<Rightarrow> 's handler" where
  "http_GetOrder P r w s =
     (case http_callerID r w of
        Inl w1 \<Rightarrow> served w1 s
      | Inr userID \<Rightarrow>
          (case uuid_Parse (rq_path_id r) of
             Inl err \<Rightarrow> served (respondError 400 (ErrorOf err) w) s
           | Inr i \<Rightarrow>
               (case pr_FindOrder P userID i s of
                  (Inl err, s1) \<Rightarrow>
                    if errors_is err ErrNotFound then served (respondError 404 (Text ''order not found'') w) s1
                    else served (respondServerError err w) s1
                | (Inr x, s1) \<Rightarrow> served (respond 200 (Json (order_json (toOrderResponse x))) w) s1)))"

definition http_ListOrders :: "'s processor \<Rightarrow> 's handler" where
  "http_ListOrders P r w s =
     (case http_callerID r w of
        Inl w1 \<Rightarrow> served w1 s
      | Inr userID \<Rightarrow>
          (case parseLimit (get_first (rq_query r) ''limit'') of
             Inl err \<Rightarrow> served (respondError 400 (ErrorOf err) w) s
           | Inr limit \<Rightarrow>
               (case ParseCursor (get_first (rq_query r) ''cursor'') of
                  Inl err \<Rightarrow> served (respondError 400 (ErrorOf err) w) s
                | Inr cursor \<Rightarrow>
                    (case pr_FindOrders P userID cursor limit s of
                       (Inl err, s1) \<Rightarrow> served (respondServerError err w) s1
                     | (Inr page, s1) \<Rightarrow> served (respond 200 (Json (orders_page_json (toOrdersPage page))) w) s1))))"

section \<open>Authentication and routes (middleware.go, router.go)\<close>

definition unauthorized :: "response_writer \<Rightarrow> response_writer" where
  "unauthorized w =
     respondError 401 (Text ''invalid or missing token'') (header_Set ''WWW-Authenticate'' ''Bearer'' w)"

definition http_Auth :: "(string \<Rightarrow> go_error + uuid) \<Rightarrow> 's handler \<Rightarrow> 's handler" where
  "http_Auth verify next r w s =
     (case BearerToken (get_first (rq_header r) ''Authorization'') of
        None \<Rightarrow> served (unauthorized w) s
      | Some token \<Rightarrow>
          (case verify token of
             Inl err \<Rightarrow> served (unauthorized w) s
           | Inr sub \<Rightarrow> next (r\<lparr>rq_user := WithUserID (rq_user r) sub\<rparr>) w s))"

text \<open>
  \<open>http.ServeMux\<close>: a pattern is a method and segments, of which the last may be the wildcard \<open>{id}\<close>; it
  matches one segment that is not empty. A GET pattern also takes HEAD. A path that only patterns
  of other methods match is 405, a path without pattern 404.
\<close>

datatype segment = Lit string | Wild

record 's route =
  rt_method :: string
  rt_path :: "segment list"
  rt_handler :: "'s handler"

fun match_path :: "segment list \<Rightarrow> string list \<Rightarrow> string option" where
  "match_path [] [] = Some ''''"
| "match_path (Lit a # ps) (x # xs) = (if a = x then match_path ps xs else None)"
| "match_path (Wild # ps) (x # xs) = (if x \<noteq> '''' \<and> match_path ps xs \<noteq> None then Some x else None)"
| "match_path _ _ = None"

definition match_method :: "string \<Rightarrow> string \<Rightarrow> bool" where
  "match_method m method \<longleftrightarrow> method = m \<or> method = ''HEAD'' \<and> m = ''GET''"

definition serve_mux :: "'s route list \<Rightarrow> 's handler" where
  "serve_mux routes r w s =
     (case find (\<lambda>rt. match_method (rt_method rt) (rq_method r) \<and> match_path (rt_path rt) (rq_path r) \<noteq> None) routes of
        Some rt \<Rightarrow> rt_handler rt (r\<lparr>rq_path_id := the (match_path (rt_path rt) (rq_path r))\<rparr>) w s
      | None \<Rightarrow>
          if list_ex (\<lambda>rt. match_path (rt_path rt) (rq_path r) \<noteq> None) routes
          then served (http_Error ''Method Not Allowed'' 405 w) s
          else served (http_Error ''404 page not found'' 404 w) s)"

definition api_routes :: "'s processor \<Rightarrow> ('s handler \<Rightarrow> 's handler) \<Rightarrow> 's route list" where
  "api_routes P requireAuth =
     [\<lparr>rt_method = ''POST'', rt_path = [Lit ''v1'', Lit ''products''], rt_handler = http_Add P\<rparr>,
      \<lparr>rt_method = ''PUT'', rt_path = [Lit ''v1'', Lit ''products'', Wild], rt_handler = http_Update P\<rparr>,
      \<lparr>rt_method = ''GET'', rt_path = [Lit ''v1'', Lit ''products''], rt_handler = http_Get P\<rparr>,
      \<lparr>rt_method = ''GET'', rt_path = [Lit ''v1'', Lit ''products'', Wild], rt_handler = http_GetByID P\<rparr>,
      \<lparr>rt_method = ''DELETE'', rt_path = [Lit ''v1'', Lit ''products'', Wild], rt_handler = http_Delete P\<rparr>,
      \<lparr>rt_method = ''POST'', rt_path = [Lit ''v1'', Lit ''orders''], rt_handler = requireAuth (http_CreateOrder P)\<rparr>,
      \<lparr>rt_method = ''GET'', rt_path = [Lit ''v1'', Lit ''orders''], rt_handler = requireAuth (http_ListOrders P)\<rparr>,
      \<lparr>rt_method = ''GET'', rt_path = [Lit ''v1'', Lit ''orders'', Wild], rt_handler = requireAuth (http_GetOrder P)\<rparr>]"

definition NewMux :: "'s processor \<Rightarrow> ('s handler \<Rightarrow> 's handler) \<Rightarrow> 's handler" where
  "NewMux P requireAuth = serve_mux (api_routes P requireAuth)"

section \<open>Middleware (middleware.go)\<close>

type_synonym 's middleware = "'s handler \<Rightarrow> 's handler"

definition chain :: "'s handler \<Rightarrow> 's middleware list \<Rightarrow> 's handler" where
  "chain h mws = fold (\<lambda>mw h. mw h) (rev mws) h"

text \<open>The access log puts a fresh recorder, holding 200, around the writer; its line is \<open>access_log\<close>.\<close>

definition http_logging :: "'s middleware" where
  "http_logging next r w s = next r (w\<lparr>rw_recorded := 200\<rparr>) s"

record access_line =
  al_method :: string
  al_path :: "string list"
  al_status :: nat

definition access_log :: "'s handler \<Rightarrow> http_request \<Rightarrow> response_writer \<Rightarrow> 's \<Rightarrow> access_line" where
  "access_log next r w s =
     (case http_logging next r w s of
        (ok, w1, s1) \<Rightarrow> \<lparr>al_method = rq_method r, al_path = rq_path r, al_status = rw_recorded w1\<rparr>)"

definition http_recovery :: "'s middleware" where
  "http_recovery next r w s =
     (case next r w s of
        (True, w1, s1) \<Rightarrow> (True, w1, s1)
      | (False, w1, s1) \<Rightarrow> served (respondError 500 (Text msgInternalError) w1) s1)"

definition securityHeaders :: "bool \<Rightarrow> int \<Rightarrow> 's middleware" where
  "securityHeaders hstsEnabled hstsMaxAge =
     (let hsts = (if hstsEnabled then ''max-age='' @ itoa hstsMaxAge @ ''; includeSubDomains'' else '''') in
      (\<lambda>next r w s.
         let w1 = header_Set ''X-Content-Type-Options'' ''nosniff'' w;
             w2 = header_Set ''Content-Security-Policy'' (''frame-ancestors '' @ [CHR 0x27] @ ''none'' @ [CHR 0x27]) w1;
             w3 = (if hsts \<noteq> '''' then header_Set ''Strict-Transport-Security'' hsts w2 else w2)
         in next r w3 s))"

record cors_config =
  cc_Origins :: "string list"
  cc_Methods :: "string list"
  cc_RequestHeaders :: "string list"
  cc_MaxAgeInSeconds :: int

definition corsPolicy ::
  "(cors_config \<Rightarrow> go_error + 's middleware) \<Rightarrow> string list \<Rightarrow> int \<Rightarrow> go_error + 's middleware" where
  "corsPolicy cors_NewMiddleware origins maxAge =
     (if length origins = 0 then Inr (\<lambda>next. next)
      else case cors_NewMiddleware \<lparr>cc_Origins = origins, cc_Methods = [''GET'', ''POST'', ''PUT'', ''DELETE''],
             cc_RequestHeaders = [''Content-Type'', ''Authorization''], cc_MaxAgeInSeconds = maxAge\<rparr> of
        Inl err \<Rightarrow> Inl (errorf_w ''cors: '' err)
      | Inr m \<Rightarrow> Inr m)"

text \<open>\<open>http.CrossOriginProtection\<close>. An origin that \<open>url.Parse\<close> refuses has no host.\<close>

definition AddTrustedOrigin :: "string \<Rightarrow> go_error option" where
  "AddTrustedOrigin t =
     (case url_Parse t of
        None \<Rightarrow> Some (ErrQuoted ''invalid origin: '' t)
      | Some u \<Rightarrow>
          if u_Scheme u = '''' then Some (ErrQuoted ''invalid origin, scheme is required: '' t)
          else if u_Host u = '''' then Some (ErrQuoted ''invalid origin, host is required: '' t)
          else if u_Path u \<noteq> '''' \<or> u_RawQuery u \<noteq> '''' \<or> snd (cut_at CHR ''#'' t) \<noteq> ''''
          then Some (ErrQuoted ''invalid origin, no path, query or fragment allowed: '' t)
          else None)"

definition cross_origin_ok :: "string list \<Rightarrow> http_request \<Rightarrow> bool" where
  "cross_origin_ok trusted r =
     (if rq_method r \<in> set [''GET'', ''HEAD'', ''OPTIONS''] then True
      else
        let site = get_first (rq_header r) ''Sec-Fetch-Site'';
            origin = get_first (rq_header r) ''Origin'' in
        if site \<noteq> '''' then site = ''same-origin'' \<or> site = ''none'' \<or> origin \<in> set trusted
        else origin = '''' \<or> map_option u_Host (url_Parse origin) = Some (rq_host r) \<or> origin \<in> set trusted)"

fun trust_all :: "string list \<Rightarrow> go_error option" where
  "trust_all [] = None"
| "trust_all (x # xs) =
     (case AddTrustedOrigin x of
        Some err \<Rightarrow> Some (Wrapped ''csrf trusted origin %q: %w'' [ErrText x, err])
      | None \<Rightarrow> trust_all xs)"

definition csrf :: "string list \<Rightarrow> go_error + 's middleware" where
  "csrf trustedOrigins =
     (case trust_all trustedOrigins of
        Some err \<Rightarrow> Inl err
      | None \<Rightarrow>
          Inr (\<lambda>next r w s.
            if cross_origin_ok trustedOrigins r then next r w s
            else served (respondError 403 (Text ''cross-origin request rejected'') w) s))"

definition bodyLimit :: "int \<Rightarrow> 's middleware" where
  "bodyLimit maxBytes next r w s =
     (if rq_method r = ''POST'' \<or> rq_method r = ''PUT'' \<or> rq_method r = ''PATCH''
      then next (r\<lparr>rq_body := (rq_body r)\<lparr>rb_limit := Some maxBytes\<rparr>\<rparr>) w s
      else next r w s)"

definition compression :: "(int \<Rightarrow> go_error + 's middleware) \<Rightarrow> int \<Rightarrow> go_error + 's middleware" where
  "compression gzhttp_NewWrapper minBytes =
     (case gzhttp_NewWrapper minBytes of
        Inl err \<Rightarrow> Inl (errorf_w ''compress: '' err)
      | Inr wrap \<Rightarrow> Inr (\<lambda>next. wrap next))"

record middleware_cfg =
  mc_MaxBodyBytes :: int
  mc_CompressMinBytes :: int
  mc_CORSAllowedOrigins :: "string list"
  mc_CORSMaxAge :: int
  mc_HSTSEnabled :: bool
  mc_HSTSMaxAge :: int

definition NewMiddleware ::
  "(cors_config \<Rightarrow> go_error + 's middleware) \<Rightarrow> (int \<Rightarrow> go_error + 's middleware) \<Rightarrow> middleware_cfg
    \<Rightarrow> go_error + 's middleware" where
  "NewMiddleware cors_NewMiddleware gzhttp_NewWrapper cfg =
     (case compression gzhttp_NewWrapper (mc_CompressMinBytes cfg) of
        Inl err \<Rightarrow> Inl err
      | Inr compressMW \<Rightarrow>
          (case csrf (mc_CORSAllowedOrigins cfg) of
             Inl err \<Rightarrow> Inl err
           | Inr csrfMW \<Rightarrow>
               (case corsPolicy cors_NewMiddleware (mc_CORSAllowedOrigins cfg) (mc_CORSMaxAge cfg) of
                  Inl err \<Rightarrow> Inl err
                | Inr corsMW \<Rightarrow>
                    Inr (\<lambda>next. chain next
                      [http_logging, http_recovery, securityHeaders (mc_HSTSEnabled cfg) (mc_HSTSMaxAge cfg),
                       corsMW, csrfMW, bodyLimit (mc_MaxBodyBytes cfg), compressMW]))))"

section \<open>Probes (probes.go)\<close>

definition Healthz :: "'s handler" where
  "Healthz r w s = served (WriteHeader 204 w) s"

definition Readyz ::
  "('s \<Rightarrow> go_error option \<times> 's) \<Rightarrow> ('s \<Rightarrow> go_error option \<times> 's) \<Rightarrow> 's handler" where
  "Readyz pingDB pingCache r w s =
     (case pingDB s of
        (Some err, s1) \<Rightarrow> served (http_Error ''db unavailable'' 503 w) s1
      | (None, s1) \<Rightarrow>
          (case pingCache s1 of
             (Some err, s2) \<Rightarrow> served (http_Error ''cache unavailable'' 503 w) s2
           | (None, s2) \<Rightarrow> served (WriteHeader 204 w) s2))"

text \<open>A fresh response, and the status a client sees of one (200 when the handler never chose).\<close>

definition fresh_writer :: response_writer where
  "fresh_writer = \<lparr>rw_header = [], rw_status = None, rw_body = [], rw_recorded = 200\<rparr>"

definition status_of :: "response_writer \<Rightarrow> nat" where
  "status_of w = (case rw_status w of None \<Rightarrow> 200 | Some c \<Rightarrow> c)"

section \<open>What a handler leaves in the writer\<close>

lemma header_Set_sel [simp]:
  "rw_status (header_Set k v w) = rw_status w" "rw_body (header_Set k v w) = rw_body w"
  by (simp_all add: header_Set_def)

lemma respond_eq:
  assumes "rw_status w = None"
  shows "respond c b w = \<lparr>rw_header = (''Content-Type'', MediaTypeJSON) # filter (\<lambda>(k, _). k \<noteq> ''Content-Type'') (rw_header w),
    rw_status = Some c, rw_body = rw_body w @ [if marshalable b then b else PlainText msgEncodeFailed],
    rw_recorded = (if marshalable b then c else 500)\<rparr>"
  using assms
  by (cases w) (simp add: respond_def Let_def WriteHeader_def header_Set_def write_body_def http_Error_def)

lemma http_Error_eq:
  assumes "rw_status w = None"
  shows "rw_status (http_Error m c w) = Some c" "rw_body (http_Error m c w) = rw_body w @ [PlainText m]"
    "map_of (rw_header (http_Error m c w)) ''Content-Type'' = Some ''text/plain; charset=utf-8''"
    "rw_recorded (http_Error m c w) = c"
  using assms by (simp_all add: http_Error_def write_body_def WriteHeader_def header_Set_def)

lemma respond_sel:
  assumes "rw_status w = None"
  shows "rw_status (respond c b w) = Some c"
    "rw_body (respond c b w) = rw_body w @ [if marshalable b then b else PlainText msgEncodeFailed]"
    "map_of (rw_header (respond c b w)) ''Content-Type'' = Some MediaTypeJSON"
    "rw_recorded (respond c b w) = (if marshalable b then c else 500)"
    "k \<noteq> ''Content-Type'' \<Longrightarrow> map_of (rw_header (respond c b w)) k = map_of (rw_header w) k"
proof -
  have "map_of (filter (\<lambda>(k, _). k \<noteq> c) h) k = map_of h k" if "k \<noteq> c" for h :: "(string \<times> string) list" and k c
    using that by (induction h) auto
  then show "k \<noteq> ''Content-Type'' \<Longrightarrow> map_of (rw_header (respond c b w)) k = map_of (rw_header w) k"
    by (simp add: respond_eq [OF assms])
qed (simp_all add: respond_eq [OF assms])

definition client_codes :: "nat set" where
  "client_codes = {400, 401, 404, 405, 409, 413, 422}"

text \<open>
  One reply: a status was chosen and one body written, JSON or plain text as the header says.
\<close>

definition one_reply :: "response_writer \<Rightarrow> response_writer \<Rightarrow> bool" where
  "one_reply w w' \<longleftrightarrow>
     (\<exists>c b t. rw_status w' = Some c \<and> rw_body w' = rw_body w @ [b] \<and> map_of (rw_header w') ''Content-Type'' = Some t
        \<and> c \<in> {200, 201, 500, 503} \<union> client_codes
        \<and> (c \<ge> 400 \<longrightarrow> (\<forall>j. b \<noteq> Json j))
        \<and> (rw_recorded w' = c \<or> b = PlainText msgEncodeFailed \<and> rw_recorded w' = 500))"

lemma one_reply_respond:
  "rw_status w = None \<Longrightarrow> c \<in> {200, 201} \<Longrightarrow> rw_body w = rw_body w0 \<Longrightarrow> one_reply w0 (respond c b w)"
  by (auto simp: one_reply_def respond_sel client_codes_def)

lemma one_reply_error:
  "rw_status w = None \<Longrightarrow> c \<in> {500, 503} \<union> client_codes \<Longrightarrow> rw_body w = rw_body w0 \<Longrightarrow> one_reply w0 (respondError c m w)"
  by (auto simp: one_reply_def respondError_def respond_sel)

lemma one_reply_plain:
  "rw_status w = None \<Longrightarrow> c \<in> client_codes \<Longrightarrow> one_reply w (http_Error m c w)"
  by (auto simp: one_reply_def http_Error_eq)

lemma one_reply_decode: "rw_status w = None \<Longrightarrow> one_reply w (respondDecodeError e w)"
  by (auto simp: respondDecodeError_def mapDecodeError_def client_codes_def intro!: one_reply_error
      split: decode_error.split)

lemma one_reply_server: "rw_status w = None \<Longrightarrow> one_reply w (respondServerError e w)"
  by (auto simp: respondServerError_def http_internalError_def intro!: one_reply_error)

definition replies :: "'s handler \<Rightarrow> bool" where
  "replies h \<longleftrightarrow> (\<forall>r w s. rw_status w = None \<longrightarrow> fst (h r w s) \<and> one_reply w (fst (snd (h r w s))))"

lemmas reply_intros = one_reply_respond one_reply_error one_reply_decode one_reply_server one_reply_plain

lemma handlers_reply:
  "replies (http_GetByID P)" "replies (http_Get P)" "replies (http_Add P)" "replies (http_Delete P)"
  "replies (http_Update P)" "replies (http_CreateOrder P)" "replies (http_GetOrder P)" "replies (http_ListOrders P)"
  unfolding replies_def http_GetByID_def http_Get_def http_Add_def http_Delete_def http_Update_def
    http_CreateOrder_def http_GetOrder_def http_ListOrders_def served_def Let_def http_callerID_def http_internalError_def
  by (auto intro!: reply_intros simp: client_codes_def split: sum.split prod.split option.split)

lemma Auth_replies: "replies h \<Longrightarrow> replies (http_Auth verify h)"
  unfolding replies_def http_Auth_def served_def unauthorized_def
  by (auto intro!: reply_intros simp: client_codes_def split: sum.split option.split)

text \<open>What the mux does with a request: one of the routes that match it, or a refusal of its own.\<close>

lemma serve_mux_cases:
  obtains (route) rt i where "rt \<in> set routes" "match_method (rt_method rt) (rq_method r)"
      "match_path (rt_path rt) (rq_path r) = Some i"
      "serve_mux routes r w s = rt_handler rt (r\<lparr>rq_path_id := i\<rparr>) w s"
  | (refused) m c where "c \<in> {404, 405}" "serve_mux routes r w s = (True, http_Error m c w, s)"
proof (cases "find (\<lambda>rt. match_method (rt_method rt) (rq_method r) \<and> match_path (rt_path rt) (rq_path r) \<noteq> None) routes")
  case None
  then have "serve_mux routes r w s = (True, http_Error (if list_ex (\<lambda>rt. match_path (rt_path rt) (rq_path r) \<noteq> None) routes
      then ''Method Not Allowed'' else ''404 page not found'')
      (if list_ex (\<lambda>rt. match_path (rt_path rt) (rq_path r) \<noteq> None) routes then 405 else 404) w, s)"
    by (simp add: serve_mux_def served_def)
  then show thesis by (rule refused [rotated]) simp
next
  case (Some rt)
  then have rt: "rt \<in> set routes" "match_method (rt_method rt) (rq_method r)"
    "match_path (rt_path rt) (rq_path r) \<noteq> None"
    by (auto simp: find_Some_iff)
  then obtain i where "match_path (rt_path rt) (rq_path r) = Some i" by blast
  then show thesis using rt Some by (intro route [of rt i]) (simp_all add: serve_mux_def)
qed

lemma mux_replies:
  assumes "\<forall>rt\<in>set routes. replies (rt_handler rt)"
  shows "replies (serve_mux routes)"
  unfolding replies_def
proof (intro allI impI)
  fix r :: http_request and w :: response_writer and s
  assume w: "rw_status w = None"
  show "fst (serve_mux routes r w s) \<and> one_reply w (fst (snd (serve_mux routes r w s)))"
  proof (cases rule: serve_mux_cases [of routes r w s])
    case (route rt i)
    then show ?thesis using assms w by (simp add: replies_def)
  next
    case (refused m c)
    then show ?thesis using w by (auto intro!: one_reply_plain simp: client_codes_def)
  qed
qed

text \<open>
  C38: every request gets one complete reply. Whatever the service behind it answers, the router
  returns without a panic, having chosen one status, from the codes the API documents, and written
  one body, with a content type; an error status never carries a payload. The access log has the status
  the client got, unless the payload could not be encoded: then it has 500, although the status was already sent.
\<close>

theorem http_one_reply:
  assumes "rw_status w = None" "http_logging (NewMux P (http_Auth verify)) r w s = (ok, w', s')"
  shows "ok \<and> (\<exists>c b t. rw_status w' = Some c \<and> rw_body w' = rw_body w @ [b]
    \<and> map_of (rw_header w') ''Content-Type'' = Some t
    \<and> c \<in> {200, 201, 400, 401, 404, 405, 409, 413, 422, 500, 503}
    \<and> (c \<ge> 400 \<longrightarrow> (\<forall>j. b \<noteq> Json j))
    \<and> (al_status (access_log (NewMux P (http_Auth verify)) r w s) = c
        \<or> b = PlainText msgEncodeFailed \<and> al_status (access_log (NewMux P (http_Auth verify)) r w s) = 500))"
proof -
  let ?w = "w\<lparr>rw_recorded := 200\<rparr>"
  have "replies (NewMux P (http_Auth verify))"
    unfolding NewMux_def api_routes_def by (rule mux_replies) (simp add: handlers_reply Auth_replies)
  moreover have "NewMux P (http_Auth verify) r ?w s = (ok, w', s')" using assms(2) by (simp add: http_logging_def)
  ultimately have reply: "ok \<and> one_reply ?w w'" using assms(1) unfolding replies_def
    by (metis fst_conv snd_conv response_writer.select_convs(2) response_writer.surjective response_writer.update_convs(4))
  have line: "al_status (access_log (NewMux P (http_Auth verify)) r w s) = rw_recorded w'"
    using assms(2) by (simp add: access_log_def)
  have codes: "{200, 201, 500, 503} \<union> client_codes = {200, 201, 400, 401, 404, 405, 409, 413, 422, 500, 503}"
    by (auto simp: client_codes_def)
  show ?thesis using reply unfolding one_reply_def codes line by simp
qed

section \<open>Samples\<close>

definition sample_http :: "string \<Rightarrow> string list \<Rightarrow> (string \<times> string) list \<Rightarrow> string \<Rightarrow> http_request" where
  "sample_http m p h b = \<lparr>rq_method = m, rq_path = p, rq_host = ''shop.example'', rq_query = [], rq_header = h,
     rq_content_length = int (length b), rq_body = \<lparr>rb_bytes = b, rb_limit = None, rb_fault = None\<rparr>,
     rq_path_id = '''', rq_user = None\<rparr>"

theorem http_one_reply_witness:
  "length (rw_body (fst (snd (http_logging (NewMux (service_processor (\<lambda>x. x) (NewPostgres 86400000000000) sample_service
      \<lparr>dr_newV7 = 40, dr_event = 50, dr_now = 0, dr_random = ''r''\<rparr>) (http_Auth (\<lambda>t. Inl ErrInvalidToken)))
      (sample_http ''POST'' [''v1'', ''products''] [] ''{'') fresh_writer sample_svc)))) = 1"
proof -
  have "rw_status fresh_writer = None" "rw_body fresh_writer = []" by (simp_all add: fresh_writer_def)
  then show ?thesis
    using http_one_reply [of fresh_writer "service_processor (\<lambda>x. x) (NewPostgres 86400000000000) sample_service
        \<lparr>dr_newV7 = 40, dr_event = 50, dr_now = 0, dr_random = ''r''\<rparr>" "\<lambda>t. Inl ErrInvalidToken"
        "sample_http ''POST'' [''v1'', ''products''] [] ''{''" sample_svc]
    by (metis append_Nil length_Cons list.size(3) One_nat_def prod.collapse)
qed

end
