(* ===== verification/Grpc.thy ===== *)
theory Grpc
  imports Processor
begin

text \<open>
  \<open>internal/transport/grpc\<close>: the handlers of the two services, the conversions of \<open>dto.go\<close>, the
  interceptors and their chain. A handler takes the call's context and returns the reply, a
  status or a message, with the response headers it set. Of the context the code uses the caller's
  identity, the incoming metadata (its keys are lower case on the wire) and the deadline. A nil message field
  reads as zero values. A handler may panic, which only the recovery interceptor turns into a reply.
  Log lines are left out.
\<close>

section \<open>Messages, statuses and calls\<close>

record money_proto =
  mp_minor_amount :: int
  mp_currency :: string

record product_proto =
  pp_id :: string
  pp_name :: string
  pp_stock :: int
  pp_price :: money_proto

record timestamp_proto =
  tp_seconds :: int
  tp_nanos :: int

record order_proto =
  op_id :: string
  op_product_id :: string
  op_quantity :: int
  op_unit_price :: money_proto
  op_created_at :: timestamp_proto

datatype request =
    CreateProductRequest string "money_proto option" int
  | GetProductRequest string
  | ListProductsRequest string int
  | UpdateProductRequest string string "money_proto option"
  | DeleteProductRequest string
  | CreateOrderRequest string int
  | GetOrderRequest string
  | ListOrdersRequest string int

datatype response =
    CreateProductResponse product_proto
  | GetProductResponse product_proto
  | ListProductsResponse "product_proto list" string
  | UpdateProductResponse product_proto
  | DeleteProductResponse
  | CreateOrderResponse order_proto
  | GetOrderResponse order_proto
  | ListOrdersResponse "order_proto list" string

datatype grpc_code =
  Canceled | InvalidArgument | DeadlineExceeded | NotFound | FailedPrecondition | Internal | Unavailable
| Unauthenticated

datatype status = Status (st_code: grpc_code) (st_msg: message)

type_synonym metadata = "(string \<times> string list) list"

record ctx =
  cx_user :: identity
  cx_metadata :: "metadata option"
  cx_deadline :: "int option"

datatype 'a outcome = Returned 'a | Panicked

record rpc =
  rp_header :: "(string \<times> string) list"
  rp_reply :: "status + response"

type_synonym 's unary = "ctx \<Rightarrow> request \<Rightarrow> 's \<Rightarrow> rpc outcome \<times> 's"
type_synonym 's interceptor = "string \<Rightarrow> 's unary \<Rightarrow> 's unary"

definition reply :: "status + response \<Rightarrow> 's \<Rightarrow> rpc outcome \<times> 's" where
  "reply r s = (Returned \<lparr>rp_header = [], rp_reply = r\<rparr>, s)"

definition status_Error :: "grpc_code \<Rightarrow> message \<Rightarrow> status + 'a" where
  "status_Error c m = Inl (Status c m)"

section \<open>Conversions (dto.go)\<close>

definition toProductProto :: "product \<Rightarrow> product_proto" where
  "toProductProto p =
     \<lparr>pp_id = uuid_string (prod_ID p), pp_name = prod_Name p, pp_stock = prod_Stock p,
      pp_price = \<lparr>mp_minor_amount = MinorAmount (prod_Price p), mp_currency = Currency (prod_Price p)\<rparr>\<rparr>"

definition toDomainMoney :: "money_proto option \<Rightarrow> money" where
  "toDomainMoney m =
     (case m of None \<Rightarrow> \<lparr>MinorAmount = 0, Currency = ''''\<rparr>
      | Some m \<Rightarrow> \<lparr>MinorAmount = mp_minor_amount m, Currency = mp_currency m\<rparr>)"

text \<open>\<open>timestamppb.New\<close> of an instant that Postgres keeps in microseconds.\<close>

definition timestamppb_New :: "timestamp \<Rightarrow> timestamp_proto" where
  "timestamppb_New t = \<lparr>tp_seconds = t div 1000000, tp_nanos = (t mod 1000000) * 1000\<rparr>"

definition toOrderProto :: "order \<Rightarrow> order_proto" where
  "toOrderProto x =
     \<lparr>op_id = uuid_string (ord_ID x), op_product_id = uuid_string (ord_ProductID x),
      op_quantity = ord_Quantity x,
      op_unit_price = \<lparr>mp_minor_amount = MinorAmount (ord_UnitPrice x), mp_currency = Currency (ord_UnitPrice x)\<rparr>,
      op_created_at = timestamppb_New (ord_CreatedAt x)\<rparr>"

definition nil_product :: product_proto where
  "nil_product = \<lparr>pp_id = '''', pp_name = '''', pp_stock = 0, pp_price = \<lparr>mp_minor_amount = 0, mp_currency = ''''\<rparr>\<rparr>"

definition nil_order :: order_proto where
  "nil_order = \<lparr>op_id = '''', op_product_id = '''', op_quantity = 0,
     op_unit_price = \<lparr>mp_minor_amount = 0, mp_currency = ''''\<rparr>, op_created_at = \<lparr>tp_seconds = 0, tp_nanos = 0\<rparr>\<rparr>"

section \<open>Handlers (handler.go)\<close>

definition toStatus :: "go_error \<Rightarrow> status + 'a" where
  "toStatus err =
     (if errors_is err CtxCanceled then status_Error Canceled (Text ''request canceled'')
      else if errors_is err CtxDeadlineExceeded then status_Error DeadlineExceeded (Text ''deadline exceeded'')
      else if errors_is err ErrNotFound then status_Error NotFound (Text ''product not found'')
      else if errors_is err ErrInsufficientStock then status_Error FailedPrecondition (Text ''insufficient stock'')
      else if errors_is err ErrIdempotencyMismatch
      then status_Error InvalidArgument (Text ''idempotency key reused with different payload'')
      else if errors_is err ErrProductInUse
      then status_Error FailedPrecondition (Text ''product has existing orders'')
      else if errors_is err ErrUnavailable
      then status_Error Unavailable (Text ''service temporarily unavailable'')
      else status_Error Internal (Text ''internal error''))"

definition callerID :: "ctx \<Rightarrow> status + uuid" where
  "callerID cx =
     (case auth_UserID (cx_user cx) of
        None \<Rightarrow> status_Error Internal (Text ''internal error'')
      | Some userID \<Rightarrow> Inr userID)"

definition CreateProduct :: "'s processor \<Rightarrow> string \<Rightarrow> money_proto option \<Rightarrow> int \<Rightarrow> 's \<Rightarrow> rpc outcome \<times> 's" where
  "CreateProduct P name price stock s =
     (let p = zero_product\<lparr>prod_Name := name, prod_Price := toDomainMoney price, prod_Stock := stock\<rparr> in
      case product_Validate p of
        Some err \<Rightarrow> reply (status_Error InvalidArgument (ErrorOf err)) s
      | None \<Rightarrow>
          (case pr_Create P p s of
             (Inl err, s1) \<Rightarrow> reply (toStatus err) s1
           | (Inr created, s1) \<Rightarrow> reply (Inr (CreateProductResponse (toProductProto created))) s1))"

definition GetProduct :: "'s processor \<Rightarrow> string \<Rightarrow> 's \<Rightarrow> rpc outcome \<times> 's" where
  "GetProduct P rawID s =
     (case uuid_Parse rawID of
        Inl err \<Rightarrow> reply (status_Error InvalidArgument (ErrorOf err)) s
      | Inr i \<Rightarrow>
          (case pr_FindByID P i s of
             (Inl err, s1) \<Rightarrow> reply (toStatus err) s1
           | (Inr p, s1) \<Rightarrow> reply (Inr (GetProductResponse (toProductProto p))) s1))"

definition ListProducts :: "'s processor \<Rightarrow> string \<Rightarrow> int \<Rightarrow> 's \<Rightarrow> rpc outcome \<times> 's" where
  "ListProducts P rawCursor limit s =
     (case ParseCursor rawCursor of
        Inl err \<Rightarrow> reply (status_Error InvalidArgument (ErrorOf err)) s
      | Inr cursor \<Rightarrow>
          (case pr_FindAll P cursor (NormalizePageSize limit) s of
             (Inl err, s1) \<Rightarrow> reply (toStatus err) s1
           | (Inr page, s1) \<Rightarrow>
               reply (Inr (ListProductsResponse (mapSlice (pp_Items page) toProductProto nil_product)
                 (product_NextCursor page))) s1))"

definition UpdateProduct :: "'s processor \<Rightarrow> string \<Rightarrow> string \<Rightarrow> money_proto option \<Rightarrow> 's \<Rightarrow> rpc outcome \<times> 's" where
  "UpdateProduct P rawID name price s =
     (case uuid_Parse rawID of
        Inl err \<Rightarrow> reply (status_Error InvalidArgument (ErrorOf err)) s
      | Inr i \<Rightarrow>
          (let p = zero_product\<lparr>prod_ID := i, prod_Name := name, prod_Price := toDomainMoney price\<rparr> in
           case product_Validate p of
             Some err \<Rightarrow> reply (status_Error InvalidArgument (ErrorOf err)) s
           | None \<Rightarrow>
               (case pr_Update P p s of
                  (Inl err, s1) \<Rightarrow> reply (toStatus err) s1
                | (Inr updated, s1) \<Rightarrow> reply (Inr (UpdateProductResponse (toProductProto updated))) s1)))"

definition DeleteProduct :: "'s processor \<Rightarrow> string \<Rightarrow> 's \<Rightarrow> rpc outcome \<times> 's" where
  "DeleteProduct P rawID s =
     (case uuid_Parse rawID of
        Inl err \<Rightarrow> reply (status_Error InvalidArgument (ErrorOf err)) s
      | Inr i \<Rightarrow>
          (case pr_Delete P i s of
             (Inl err, s1) \<Rightarrow> reply (toStatus err) s1
           | (Inr _, s1) \<Rightarrow> reply (Inr DeleteProductResponse) s1))"

definition metaIdempotencyKey :: string where "metaIdempotencyKey = ''idempotency-key''"
definition metaIdempotencyReplayed :: string where "metaIdempotencyReplayed = ''idempotency-replayed''"

definition md_Get :: "metadata \<Rightarrow> string \<Rightarrow> string list" where
  "md_Get md key = (case map_of md key of None \<Rightarrow> [] | Some vals \<Rightarrow> vals)"

definition idempotencyFromMetadata :: "ctx \<Rightarrow> status + idempotency_key" where
  "idempotencyFromMetadata cx =
     (case cx_metadata cx of
        None \<Rightarrow> status_Error InvalidArgument (Text (metaIdempotencyKey @ '' metadata is required''))
      | Some md \<Rightarrow>
          (let vals = md_Get md metaIdempotencyKey in
           if length vals = 0 \<or> vals ! 0 = ''''
           then status_Error InvalidArgument (Text (metaIdempotencyKey @ '' metadata is required''))
           else
             (let key = vals ! 0 in
              if length key > MaxIdempotencyKeyLen
              then status_Error InvalidArgument (Text (metaIdempotencyKey @ '' must be at most 255 bytes''))
              else Inr key)))"

definition CreateOrder :: "'s processor \<Rightarrow> ctx \<Rightarrow> string \<Rightarrow> int \<Rightarrow> 's \<Rightarrow> rpc outcome \<times> 's" where
  "CreateOrder P cx rawProductID qty s =
     (case callerID cx of
        Inl err \<Rightarrow> reply (Inl err) s
      | Inr userID \<Rightarrow>
          (case uuid_Parse rawProductID of
             Inl err \<Rightarrow> reply (status_Error InvalidArgument (ErrorOf err)) s
           | Inr productID \<Rightarrow>
               (case idempotencyFromMetadata cx of
                  Inl err \<Rightarrow> reply (Inl err) s
                | Inr idem \<Rightarrow>
                    if \<not> ValidPurchaseQuantity qty
                    then reply (status_Error InvalidArgument (Text ''quantity must be between 1 and 10000'')) s
                    else
                      (case pr_CreateOrder P userID productID qty idem s of
                         (Inl err, s1) \<Rightarrow> reply (toStatus err) s1
                       | (Inr (order, replayed), s1) \<Rightarrow>
                           (Returned \<lparr>rp_header = (if replayed then [(metaIdempotencyReplayed, ''true'')] else []),
                              rp_reply = Inr (CreateOrderResponse (toOrderProto order))\<rparr>, s1)))))"

definition GetOrder :: "'s processor \<Rightarrow> ctx \<Rightarrow> string \<Rightarrow> 's \<Rightarrow> rpc outcome \<times> 's" where
  "GetOrder P cx rawID s =
     (case callerID cx of
        Inl err \<Rightarrow> reply (Inl err) s
      | Inr userID \<Rightarrow>
          (case uuid_Parse rawID of
             Inl err \<Rightarrow> reply (status_Error InvalidArgument (ErrorOf err)) s
           | Inr i \<Rightarrow>
               (case pr_FindOrder P userID i s of
                  (Inl err, s1) \<Rightarrow>
                    if errors_is err ErrNotFound then reply (status_Error NotFound (Text ''order not found'')) s1
                    else reply (toStatus err) s1
                | (Inr x, s1) \<Rightarrow> reply (Inr (GetOrderResponse (toOrderProto x))) s1)))"

definition ListOrders :: "'s processor \<Rightarrow> ctx \<Rightarrow> string \<Rightarrow> int \<Rightarrow> 's \<Rightarrow> rpc outcome \<times> 's" where
  "ListOrders P cx rawCursor limit s =
     (case callerID cx of
        Inl err \<Rightarrow> reply (Inl err) s
      | Inr userID \<Rightarrow>
          (case ParseCursor rawCursor of
             Inl err \<Rightarrow> reply (status_Error InvalidArgument (ErrorOf err)) s
           | Inr cursor \<Rightarrow>
               (case pr_FindOrders P userID cursor (NormalizePageSize limit) s of
                  (Inl err, s1) \<Rightarrow> reply (toStatus err) s1
                | (Inr page, s1) \<Rightarrow>
                    reply (Inr (ListOrdersResponse (mapSlice (op_Items page) toOrderProto nil_order)
                      (order_NextCursor page))) s1)))"

text \<open>The method each request belongs to and the handler the generated code calls for it.\<close>

fun full_method :: "request \<Rightarrow> string" where
  "full_method (CreateProductRequest _ _ _) = ''/catalog.v1.ProductService/CreateProduct''"
| "full_method (GetProductRequest _) = ''/catalog.v1.ProductService/GetProduct''"
| "full_method (ListProductsRequest _ _) = ''/catalog.v1.ProductService/ListProducts''"
| "full_method (UpdateProductRequest _ _ _) = ''/catalog.v1.ProductService/UpdateProduct''"
| "full_method (DeleteProductRequest _) = ''/catalog.v1.ProductService/DeleteProduct''"
| "full_method (CreateOrderRequest _ _) = ''/order.v1.OrderService/CreateOrder''"
| "full_method (GetOrderRequest _) = ''/order.v1.OrderService/GetOrder''"
| "full_method (ListOrdersRequest _ _) = ''/order.v1.OrderService/ListOrders''"

fun handle :: "'s processor \<Rightarrow> 's unary" where
  "handle P cx (CreateProductRequest name price stock) s = CreateProduct P name price stock s"
| "handle P cx (GetProductRequest i) s = GetProduct P i s"
| "handle P cx (ListProductsRequest c n) s = ListProducts P c n s"
| "handle P cx (UpdateProductRequest i name price) s = UpdateProduct P i name price s"
| "handle P cx (DeleteProductRequest i) s = DeleteProduct P i s"
| "handle P cx (CreateOrderRequest i q) s = CreateOrder P cx i q s"
| "handle P cx (GetOrderRequest i) s = GetOrder P cx i s"
| "handle P cx (ListOrdersRequest c n) s = ListOrders P cx c n s"

section \<open>Interceptors (interceptor.go, server.go)\<close>

definition publicMethods :: "string list" where
  "publicMethods =
     [''/catalog.v1.ProductService/GetProduct'', ''/catalog.v1.ProductService/ListProducts'',
      ''/catalog.v1.ProductService/CreateProduct'', ''/catalog.v1.ProductService/UpdateProduct'',
      ''/catalog.v1.ProductService/DeleteProduct'']"

definition bearerFromContext :: "ctx \<Rightarrow> string option" where
  "bearerFromContext cx =
     (let vals = (case cx_metadata cx of None \<Rightarrow> [] | Some md \<Rightarrow> md_Get md ''authorization'') in
      if length vals = 0 then None else BearerToken (vals ! 0))"

definition requireAuth :: "(string \<Rightarrow> go_error + uuid) \<Rightarrow> 's interceptor" where
  "requireAuth verify fullMethod handler cx req s =
     (if fullMethod \<in> set publicMethods \<or> prefix ''/grpc.'' fullMethod then handler cx req s
      else case bearerFromContext cx of
        None \<Rightarrow> reply (status_Error Unauthenticated (Text ''invalid or missing token'')) s
      | Some token \<Rightarrow>
          (case verify token of
             Inl err \<Rightarrow> reply (status_Error Unauthenticated (Text ''invalid or missing token'')) s
           | Inr sub \<Rightarrow> handler (cx\<lparr>cx_user := WithUserID (cx_user cx) sub\<rparr>) req s))"

definition logging :: "'s interceptor" where
  "logging fullMethod handler cx req s = handler cx req s"

text \<open>Its line: the method and the code of the status, OK (none) for a response. A panic passes it unlogged.\<close>

definition logging_line :: "string \<Rightarrow> 's unary \<Rightarrow> ctx \<Rightarrow> request \<Rightarrow> 's \<Rightarrow> (string \<times> grpc_code option) option" where
  "logging_line fullMethod handler cx req s =
     (case handler cx req s of
        (Panicked, s1) \<Rightarrow> None
      | (Returned r, s1) \<Rightarrow>
          Some (fullMethod, case rp_reply r of Inl st \<Rightarrow> Some (st_code st) | Inr resp \<Rightarrow> None))"

text \<open>\<open>context.WithTimeout\<close> keeps an earlier deadline.\<close>

definition WithTimeout :: "int \<Rightarrow> int \<Rightarrow> ctx \<Rightarrow> ctx" where
  "WithTimeout now d cx =
     cx\<lparr>cx_deadline := Some (case cx_deadline cx of None \<Rightarrow> now + d | Some t \<Rightarrow> min t (now + d))\<rparr>"

definition timeout :: "int \<Rightarrow> int \<Rightarrow> 's interceptor" where
  "timeout now d fullMethod handler cx req s = handler (WithTimeout now d cx) req s"

definition recovery :: "'s interceptor" where
  "recovery fullMethod handler cx req s =
     (case handler cx req s of
        (Panicked, s1) \<Rightarrow> reply (status_Error Internal (Text ''internal error'')) s1
      | (Returned r, s1) \<Rightarrow> (Returned r, s1))"

text \<open>\<open>grpc.ChainUnaryInterceptor\<close>: the first interceptor is the outermost.\<close>

definition ChainUnaryInterceptor :: "'s interceptor list \<Rightarrow> 's interceptor" where
  "ChainUnaryInterceptor ics fullMethod handler = foldr (\<lambda>ic h. ic fullMethod h) ics handler"

definition newServer :: "int \<Rightarrow> int \<Rightarrow> (string \<Rightarrow> go_error + uuid) \<Rightarrow> 's interceptor" where
  "newServer now requestTimeout verify =
     ChainUnaryInterceptor [logging, recovery, timeout now requestTimeout, requireAuth verify]"

definition grpc_serve ::
  "int \<Rightarrow> int \<Rightarrow> (string \<Rightarrow> go_error + uuid) \<Rightarrow> 's processor \<Rightarrow> 's unary" where
  "grpc_serve now requestTimeout verify P cx req s =
     newServer now requestTimeout verify (full_method req) (handle P) cx req s"

section \<open>The chain and the handlers under it\<close>

lemmas handler_defs = CreateProduct_def GetProduct_def ListProducts_def UpdateProduct_def DeleteProduct_def
  CreateOrder_def GetOrder_def ListOrders_def reply_def status_Error_def

text \<open>Every call is logged, also one whose handler panics, since recovery runs inside the log.\<close>

lemma every_call_logged:
  "\<exists>c. logging_line fullMethod (ChainUnaryInterceptor [recovery, timeout now d, requireAuth verify] fullMethod handler) cx req s
     = Some (fullMethod, c)"
  by (auto simp: logging_line_def ChainUnaryInterceptor_def recovery_def reply_def split: outcome.split prod.split)

lemma handle_returns: "\<exists>r s'. handle P cx req s = (Returned r, s')"
  by (cases req)
    (auto simp: handler_defs Let_def split: option.split sum.split prod.split)

lemma requireAuth_returns:
  "\<exists>r s'. requireAuth verify m (handle P) cx req s = (Returned r, s')"
  using handle_returns by (auto simp: requireAuth_def reply_def split: option.split sum.split)

lemma grpc_serve_eq:
  "grpc_serve now d verify P cx req s
     = requireAuth verify (full_method req) (handle P) (WithTimeout now d cx) req s"
proof -
  obtain r s' where "requireAuth verify (full_method req) (handle P) (WithTimeout now d cx) req s = (Returned r, s')"
    using requireAuth_returns [of verify "full_method req" P "WithTimeout now d cx" req s] by blast
  then show ?thesis
    by (simp add: grpc_serve_def newServer_def ChainUnaryInterceptor_def logging_def recovery_def timeout_def)
qed

definition is_order_request :: "request \<Rightarrow> bool" where
  "is_order_request req =
     (case req of CreateOrderRequest _ _ \<Rightarrow> True | GetOrderRequest _ \<Rightarrow> True | ListOrdersRequest _ _ \<Rightarrow> True
      | _ \<Rightarrow> False)"

lemma order_request_private:
  "is_order_request req \<longleftrightarrow> full_method req \<notin> set publicMethods \<and> \<not> prefix ''/grpc.'' (full_method req)"
  by (cases req) (simp_all add: is_order_request_def publicMethods_def)

text \<open>The caller a call is served for: the subject of a token that verifies.\<close>

definition verified_caller :: "(string \<Rightarrow> go_error + uuid) \<Rightarrow> ctx \<Rightarrow> uuid option" where
  "verified_caller verify cx =
     (case bearerFromContext cx of None \<Rightarrow> None
      | Some token \<Rightarrow> (case verify token of Inl _ \<Rightarrow> None | Inr sub \<Rightarrow> Some sub))"

lemma bearer_WithTimeout [simp]: "bearerFromContext (WithTimeout now d cx) = bearerFromContext cx"
  by (simp add: bearerFromContext_def WithTimeout_def)

lemma requireAuth_private:
  assumes "m \<notin> set publicMethods" "\<not> prefix ''/grpc.'' m"
  shows "requireAuth verify m h cx req s =
    (case verified_caller verify cx of
       None \<Rightarrow> reply (status_Error Unauthenticated (Text ''invalid or missing token'')) s
     | Some sub \<Rightarrow> h (cx\<lparr>cx_user := Some sub\<rparr>) req s)"
  using assms by (auto simp: requireAuth_def verified_caller_def WithUserID_def split: option.split sum.split)

text \<open>
  C24: calls are denied by default. Whatever handler is registered under a method that is neither
  listed as public nor part of \<open>grpc.*\<close>, the chain runs it only for a caller whose bearer token
  verified, with the token's subject as its identity and a deadline no later than the request
  timeout; any other caller gets \<open>Unauthenticated\<close> and the handler does not run. A panic of the
  handler never leaves the chain. Every method of the order service is such a method.
\<close>

theorem grpc_denies_by_default:
  assumes "m \<notin> set publicMethods" "\<not> prefix ''/grpc.'' m"
  shows "(case verified_caller verify cx of
      None \<Rightarrow> newServer now d verify m h cx req s =
        (Returned \<lparr>rp_header = [], rp_reply = Inl (Status Unauthenticated (Text ''invalid or missing token''))\<rparr>, s)
    | Some sub \<Rightarrow> \<exists>t\<le>now + d. newServer now d verify m h cx req s =
        (case h (cx\<lparr>cx_user := Some sub, cx_deadline := Some t\<rparr>) req s of
           (Panicked, s1) \<Rightarrow>
             (Returned \<lparr>rp_header = [], rp_reply = Inl (Status Internal (Text ''internal error''))\<rparr>, s1)
         | (Returned r, s1) \<Rightarrow> (Returned r, s1)))
    \<and> (\<forall>i q c n. {full_method (CreateOrderRequest i q), full_method (GetOrderRequest i),
        full_method (ListOrdersRequest c n)} \<inter> set publicMethods = {})"
proof (intro conjI allI)
  show "{full_method (CreateOrderRequest i q), full_method (GetOrderRequest i),
      full_method (ListOrdersRequest c n)} \<inter> set publicMethods = {}" for i q c n
    using order_request_private [of "CreateOrderRequest i q"] order_request_private [of "GetOrderRequest i"]
      order_request_private [of "ListOrdersRequest c n"] by (simp add: is_order_request_def)
  have v: "verified_caller verify (WithTimeout now d cx) = verified_caller verify cx"
    by (simp add: verified_caller_def)
  have serve: "newServer now d verify m h cx req s =
      (case requireAuth verify m h (WithTimeout now d cx) req s of
         (Panicked, s1) \<Rightarrow> reply (status_Error Internal (Text ''internal error'')) s1
       | (Returned r, s1) \<Rightarrow> (Returned r, s1))"
    by (simp add: newServer_def ChainUnaryInterceptor_def logging_def recovery_def timeout_def)
  show "case verified_caller verify cx of
      None \<Rightarrow> newServer now d verify m h cx req s =
        (Returned \<lparr>rp_header = [], rp_reply = Inl (Status Unauthenticated (Text ''invalid or missing token''))\<rparr>, s)
    | Some sub \<Rightarrow> \<exists>t\<le>now + d. newServer now d verify m h cx req s =
        (case h (cx\<lparr>cx_user := Some sub, cx_deadline := Some t\<rparr>) req s of
           (Panicked, s1) \<Rightarrow>
             (Returned \<lparr>rp_header = [], rp_reply = Inl (Status Internal (Text ''internal error''))\<rparr>, s1)
         | (Returned r, s1) \<Rightarrow> (Returned r, s1))"
  proof (cases "verified_caller verify cx")
    case None
    then show ?thesis
      using serve requireAuth_private [OF assms, of verify h "WithTimeout now d cx" req s] v
      by (simp add: reply_def status_Error_def)
  next
    case (Some sub)
    define t where "t = (case cx_deadline cx of None \<Rightarrow> now + d | Some t \<Rightarrow> min t (now + d))"
    have "t \<le> now + d" by (simp add: t_def split: option.split)
    moreover have "(WithTimeout now d cx)\<lparr>cx_user := Some sub\<rparr> = cx\<lparr>cx_user := Some sub, cx_deadline := Some t\<rparr>"
      by (simp add: WithTimeout_def t_def)
    ultimately show ?thesis
      using serve requireAuth_private [OF assms, of verify h "WithTimeout now d cx" req s] v Some
      by (auto simp: reply_def status_Error_def intro!: exI [of _ t] split: prod.split outcome.split)
  qed
qed

section \<open>What a reply says about the stored data\<close>

definition read_request :: "request \<Rightarrow> bool" where
  "read_request req =
     (case req of GetProductRequest _ \<Rightarrow> True | ListProductsRequest _ _ \<Rightarrow> True | GetOrderRequest _ \<Rightarrow> True
      | ListOrdersRequest _ _ \<Rightarrow> True | _ \<Rightarrow> False)"

context processor_contract
begin

lemma same_sndI: "f s = (r, s') \<Longrightarrow> same s (snd (f s)) \<Longrightarrow> same s s'"
  by simp

lemma handle_read_same:
  assumes "read_request req"
  shows "same s (snd (handle P cx req s))"
  using assms
  by (cases req)
    (auto simp: handler_defs read_request_def same_refl intro: same_sndI [OF _ reads_same(1)]
      same_sndI [OF _ reads_same(2)] same_sndI [OF _ reads_same(3)] same_sndI [OF _ reads_same(4)]
      split: option.split sum.split prod.split)

lemma handle_error_same:
  assumes "quiet s" "handle P cx req s = (Returned r, s')" "rp_reply r = Inl st"
  shows "same s s'"
proof (cases "read_request req")
  case True
  then show ?thesis using handle_read_same [OF True, of s cx] assms(2) by simp
next
  case False
  then show ?thesis
    using assms errors_same [OF assms(1)]
    by (cases req)
      (auto simp: handler_defs read_request_def same_refl Let_def
        split: option.splits sum.splits prod.splits if_splits)
qed

lemma serve_same:
  assumes "grpc_serve now d verify P cx req s = (out, s')"
  shows "\<exists>r. out = Returned r \<and> (read_request req \<longrightarrow> same s s')
    \<and> (quiet s \<longrightarrow> (\<forall>st. rp_reply r = Inl st \<longrightarrow> same s s'))"
proof -
  obtain r where r: "out = Returned r"
    using assms requireAuth_returns [of verify "full_method req" P "WithTimeout now d cx" req s]
    by (auto simp: grpc_serve_eq)
  consider (denied) "s' = s" | (ran) cx' where "handle P cx' req s = (Returned r, s')"
    using assms r by (auto simp: grpc_serve_eq requireAuth_def reply_def split: option.splits sum.splits if_splits)
  then show ?thesis
  proof cases
    case denied
    then show ?thesis using r by (simp add: same_refl)
  next
    case ran
    then show ?thesis
      using r handle_read_same [of req s cx'] handle_error_same [of s cx' req r s'] by auto
  qed
qed

end

text \<open>
  C18: a reply tells the truth about the data. Every call of the server returns; a read leaves every
  row of every table as it was, under any faults; and when the reply is an error status, whichever
  it is (a refused token, an invalid argument, a domain error or an infrastructure failure), no row
  changed, unless the answer to a commit was lost on the way.
\<close>

theorem grpc_error_changes_nothing:
  assumes "grpc_serve now d verify (service_processor sha256 pg srv dr) cx req sv = (out, sv')"
  shows "\<exists>r. out = Returned r
    \<and> (read_request req \<longrightarrow> same_rows (tables (sv_conn sv)) (tables (sv_conn sv')))
    \<and> ((\<forall>e. AckLost e \<notin> set (script (sv_conn sv))) \<longrightarrow> (\<forall>st. rp_reply r = Inl st \<longrightarrow>
         same_rows (tables (sv_conn sv)) (tables (sv_conn sv'))))"
  using svcp.serve_same [OF assms] unfolding svc_same_def svc_quiet_def by blast

section \<open>Orders over gRPC\<close>

lemma service_FindOrder_fst: "fst (service_FindOrder u i sv) = fst (store_FindOrder u i (sv_conn sv))"
  and service_FindOrders_fst: "fst (service_FindOrders u c n sv) = fst (store_FindOrders u c n (sv_conn sv))"
  by (simp_all add: service_op_defs on_store_def split: prod.split)

text \<open>The order handlers as functions of what the service answers.\<close>

lemma GetOrder_cong:
  assumes u: "callerID cx = Inr u" and "\<And>j. fst (pr_FindOrder P u j s) = fst (pr_FindOrder P u j t)"
  shows "fst (GetOrder P cx i s) = fst (GetOrder P cx i t)"
proof (cases "uuid_Parse i")
  case (Inr j)
  obtain r s1 t1 where "pr_FindOrder P u j s = (r, s1)" "pr_FindOrder P u j t = (r, t1)"
    using assms(2) [of j] by (metis prod.collapse)
  then show ?thesis using u Inr by (cases r) (simp_all add: GetOrder_def reply_def)
qed (simp add: GetOrder_def reply_def u)

lemma ListOrders_cong:
  assumes u: "callerID cx = Inr u"
    and "\<And>c n. fst (pr_FindOrders P u c n s) = fst (pr_FindOrders P u c n t)"
  shows "fst (ListOrders P cx c n s) = fst (ListOrders P cx c n t)"
proof (cases "ParseCursor c")
  case (Inr j)
  obtain r s1 t1 where "pr_FindOrders P u j (NormalizePageSize n) s = (r, s1)"
    "pr_FindOrders P u j (NormalizePageSize n) t = (r, t1)"
    using assms(2) [of j "NormalizePageSize n"] by (metis prod.collapse)
  then show ?thesis using u Inr by (cases r) (simp_all add: ListOrders_def reply_def)
qed (simp add: ListOrders_def reply_def u)

definition caller_ctx :: "int \<Rightarrow> int \<Rightarrow> uuid \<Rightarrow> ctx \<Rightarrow> ctx" where
  "caller_ctx now d u cx = (WithTimeout now d cx)\<lparr>cx_user := Some u\<rparr>"

lemma grpc_serve_order:
  assumes "is_order_request req" "verified_caller verify cx = Some u"
  shows "grpc_serve now d verify P cx req s = handle P (caller_ctx now d u cx) req s"
proof -
  have "verified_caller verify (WithTimeout now d cx) = Some u"
    using assms(2) by (simp add: verified_caller_def)
  then show ?thesis
    using assms(1) order_request_private [of req] requireAuth_private [of "full_method req" verify "handle P"
        "WithTimeout now d cx" req s]
    by (simp add: grpc_serve_eq caller_ctx_def)
qed

lemma callerID_caller_ctx [simp]: "callerID (caller_ctx now d u cx) = Inr u"
  by (simp add: callerID_def caller_ctx_def auth_UserID_def)

lemma uuid_Parse_string [simp]: "uuid_Parse (uuid_string i) = Inr i"
  by (simp add: uuid_Parse_def)

text \<open>
  A caller learns nothing about other users' orders. The replies to \<open>GetOrder\<close> and
  \<open>ListOrders\<close> under a verified token depend on the orders of the token's subject alone: two
  servers whose databases agree on them answer alike, whatever else they hold and whatever
  faults they meet. On a healthy connection an order that is not the caller's, be it somebody
  else's or missing, is \<open>NotFound\<close> with the message of a missing order.
\<close>

theorem grpc_order_privacy:
  fixes sv tv :: svc
  assumes caller: "verified_caller verify cx = Some u"
    and own: "own_orders u (tables (sv_conn sv)) = own_orders u (tables (sv_conn tv))"
    and env: "script (sv_conn sv) = script (sv_conn tv)" "clock (sv_conn sv) = clock (sv_conn tv)"
  shows "fst (grpc_serve now d verify (service_processor sha256 pg srv dr) cx (GetOrderRequest i) sv)
      = fst (grpc_serve now d verify (service_processor sha256 pg srv dr) cx (GetOrderRequest i) tv)
    \<and> fst (grpc_serve now d verify (service_processor sha256 pg srv dr) cx (ListOrdersRequest c n) sv)
      = fst (grpc_serve now d verify (service_processor sha256 pg srv dr) cx (ListOrdersRequest c n) tv)
    \<and> (script (sv_conn sv) = [] \<and> oid \<notin> o_id ` set (own_orders u (tables (sv_conn sv))) \<longrightarrow>
        fst (grpc_serve now d verify (service_processor sha256 pg srv dr) cx (GetOrderRequest (uuid_string oid)) sv)
        = Returned \<lparr>rp_header = [], rp_reply = Inl (Status NotFound (Text ''order not found''))\<rparr>)"
proof (intro conjI impI)
  let ?P = "service_processor sha256 pg srv dr" and ?cx = "caller_ctx now d u cx"
  have q: "is_order_request (GetOrderRequest i)" "is_order_request (ListOrdersRequest c n)"
    "is_order_request (GetOrderRequest (uuid_string oid))"
    by (simp_all add: is_order_request_def)
  have find_eq: "fst (pr_FindOrder ?P u j x) = fst (store_FindOrder u j (sv_conn x))"
    "fst (pr_FindOrders ?P u c n x) = fst (store_FindOrders u c n (sv_conn x))" for j c n x
    by (simp_all add: service_processor_def service_FindOrder_fst service_FindOrders_fst)
  have find: "fst (pr_FindOrder ?P u j sv) = fst (pr_FindOrder ?P u j tv)" for j
    unfolding find_eq using store_FindOrder_same_run [of u j] own env unfolding same_run_def by blast
  have finds: "fst (pr_FindOrders ?P u c n sv) = fst (pr_FindOrders ?P u c n tv)" for c n
    unfolding find_eq using store_FindOrders_same_run [of u c n] own env unfolding same_run_def by blast
  show "fst (grpc_serve now d verify ?P cx (GetOrderRequest i) sv) = fst (grpc_serve now d verify ?P cx (GetOrderRequest i) tv)"
    using GetOrder_cong [of ?cx u ?P sv tv i] find by (simp add: grpc_serve_order [OF q(1) caller])
  show "fst (grpc_serve now d verify ?P cx (ListOrdersRequest c n) sv) = fst (grpc_serve now d verify ?P cx (ListOrdersRequest c n) tv)"
    using ListOrders_cong [of ?cx u ?P sv tv c n] finds by (simp add: grpc_serve_order [OF q(2) caller])
  assume h: "script (sv_conn sv) = [] \<and> oid \<notin> o_id ` set (own_orders u (tables (sv_conn sv)))"
  then have "find_key o_id oid (own_orders u (tables (sv_conn sv))) = None"
    using find_key_None [of o_id oid] by blast
  then have "pr_FindOrder ?P u oid sv = (Inl ErrNotFound, sv)"
    using h store_FindOrder_run [of "sv_conn sv" u oid]
    by (simp add: service_processor_def service_FindOrder_def on_store_def)
  then show "fst (grpc_serve now d verify ?P cx (GetOrderRequest (uuid_string oid)) sv)
      = Returned \<lparr>rp_header = [], rp_reply = Inl (Status NotFound (Text ''order not found''))\<rparr>"
    by (simp add: grpc_serve_order [OF q(3) caller] GetOrder_def reply_def status_Error_def)
qed

lemma idempotency_caller_ctx [simp]:
  "idempotencyFromMetadata (caller_ctx now d u cx) = idempotencyFromMetadata cx"
  by (simp add: idempotencyFromMetadata_def caller_ctx_def WithTimeout_def)

text \<open>An order request that passes the checks is the service's order; any other leaves the state alone.\<close>

lemma CreateOrder_reaches:
  assumes "CreateOrder P cx raw q s = (out, s')" "callerID cx = Inr u"
  obtains (refused) "s' = s"
  | (reached) i k res where "uuid_Parse raw = Inr i" "idempotencyFromMetadata cx = Inr k" "ValidPurchaseQuantity q"
      "pr_CreateOrder P u i q k s = (res, s')"
      "\<And>x b. res = Inr (x, b) \<Longrightarrow> out = Returned \<lparr>rp_header = (if b then [(metaIdempotencyReplayed, ''true'')] else []),
          rp_reply = Inr (CreateOrderResponse (toOrderProto x))\<rparr>"
      "\<And>e. res = Inl e \<Longrightarrow> \<exists>st. out = Returned \<lparr>rp_header = [], rp_reply = Inl st\<rparr>"
proof -
  consider "s' = s" | i k where "uuid_Parse raw = Inr i" "idempotencyFromMetadata cx = Inr k" "ValidPurchaseQuantity q"
    using assms by (auto simp: CreateOrder_def reply_def split: sum.splits if_splits)
  then show thesis
  proof cases
    case 1
    then show thesis by (rule refused)
  next
    case (2 i k)
    obtain res t where p: "pr_CreateOrder P u i q k s = (res, t)" by fastforce
    show thesis
      by (rule reached [OF 2, of res])
        (use assms 2 p in \<open>auto simp: CreateOrder_def reply_def toStatus_def status_Error_def split: sum.splits if_splits\<close>)
  qed
qed

text \<open>
  An order over gRPC is placed once. If a \<open>CreateOrder\<close> call stored an order, whatever the client
  saw of it, then the same request under a token of the same user and with the same idempotency
  key, within the retention time, on a healthy connection and over tables that still have every order
  and live key, is answered with that order and the
  \<open>idempotency-replayed\<close> header, and neither rows nor cache change. If the first reply did arrive, it
  carried the same order, without the header.
\<close>

lemma grpc_order_replays:
  assumes caller: "verified_caller verify cx = Some u" "verified_caller verify cx' = Some u"
    and key: "idempotencyFromMetadata cx' = idempotencyFromMetadata cx"
    and first: "grpc_serve now d verify (service_processor sha256 pg srv dr) cx (CreateOrderRequest raw q) sv = (out, sv')"
    and wf: "db_wf (tables (sv_conn sv))" "keys_settled sha256 (tables (sv_conn sv))"
    and effect: "orders (tables (sv_conn sv')) \<noteq> orders (tables (sv_conn sv))"
    and retry: "script (sv_conn tv) = []"
      "keeps_orders sha256 (clock (sv_conn tv)) (tables (sv_conn sv')) (tables (sv_conn tv))"
      "clock (sv_conn tv) \<le> clock (sv_conn sv) + interval_us (idempotencyTTL pg)"
  shows "\<exists>x. grpc_serve now' d verify (service_processor sha256 pg srv dr') cx' (CreateOrderRequest raw q) tv
      = (Returned \<lparr>rp_header = [(''idempotency-replayed'', ''true'')], rp_reply = Inr (CreateOrderResponse x)\<rparr>, tv)
    \<and> op_id x = uuid_string (dr_newV7 dr)
    \<and> (\<forall>r y. out = Returned r \<longrightarrow> rp_reply r = Inr y \<longrightarrow> y = CreateOrderResponse x \<and> rp_header r = [])"
proof -
  let ?P = "service_processor sha256 pg srv dr" and ?P2 = "service_processor sha256 pg srv dr'"
  have q: "is_order_request (CreateOrderRequest raw q)" by (simp add: is_order_request_def)
  have "CreateOrder ?P (caller_ctx now d u cx) raw q sv = (out, sv')"
    using first by (simp add: grpc_serve_order [OF q caller(1)])
  then show ?thesis
    using callerID_caller_ctx
  proof (cases rule: CreateOrder_reaches)
    case refused
    then show ?thesis using effect by simp
  next
    case (reached i k res)
    have "service_CreateOrder sha256 pg srv (dr_random dr) (dr_newV7 dr) (dr_event dr) (dr_now dr) u i q k sv = (res, sv')"
      using reached(4) by (simp add: service_processor_def)
    from service_order_replays [OF this wf effect retry, of "dr_random dr'" "dr_newV7 dr'" "dr_event dr'" "dr_now dr'"]
    obtain o3 where o3: "pr_CreateOrder ?P2 u i q k tv = (Inr (o3, True), tv)" "ord_ID o3 = dr_newV7 dr"
      "is_ok res \<longrightarrow> res = Inr (o3, False)"
      by (auto simp: service_processor_def)
    have "CreateOrder ?P2 (caller_ctx now' d u cx') raw q tv =
        (Returned \<lparr>rp_header = [(''idempotency-replayed'', ''true'')], rp_reply = Inr (CreateOrderResponse (toOrderProto o3))\<rparr>, tv)"
      using reached(1,2,3) o3(1) key by (simp add: CreateOrder_def metaIdempotencyReplayed_def)
    moreover have "op_id (toOrderProto o3) = uuid_string (dr_newV7 dr)" using o3(2) by (simp add: toOrderProto_def)
    moreover have "y = CreateOrderResponse (toOrderProto o3) \<and> rp_header r = []"
      if "out = Returned r" "rp_reply r = Inr y" for r y
      using that reached(5) [of o3 False] reached(6) o3(3) by (cases res) auto
    ultimately show ?thesis by (auto simp: grpc_serve_order [OF q caller(2)])
  qed
qed

section \<open>Products the schema does not hold\<close>

lemma unstorable_status:
  assumes "e \<in> {int4_encode_error, character_not_in_repertoire, string_data_right_truncation}"
  shows "toStatus (mapDBError e) = Inl (Status Internal (Text ''internal error''))"
proof -
  have "mapDBError e = e" using assms unstorable_raw by auto
  moreover have "e = ErrText ''value is out of range for int4'' \<or> e = PgError ''22021'' \<or> e = PgError ''22001''"
    using assms by (auto simp: int4_encode_error_def character_not_in_repertoire_def string_data_right_truncation_def)
  ultimately show ?thesis by (elim disjE) (simp_all add: toStatus_def status_Error_def)
qed

text \<open>
  C39: validation lets through products the schema cannot hold. The domain bounds the stock of a new
  product only from below and does not bound its name, while the column is a 4-byte integer and
  the name has at most 100 characters; the client of such a request, valid as far as the domain
  says, is told of an internal error. Nothing is stored.
\<close>

theorem grpc_unstorable_product_internal:
  assumes h: "script (sv_conn sv) = []"
    and valid: "product_Validate (zero_product\<lparr>prod_Name := name, prod_Price := toDomainMoney price, prod_Stock := stock\<rparr>) = None"
    and big: "stock > 2147483647 \<or> varchar_fit 100 name = None"
  shows "grpc_serve now d verify (service_processor sha256 pg srv dr) cx (CreateProductRequest name price stock) sv
    = (Returned \<lparr>rp_header = [], rp_reply = Inl (Status Internal (Text ''internal error''))\<rparr>, sv)"
proof -
  let ?p = "zero_product\<lparr>prod_Name := name, prod_Price := toDomainMoney price, prod_Stock := stock\<rparr>"
  obtain e where e: "queryInsert (dr_newV7 dr) name (MinorAmount (toDomainMoney price)) (Currency (toDomainMoney price))
      stock (clock (sv_conn sv)) (tables (sv_conn sv)) = Inl e"
    "e \<in> {int4_encode_error, character_not_in_repertoire, string_data_right_truncation}"
    using queryInsert_unstorable [OF big] by metis
  have "sv\<lparr>sv_conn := sv_conn sv\<rparr> = sv" by simp
  then have "pr_Create (service_processor sha256 pg srv dr) ?p sv = (Inl (mapDBError e), sv)"
    using e(1) by (simp add: service_processor_def service_Create_def on_store_def store_Save_run [OF h] zero_product_def)
  then have "CreateProduct (service_processor sha256 pg srv dr) name price stock sv
      = (Returned \<lparr>rp_header = [], rp_reply = Inl (Status Internal (Text ''internal error''))\<rparr>, sv)"
    using valid unstorable_status [OF e(2)] by (simp add: CreateProduct_def Let_def reply_def)
  then show ?thesis by (simp add: grpc_serve_eq requireAuth_def publicMethods_def)
qed

section \<open>Samples\<close>

text \<open>A verifier that knows one token, of user 1.\<close>

definition sample_verify :: "string \<Rightarrow> go_error + uuid" where
  "sample_verify t = (if t = ''tok'' then Inr 1 else Inl ErrInvalidToken)"

definition sample_ctx :: ctx where
  "sample_ctx = \<lparr>cx_user = None,
     cx_metadata = Some [(''authorization'', [''bearer tok'']), (''idempotency-key'', [''k1''])], cx_deadline = None\<rparr>"

definition sample_draws :: draws where
  "sample_draws = \<lparr>dr_newV7 = 40, dr_event = 50, dr_now = 0, dr_random = ''r''\<rparr>"

abbreviation sample_processor :: "svc processor" where
  "sample_processor \<equiv> service_processor (\<lambda>x. x) (NewPostgres 86400000000000) sample_service sample_draws"

lemma sample_bearer: "BearerToken ''bearer tok'' = Some ''tok''"
  by code_simp

lemma sample_caller: "verified_caller sample_verify sample_ctx = Some 1"
  by (simp add: verified_caller_def bearerFromContext_def sample_ctx_def md_Get_def sample_bearer sample_verify_def)

theorem grpc_denies_by_default_witness:
  "newServer 0 5 sample_verify ''/order.v1.OrderService/GetOrder'' (\<lambda>cx req s. (Panicked, s))
     (sample_ctx\<lparr>cx_metadata := None\<rparr>) (GetOrderRequest ''x'') (7 :: nat) =
   (Returned \<lparr>rp_header = [], rp_reply = Inl (Status Unauthenticated (Text ''invalid or missing token''))\<rparr>, 7)"
proof -
  have "verified_caller sample_verify (sample_ctx\<lparr>cx_metadata := None\<rparr>) = None"
    by (simp add: verified_caller_def bearerFromContext_def)
  then show ?thesis
    using grpc_denies_by_default [where m = "''/order.v1.OrderService/GetOrder''" and verify = sample_verify and
        cx = "sample_ctx\<lparr>cx_metadata := None\<rparr>" and now = 0 and d = 5 and h = "\<lambda>cx req s. (Panicked, s)"
        and req = "GetOrderRequest ''x''" and s = "7 :: nat"]
    by (simp add: publicMethods_def)
qed

theorem grpc_error_changes_nothing_witness:
  "same_rows sample_db (tables (sv_conn (snd
     (grpc_serve 0 5 sample_verify sample_processor sample_ctx (ListOrdersRequest '''' 10) sample_svc))))"
  using grpc_error_changes_nothing [OF surjective_pairing,
      of 0 5 sample_verify "\<lambda>x. x" "NewPostgres 86400000000000" sample_service sample_draws sample_ctx
        "ListOrdersRequest '''' 10" sample_svc]
  by (auto simp: read_request_def sample_svc_facts)

theorem grpc_order_privacy_witness:
  "fst (grpc_serve 0 5 sample_verify sample_processor sample_ctx (GetOrderRequest (uuid_string 21))
      (sample_svc\<lparr>sv_conn := healthy sample_orders_db\<rparr>))
   = Returned \<lparr>rp_header = [], rp_reply = Inl (Status NotFound (Text ''order not found''))\<rparr>"
proof -
  let ?sv = "sample_svc\<lparr>sv_conn := healthy sample_orders_db\<rparr>"
  have "script (sv_conn ?sv) = [] \<and> 21 \<notin> o_id ` set (own_orders 1 (tables (sv_conn ?sv)))"
    by (simp add: healthy_def own_orders_def sample_orders_db_def sample_order_def)
  then show ?thesis
    using grpc_order_privacy [OF sample_caller, where sv = ?sv and tv = ?sv and oid = 21 and now = 0 and d = 5
        and pg = "NewPostgres 86400000000000" and srv = sample_service and dr = sample_draws]
    by blast
qed

theorem grpc_unstorable_product_internal_witness:
  "grpc_serve 0 5 sample_verify sample_processor sample_ctx
     (CreateProductRequest ''widget'' (Some \<lparr>mp_minor_amount = 999, mp_currency = ''PLN''\<rparr>) 3000000000) sample_svc
   = (Returned \<lparr>rp_header = [], rp_reply = Inl (Status Internal (Text ''internal error''))\<rparr>, sample_svc)"
  using grpc_unstorable_product_internal [where sv = sample_svc and name = "''widget''"
      and price = "Some \<lparr>mp_minor_amount = 999, mp_currency = ''PLN''\<rparr>" and stock = 3000000000]
  by (simp add: sample_svc_facts product_Validate_None zero_product_def toDomainMoney_def currency_Valid_def currency_defs)

text \<open>A first order whose commit goes through although the client sees an error.\<close>

definition sample_first :: "rpc outcome \<times> svc" where
  "sample_first = grpc_serve 0 5 sample_verify sample_processor sample_ctx (CreateOrderRequest (uuid_string 7) 4)
     (sample_svc\<lparr>sv_conn := lost_commit\<rparr>)"

lemma sample_first_orders: "map o_id (orders (tables (sv_conn (snd sample_first)))) = [40]"
proof -
  have "idempotencyFromMetadata sample_ctx = Inr ''k1''"
    by (simp add: idempotencyFromMetadata_def sample_ctx_def md_Get_def metaIdempotencyKey_def MaxIdempotencyKeyLen_def)
  moreover have "new_order 40 1 7 4 = sample_request" by (simp add: new_order_def sample_request_def)
  moreover obtain r c where "store_CreateOrder (\<lambda>x. x) (NewPostgres 86400000000000) 50 0 sample_request ''k1'' lost_commit = (Inl r, c)"
    "map o_id (orders (tables c)) = [40]"
    using lost_commit_effect by (metis prod.collapse)
  ultimately show ?thesis
    by (simp add: sample_first_def is_order_request_def grpc_serve_order [OF _ sample_caller] CreateOrder_def
        ValidPurchaseQuantity_def minPurchaseQuantity_def maxPurchaseQuantity_def service_processor_def
        sample_draws_def service_CreateOrder_def on_store_def reply_def)
qed

text \<open>The service when the client tries again, a minute later.\<close>

definition sample_retry :: svc where
  "sample_retry = (snd sample_first)\<lparr>sv_conn := (sv_conn (snd sample_first))\<lparr>script := [], clock := 60\<rparr>\<rparr>"

lemma sample_retry_facts:
  "db_wf (tables (sv_conn (sample_svc\<lparr>sv_conn := lost_commit\<rparr>)))"
  "keys_settled (\<lambda>x. x) (tables (sv_conn (sample_svc\<lparr>sv_conn := lost_commit\<rparr>)))"
  "orders (tables (sv_conn (snd sample_first))) \<noteq> orders (tables (sv_conn (sample_svc\<lparr>sv_conn := lost_commit\<rparr>)))"
  "script (sv_conn sample_retry) = []" "tables (sv_conn sample_retry) = tables (sv_conn (snd sample_first))"
  "clock (sv_conn sample_retry) \<le> clock (sv_conn (sample_svc\<lparr>sv_conn := lost_commit\<rparr>))
     + interval_us (idempotencyTTL (NewPostgres 86400000000000))"
  using sample_first_orders lost_commit_facts sample_db_wf sample_db_settled
  by (auto simp: sample_retry_def lost_commit_def sample_db_def empty_database_def NewPostgres_def interval_us_def)

end
