(* ===== verification/Http_Calls.thy ===== *)
theory Http_Calls
  imports Http Grpc
begin

text \<open>
  What the HTTP API promises its clients: a reply tells the truth about the stored data, orders need a
  token and are private, an order is placed once, bodies are read as their JSON says and bounded, and
  both transports do the same.
\<close>

section \<open>What a reply says about the stored data\<close>

lemma error_status [simp]:
  assumes "rw_status w = None"
  shows "rw_status (respondError c m w) = Some c" "rw_status (respond c b w) = Some c"
    "rw_status (http_Error t c w) = Some c"
  using assms by (simp_all add: respondError_def respond_sel http_Error_eq)

lemmas http_handler_defs = http_GetByID_def http_Get_def http_Add_def http_Delete_def http_Update_def
  http_CreateOrder_def http_GetOrder_def http_ListOrders_def http_callerID_def served_def Let_def

context processor_contract
begin

definition truthful :: "'s handler \<Rightarrow> bool" where
  "truthful h \<longleftrightarrow> (\<forall>r w s ok w' s'. rw_status w = None \<longrightarrow> h r w s = (ok, w', s') \<longrightarrow> quiet s
     \<longrightarrow> status_of w' \<ge> 400 \<longrightarrow> same s s')"

definition reading :: "'s handler \<Rightarrow> bool" where
  "reading h \<longleftrightarrow> (\<forall>r w s. same s (snd (snd (h r w s))))"

lemma readers:
  "reading (http_GetByID P)" "reading (http_Get P)" "reading (http_GetOrder P)" "reading (http_ListOrders P)"
  unfolding reading_def http_handler_defs
  by (auto simp: same_refl intro: same_sndI [OF _ reads_same(1)] same_sndI [OF _ reads_same(2)]
      same_sndI [OF _ reads_same(3)] same_sndI [OF _ reads_same(4)] split: option.split sum.split prod.split)

lemma reading_truthful: "reading h \<Longrightarrow> truthful h"
  unfolding reading_def truthful_def by (metis snd_conv)

lemma writers:
  "truthful (http_Add P)" "truthful (http_Update P)" "truthful (http_Delete P)" "truthful (http_CreateOrder P)"
  unfolding truthful_def http_handler_defs
  by (auto simp: same_refl status_of_def intro: errors_same split: option.splits sum.splits prod.splits if_splits)

lemma Auth_keeps:
  "truthful h \<Longrightarrow> truthful (http_Auth verify h)" "reading h \<Longrightarrow> reading (http_Auth verify h)"
  unfolding truthful_def reading_def http_Auth_def served_def
  by (auto simp: same_refl split: option.splits sum.splits)

lemma api_routes_truthful: "rt \<in> set (api_routes P (http_Auth verify)) \<Longrightarrow> truthful (rt_handler rt)"
  by (auto simp: api_routes_def readers [THEN reading_truthful] writers Auth_keeps(1))

lemma api_routes_reading:
  "rt \<in> set (api_routes P (http_Auth verify)) \<Longrightarrow> rt_method rt = ''GET'' \<Longrightarrow> reading (rt_handler rt)"
  using readers by (auto simp: api_routes_def intro: Auth_keeps)

lemma get_routes:
  "rt \<in> set (api_routes P a) \<Longrightarrow> match_method (rt_method rt) m \<Longrightarrow> m \<in> {''GET'', ''HEAD''} \<Longrightarrow> rt_method rt = ''GET''"
  by (auto simp: api_routes_def match_method_def)

lemma mux_truthful:
  assumes run: "NewMux P (http_Auth verify) r w s = (ok, w', s')" and w: "rw_status w = None"
  shows "(rq_method r \<in> {''GET'', ''HEAD''} \<longrightarrow> same s s') \<and> (quiet s \<and> status_of w' \<ge> 400 \<longrightarrow> same s s')"
proof (cases rule: serve_mux_cases [of "api_routes P (http_Auth verify)" r w s])
  case (route rt i)
  then have h: "rt_handler rt (r\<lparr>rq_path_id := i\<rparr>) w s = (ok, w', s')" using run by (simp add: NewMux_def)
  have "same s s'" if "rq_method r \<in> {''GET'', ''HEAD''}"
    using api_routes_reading [OF route(1) get_routes [OF route(1,2) that]] h unfolding reading_def by (metis snd_conv)
  moreover have "same s s'" if "quiet s" "status_of w' \<ge> 400"
    using api_routes_truthful [OF route(1)] w h that unfolding truthful_def by blast
  ultimately show ?thesis by blast
next
  case (refused m c)
  then show ?thesis using run by (simp add: NewMux_def same_refl)
qed

end

text \<open>
  C17: over HTTP too a reply tells the truth about the data. A GET or HEAD request leaves every row of
  every table as it was, under any faults, and when the status is 400 or above no row changed, unless
  the answer to a commit was lost.
\<close>

theorem http_error_changes_nothing:
  assumes "NewMux (service_processor sha256 pg srv dr) (http_Auth verify) r w sv = (ok, w', sv')" "rw_status w = None"
  shows "(rq_method r \<in> {''GET'', ''HEAD''} \<longrightarrow> same_rows (tables (sv_conn sv)) (tables (sv_conn sv')))
    \<and> ((\<forall>e. AckLost e \<notin> set (script (sv_conn sv))) \<and> status_of w' \<ge> 400
        \<longrightarrow> same_rows (tables (sv_conn sv)) (tables (sv_conn sv')))"
  using svcp.mux_truthful [OF assms] unfolding svc_same_def svc_quiet_def .

section \<open>Who may ask for orders\<close>

definition http_caller :: "(string \<Rightarrow> go_error + uuid) \<Rightarrow> http_request \<Rightarrow> uuid option" where
  "http_caller verify r =
     (case BearerToken (get_first (rq_header r) ''Authorization'') of None \<Rightarrow> None
      | Some token \<Rightarrow> (case verify token of Inl _ \<Rightarrow> None | Inr sub \<Rightarrow> Some sub))"

lemma http_Auth_eq:
  "http_Auth verify h r w s =
     (case http_caller verify r of None \<Rightarrow> (True, unauthorized w, s) | Some u \<Rightarrow> h (r\<lparr>rq_user := Some u\<rparr>) w s)"
  by (simp add: http_Auth_def http_caller_def served_def WithUserID_def split: option.split sum.split)

text \<open>The routes of the API, one equation each.\<close>

lemma route_products:
  assumes "rq_path r = [''v1'', ''products'']"
  shows "rq_method r = ''POST'' \<Longrightarrow> NewMux P a r w s = http_Add P (r\<lparr>rq_path_id := ''''\<rparr>) w s"
    and "rq_method r \<in> {''GET'', ''HEAD''} \<Longrightarrow> NewMux P a r w s = http_Get P (r\<lparr>rq_path_id := ''''\<rparr>) w s"
  using assms by (auto simp: NewMux_def serve_mux_def api_routes_def match_method_def)

lemma route_product:
  assumes "rq_path r = [''v1'', ''products'', i]" "i \<noteq> ''''"
  shows "rq_method r = ''PUT'' \<Longrightarrow> NewMux P a r w s = http_Update P (r\<lparr>rq_path_id := i\<rparr>) w s"
    and "rq_method r \<in> {''GET'', ''HEAD''} \<Longrightarrow> NewMux P a r w s = http_GetByID P (r\<lparr>rq_path_id := i\<rparr>) w s"
    and "rq_method r = ''DELETE'' \<Longrightarrow> NewMux P a r w s = http_Delete P (r\<lparr>rq_path_id := i\<rparr>) w s"
  using assms by (auto simp: NewMux_def serve_mux_def api_routes_def match_method_def)

lemma route_orders:
  assumes "rq_path r = [''v1'', ''orders'']"
  shows "rq_method r = ''POST'' \<Longrightarrow> NewMux P a r w s = a (http_CreateOrder P) (r\<lparr>rq_path_id := ''''\<rparr>) w s"
    and "rq_method r \<in> {''GET'', ''HEAD''} \<Longrightarrow> NewMux P a r w s = a (http_ListOrders P) (r\<lparr>rq_path_id := ''''\<rparr>) w s"
  using assms by (auto simp: NewMux_def serve_mux_def api_routes_def match_method_def)

lemma route_order:
  assumes "rq_path r = [''v1'', ''orders'', i]" "i \<noteq> ''''" "rq_method r \<in> {''GET'', ''HEAD''}"
  shows "NewMux P a r w s = a (http_GetOrder P) (r\<lparr>rq_path_id := i\<rparr>) w s"
  using assms by (auto simp: NewMux_def serve_mux_def api_routes_def match_method_def)

lemma http_caller_path [simp]: "http_caller verify (r\<lparr>rq_path_id := i\<rparr>) = http_caller verify r"
  by (simp add: http_caller_def)

lemma order_route_handler:
  assumes "rt \<in> set (api_routes P a)" "match_path (rt_path rt) (''v1'' # ''orders'' # rest) = Some i"
  shows "rt_handler rt \<in> a ` {http_CreateOrder P, http_GetOrder P, http_ListOrders P}"
  using assms by (auto simp: api_routes_def)

lemma order_path_cases:
  assumes "rq_path r = ''v1'' # ''orders'' # rest"
  obtains (handled) h i where "NewMux P a r w s = a h (r\<lparr>rq_path_id := i\<rparr>) w s"
      "h \<in> {http_CreateOrder P, http_GetOrder P, http_ListOrders P}"
  | (refused) m c where "c \<in> {404, 405}" "NewMux P a r w s = (True, http_Error m c w, s)"
proof (cases rule: serve_mux_cases [of "api_routes P a" r w s])
  case (route rt i)
  then obtain h where "rt_handler rt = a h" "h \<in> {http_CreateOrder P, http_GetOrder P, http_ListOrders P}"
    using order_route_handler [OF route(1), of rest i] assms by auto
  then show thesis using route(4) by (intro handled [of h i]) (simp_all add: NewMux_def)
next
  case (refused m c)
  then show thesis by (intro that(2)) (simp_all add: NewMux_def)
qed

lemma unauthorized_status [simp]:
  assumes "rw_status w = None"
  shows "rw_status (unauthorized w) = Some 401" "map_of (rw_header (unauthorized w)) ''WWW-Authenticate'' = Some ''Bearer''"
  using assms by (simp_all add: unauthorized_def respondError_def respond_sel) (simp add: header_Set_def)

text \<open>The handlers below the token check never answer 401.\<close>

lemma order_handlers_not_401:
  assumes "h \<in> {http_CreateOrder P, http_GetOrder P, http_ListOrders P}" "rw_status w = None"
  shows "rw_status (fst (snd (h r w s))) \<noteq> Some 401"
  using assms
  by (auto simp: http_handler_defs respondServerError_def http_internalError_def respondDecodeError_def mapDecodeError_def
      split: option.splits sum.splits prod.splits decode_error.splits if_splits)

text \<open>
  C25: the order endpoints need a token. On any path below \<open>/v1/orders\<close> and with any method, a request
  without a bearer token that verifies changes nothing and is answered with 401 and the bearer
  challenge, or with the router's 404 or 405; one with a verified token is handled under the identity
  of the token's subject, which the request cannot choose otherwise.
\<close>

theorem http_orders_need_token:
  assumes path: "rq_path r = ''v1'' # ''orders'' # rest" and w: "rw_status w = None"
    and run: "NewMux P (http_Auth verify) r w s = (ok, w', s')"
  shows "case http_caller verify r of
      None \<Rightarrow> s' = s \<and> status_of w' \<in> {401, 404, 405}
        \<and> (status_of w' = 401 \<longrightarrow> map_of (rw_header w') ''WWW-Authenticate'' = Some ''Bearer'')
    | Some u \<Rightarrow> status_of w' \<noteq> 401
        \<and> (status_of w' \<in> {404, 405} \<and> s' = s
          \<or> (\<exists>i. \<exists>h\<in>{http_CreateOrder P, http_GetOrder P, http_ListOrders P}.
              h (r\<lparr>rq_path_id := i, rq_user := Some u\<rparr>) w s = (ok, w', s')))"
  using path
proof (cases rule: order_path_cases [where P = P and a = "http_Auth verify" and w = w and s = s])
  case (handled h i)
  then have h: "http_Auth verify h (r\<lparr>rq_path_id := i\<rparr>) w s = (ok, w', s')" using run by simp
  show ?thesis
  proof (cases "http_caller verify r")
    case None
    then show ?thesis using h w by (auto simp: http_Auth_eq status_of_def)
  next
    case (Some u)
    then have "h (r\<lparr>rq_path_id := i, rq_user := Some u\<rparr>) w s = (ok, w', s')" using h by (simp add: http_Auth_eq)
    moreover from this have "status_of w' \<noteq> 401"
      using order_handlers_not_401 [OF handled(2) w, of "r\<lparr>rq_path_id := i, rq_user := Some u\<rparr>" s]
      by (auto simp: status_of_def split: option.split)
    ultimately show ?thesis using Some handled(2) by auto
  qed
next
  case (refused m c)
  then show ?thesis using run w by (auto simp: status_of_def split: option.split)
qed

section \<open>The middleware chain\<close>

lemma chain_Cons [simp]: "chain h [] = h" "chain h (mw # mws) = mw (chain h mws)"
  by (simp_all add: chain_def)

lemma recovery_returns: "fst (http_recovery h r w s)"
  by (auto simp: http_recovery_def served_def split: prod.split bool.split)

lemma NewMiddleware_eq:
  assumes "NewMiddleware cors gz cfg = Inr mw"
  obtains csrfMW corsMW compressMW where "csrf (mc_CORSAllowedOrigins cfg) = Inr csrfMW"
    "corsPolicy cors (mc_CORSAllowedOrigins cfg) (mc_CORSMaxAge cfg) = Inr corsMW"
    "mw = (\<lambda>h. http_logging (http_recovery (securityHeaders (mc_HSTSEnabled cfg) (mc_HSTSMaxAge cfg)
       (corsMW (csrfMW (bodyLimit (mc_MaxBodyBytes cfg) (compressMW h)))))))"
  using assms by (auto simp: NewMiddleware_def split: sum.splits)

lemma map_of_header_Set [simp]:
  "rw_status w = None \<Longrightarrow> map_of (rw_header (header_Set k v w)) x = (if x = k then Some v else map_of (rw_header w) x)"
proof -
  have "map_of (filter (\<lambda>(k', _). k' \<noteq> k) h) x = map_of h x" if "x \<noteq> k" for h :: "(string \<times> string) list"
    using that by (induction h) auto
  then show "rw_status w = None \<Longrightarrow> ?thesis" by (simp add: header_Set_def)
qed

text \<open>The writer the security headers leave to the next handler.\<close>

definition secured :: "bool \<Rightarrow> int \<Rightarrow> response_writer \<Rightarrow> response_writer" where
  "secured hsts age w =
     (let w2 = header_Set ''Content-Security-Policy'' (''frame-ancestors '' @ [CHR 0x27] @ ''none'' @ [CHR 0x27])
        (header_Set ''X-Content-Type-Options'' ''nosniff'' w) in
      if hsts then header_Set ''Strict-Transport-Security'' (''max-age='' @ itoa age @ ''; includeSubDomains'') w2 else w2)"

lemma securityHeaders_eq: "securityHeaders hsts age h r w s = h r (secured hsts age w) s"
  by (simp add: securityHeaders_def secured_def Let_def)

lemma secured_sel [simp]:
  assumes "rw_status w = None"
  shows "rw_status (secured hsts age w) = None"
    "map_of (rw_header (secured hsts age w)) ''X-Content-Type-Options'' = Some ''nosniff''"
  using assms by (simp_all add: secured_def Let_def)

text \<open>
  What the third-party middlewares document: \<open>cors\<close> answers preflight requests, which are \<open>OPTIONS\<close>, and lets every
  other request through after setting headers of its own; \<open>gzhttp\<close> runs the handler and keeps its status.
\<close>

definition cors_forwards :: "'s middleware \<Rightarrow> bool" where
  "cors_forwards m \<longleftrightarrow> (\<forall>h r w s. rq_method r \<noteq> ''OPTIONS'' \<longrightarrow> rw_status w = None \<longrightarrow>
     (\<exists>w1. rw_status w1 = None
       \<and> (\<forall>k. take 15 k \<noteq> ''Access-Control-'' \<and> k \<noteq> ''Vary'' \<longrightarrow> map_of (rw_header w1) k = map_of (rw_header w) k)
       \<and> m h r w s = h r w1 s))"

definition compress_forwards :: "'s middleware \<Rightarrow> bool" where
  "compress_forwards m \<longleftrightarrow> (\<forall>h r w s. case h r w s of (ok, w1, s1) \<Rightarrow>
     \<exists>w2. rw_status w2 = rw_status w1 \<and> m h r w s = (ok, w2, s1))"

lemma compress_forwardsD:
  assumes "compress_forwards m" "h r w s = (ok, w1, s1)"
  shows "\<exists>w2. rw_status w2 = rw_status w1 \<and> m h r w s = (ok, w2, s1)"
  using assms(1) [unfolded compress_forwards_def, THEN spec, THEN spec, THEN spec, THEN spec, of h r w s] assms(2) by simp

lemma chain_inside:
  assumes mw: "NewMiddleware cors gz cfg = Inr mw" and w: "rw_status w = None" "rq_method r \<noteq> ''OPTIONS''"
    and cors: "mc_CORSAllowedOrigins cfg = [] \<or> (\<forall>c m. cors c = Inr m \<longrightarrow> cors_forwards m)"
  obtains w1 compressMW where "rw_status w1 = None" "map_of (rw_header w1) ''X-Content-Type-Options'' = Some ''nosniff''"
    "gz (mc_CompressMinBytes cfg) = Inr compressMW"
    "mw h r w s = (if cross_origin_ok (mc_CORSAllowedOrigins cfg) r
       then http_recovery (\<lambda>r w s. bodyLimit (mc_MaxBodyBytes cfg) (compressMW h) r w1 s) r w s
       else (True, respondError 403 (Text ''cross-origin request rejected'') w1, s))"
proof -
  obtain csrfMW corsMW compressMW where m: "csrf (mc_CORSAllowedOrigins cfg) = Inr csrfMW"
    "corsPolicy cors (mc_CORSAllowedOrigins cfg) (mc_CORSMaxAge cfg) = Inr corsMW" "gz (mc_CompressMinBytes cfg) = Inr compressMW"
    "mw = (\<lambda>h. http_logging (http_recovery (securityHeaders (mc_HSTSEnabled cfg) (mc_HSTSMaxAge cfg)
       (corsMW (csrfMW (bodyLimit (mc_MaxBodyBytes cfg) (compressMW h)))))))"
    using mw by (auto simp: NewMiddleware_def compression_def split: sum.splits)
  let ?in = "csrfMW (bodyLimit (mc_MaxBodyBytes cfg) (compressMW h))"
  let ?w0 = "secured (mc_HSTSEnabled cfg) (mc_HSTSMaxAge cfg) (w\<lparr>rw_recorded := 200\<rparr>)"
  have w0: "rw_status ?w0 = None" "map_of (rw_header ?w0) ''X-Content-Type-Options'' = Some ''nosniff''" using w(1) by simp_all
  have "\<exists>w1. rw_status w1 = None \<and> map_of (rw_header w1) ''X-Content-Type-Options'' = Some ''nosniff''
      \<and> corsMW ?in r ?w0 s = ?in r w1 s"
  proof (cases "mc_CORSAllowedOrigins cfg = []")
    case True
    then show ?thesis using m(2) w0 by (auto simp: corsPolicy_def)
  next
    case False
    then have "cors_forwards corsMW" using m(2) cors by (auto simp: corsPolicy_def split: sum.splits)
    then obtain w1 where "rw_status w1 = None" "corsMW ?in r ?w0 s = ?in r w1 s"
      "\<forall>k. take 15 k \<noteq> ''Access-Control-'' \<and> k \<noteq> ''Vary'' \<longrightarrow> map_of (rw_header w1) k = map_of (rw_header ?w0) k"
      using w(2) w0(1) unfolding cors_forwards_def by meson
    then show ?thesis using w0(2) by (intro exI [of _ w1]) simp
  qed
  then obtain w1 where w1: "rw_status w1 = None" "map_of (rw_header w1) ''X-Content-Type-Options'' = Some ''nosniff''"
    "corsMW ?in r ?w0 s = ?in r w1 s" by blast
  have "?in r w1 s = (if cross_origin_ok (mc_CORSAllowedOrigins cfg) r
      then bodyLimit (mc_MaxBodyBytes cfg) (compressMW h) r w1 s
      else (True, respondError 403 (Text ''cross-origin request rejected'') w1, s))"
    using m(1) by (auto simp: csrf_def served_def split: option.splits)
  then have "mw h r w s = (if cross_origin_ok (mc_CORSAllowedOrigins cfg) r
       then http_recovery (\<lambda>r w s. bodyLimit (mc_MaxBodyBytes cfg) (compressMW h) r w1 s) r w s
       else (True, respondError 403 (Text ''cross-origin request rejected'') w1, s))"
    unfolding m(4) by (simp add: http_logging_def http_recovery_def securityHeaders_eq w1(3))
  then show thesis by (rule that [OF w1(1,2) m(3)])
qed

text \<open>A body above its limit is never decoded, and the routes that read one refuse it with 413.\<close>

definition limited :: "int \<Rightarrow> http_request \<Rightarrow> http_request" where
  "limited n r = r\<lparr>rq_body := (rq_body r)\<lparr>rb_limit := Some n\<rparr>\<rparr>"

definition oversized :: "int \<Rightarrow> request_body \<Rightarrow> bool" where
  "oversized n b \<longleftrightarrow> int (length (rb_bytes b)) > n"

lemma decode_oversized:
  assumes "oversized n b"
  shows "\<exists>e. decode_add (b\<lparr>rb_limit := Some n\<rparr>) = Inl e \<and> decode_update (b\<lparr>rb_limit := Some n\<rparr>) = Inl e
    \<and> decode_order (b\<lparr>rb_limit := Some n\<rparr>) = Inl e \<and> (rb_fault b = None \<longrightarrow> e = MaxBytesError n)"
  using assms
  by (cases "rb_fault b") (simp_all add: oversized_def decode_add_def decode_update_def decode_order_def decodeBody_def)

lemma respondDecodeError_status:
  assumes "rw_status w = None"
  shows "rw_status (respondDecodeError e w) = Some (case e of MaxBytesError n \<Rightarrow> 413 | _ \<Rightarrow> 400)"
  using assms by (cases e) (simp_all add: respondDecodeError_def mapDecodeError_def)

text \<open>The requests whose body a handler reads.\<close>

definition body_is_read :: "(string \<Rightarrow> go_error + uuid) \<Rightarrow> http_request \<Rightarrow> bool" where
  "body_is_read verify r \<longleftrightarrow> rq_content_length r \<noteq> 0 \<and> rb_fault (rq_body r) = None
     \<and> (rq_method r = ''POST'' \<and> rq_path r = [''v1'', ''products'']
       \<or> rq_method r = ''PUT'' \<and> (\<exists>i. rq_path r = [''v1'', ''products'', i] \<and> i \<noteq> '''' \<and> is_ok (uuid_Parse i))
       \<or> rq_method r = ''POST'' \<and> rq_path r = [''v1'', ''orders''] \<and> http_caller verify r \<noteq> None)"

lemma is_okD: "is_ok r \<Longrightarrow> \<exists>x. r = Inr x"
  by (cases r) simp_all

lemma oversized_handlers:
  assumes "rw_status w = None" "oversized n (rq_body r)"
    and "h \<in> {http_Add P, http_Update P, http_CreateOrder P}"
  shows "\<exists>w' c. h (r\<lparr>rq_body := (rq_body r)\<lparr>rb_limit := Some n\<rparr>\<rparr>) w s = (True, w', s) \<and> rw_status w' = Some c \<and> 400 \<le> c"
proof -
  note e = decode_oversized [OF assms(2)]
  show ?thesis
    using assms(1,3) e respondDecodeError_status [OF assms(1)]
    by (auto simp: http_handler_defs http_internalError_def split: option.split sum.split decode_error.split)
qed

lemma oversized_mux:
  assumes w: "rw_status w = None" and big: "oversized n (rq_body r)" and meth: "rq_method r \<in> {''POST'', ''PUT'', ''PATCH''}"
  defines "r' \<equiv> r\<lparr>rq_body := (rq_body r)\<lparr>rb_limit := Some n\<rparr>\<rparr>"
  shows "\<exists>w' c. NewMux P (http_Auth verify) r' w s = (True, w', s) \<and> rw_status w' = Some c \<and> 400 \<le> c
    \<and> (body_is_read verify r \<longrightarrow> c = 413)"
proof -
  have "\<exists>w' c. NewMux P (http_Auth verify) r' w s = (True, w', s) \<and> rw_status w' = Some c \<and> 400 \<le> c"
  proof (cases rule: serve_mux_cases [of "api_routes P (http_Auth verify)" r' w s])
    case (route rt i)
    then have h: "rt_handler rt \<in> {http_Add P, http_Update P, http_Auth verify (http_CreateOrder P)}"
      using meth by (auto simp: api_routes_def r'_def match_method_def)
    have eq: "NewMux P (http_Auth verify) r' w s = rt_handler rt (r'\<lparr>rq_path_id := i\<rparr>) w s" using route(4) by (simp add: NewMux_def)
    have "\<exists>w' c. h (r'\<lparr>rq_path_id := i, rq_user := u\<rparr>) w s = (True, w', s) \<and> rw_status w' = Some c \<and> 400 \<le> c"
      if "h \<in> {http_Add P, http_Update P, http_CreateOrder P}" for h u
    proof -
      have "r'\<lparr>rq_path_id := i, rq_user := u\<rparr> = r\<lparr>rq_path_id := i, rq_user := u, rq_body := (rq_body r)\<lparr>rb_limit := Some n\<rparr>\<rparr>"
        by (simp add: r'_def)
      then show ?thesis
        using oversized_handlers [OF w, of n "r\<lparr>rq_path_id := i, rq_user := u\<rparr>" h P s] big that by simp
    qed
    note direct = this [of _ "rq_user r'"] and authed = this [of "http_CreateOrder P"]
    show ?thesis
    proof (cases "rt_handler rt = http_Auth verify (http_CreateOrder P)")
      case True
      then show ?thesis using eq authed w
        by (cases "http_caller verify r'") (auto simp: http_Auth_eq)
    next
      case False
      then show ?thesis using eq direct [of "rt_handler rt"] h by (auto simp: r'_def)
    qed
  next
    case (refused m c)
    then show ?thesis using w by (auto simp: NewMux_def)
  qed
  moreover have "rw_status (fst (snd (NewMux P (http_Auth verify) r' w s))) = Some 413" if b: "body_is_read verify r"
  proof -
    have e: "decode_add ((rq_body r)\<lparr>rb_limit := Some n\<rparr>) = Inl (MaxBytesError n)"
      "decode_update ((rq_body r)\<lparr>rb_limit := Some n\<rparr>) = Inl (MaxBytesError n)"
      "decode_order ((rq_body r)\<lparr>rb_limit := Some n\<rparr>) = Inl (MaxBytesError n)"
      using decode_oversized [OF big] b by (auto simp: body_is_read_def)
    note rs = respondDecodeError_status [OF w, of "MaxBytesError n"]
    consider (add) "rq_method r = ''POST''" "rq_path r = [''v1'', ''products'']"
      | (update) i u where "rq_method r = ''PUT''" "rq_path r = [''v1'', ''products'', i]" "i \<noteq> ''''" "uuid_Parse i = Inr u"
      | (order) u where "rq_method r = ''POST''" "rq_path r = [''v1'', ''orders'']" "http_caller verify r = Some u"
      using b by (fastforce simp: body_is_read_def dest: is_okD)
    then show ?thesis
    proof cases
      case add
      then show ?thesis using b route_products(1) [of r' P "http_Auth verify" w s] e rs
        by (simp add: r'_def body_is_read_def http_Add_def served_def)
    next
      case update
      then show ?thesis using b route_product(1) [of r' i P "http_Auth verify" w s] e rs
        by (simp add: r'_def body_is_read_def http_Update_def served_def)
    next
      case order
      then have "http_caller verify r' = Some u" by (simp add: r'_def http_caller_def)
      then show ?thesis using order b route_orders(1) [of r' P "http_Auth verify" w s] e rs
        by (simp add: r'_def body_is_read_def http_CreateOrder_def served_def http_Auth_eq http_callerID_def auth_UserID_def)
    qed
  qed
  ultimately show ?thesis by auto
qed

text \<open>
  C37: the chain in front of the handlers. With any handler behind it, one that panics included, and
  whatever the third-party middlewares do, the chain returns. When the CORS library lets requests other than
  preflights through, as it documents, or there is none because no origin is allowed, a state-changing request
  that a browser marks as coming from a site not allowed is refused with 403 and the security headers, and no handler
  runs; any other \<open>POST\<close>, \<open>PUT\<close> or \<open>PATCH\<close> request reaches the handler, whichever it is, with its body under the
  configured limit. When moreover the compression library keeps the status of what it wraps, no \<open>POST\<close>, \<open>PUT\<close> or
  \<open>PATCH\<close> request of the API whose body exceeds the limit succeeds or changes anything, on any path; and one whose
  body would be read (a product created or updated, an order placed with a verified token) is answered with 413.
\<close>

theorem http_chain_guards:
  assumes mw: "NewMiddleware cors gz cfg = Inr mw" and w: "rw_status w = None"
  shows "fst (mw h r w s)
    \<and> ((mc_CORSAllowedOrigins cfg = [] \<or> (\<forall>c m. cors c = Inr m \<longrightarrow> cors_forwards m))
        \<and> \<not> cross_origin_ok (mc_CORSAllowedOrigins cfg) r \<longrightarrow>
        (\<exists>w'. mw h r w s = (True, w', s) \<and> status_of w' = 403
          \<and> map_of (rw_header w') ''X-Content-Type-Options'' = Some ''nosniff''))
    \<and> ((mc_CORSAllowedOrigins cfg = [] \<or> (\<forall>c m. cors c = Inr m \<longrightarrow> cors_forwards m))
        \<and> cross_origin_ok (mc_CORSAllowedOrigins cfg) r \<and> rq_method r \<in> {''POST'', ''PUT'', ''PATCH''} \<longrightarrow>
        (\<exists>w1 compressMW. rw_status w1 = None \<and> map_of (rw_header w1) ''X-Content-Type-Options'' = Some ''nosniff''
          \<and> gz (mc_CompressMinBytes cfg) = Inr compressMW
          \<and> mw h r w s = http_recovery (compressMW h) (limited (mc_MaxBodyBytes cfg) r) w1 s))
    \<and> ((mc_CORSAllowedOrigins cfg = [] \<or> (\<forall>c m. cors c = Inr m \<longrightarrow> cors_forwards m))
        \<and> (\<forall>n m. gz n = Inr m \<longrightarrow> compress_forwards m)
        \<and> rq_method r \<in> {''POST'', ''PUT'', ''PATCH''} \<and> oversized (mc_MaxBodyBytes cfg) (rq_body r) \<longrightarrow>
        (\<exists>w'. mw (NewMux P (http_Auth verify)) r w s = (True, w', s) \<and> 400 \<le> status_of w'
          \<and> (cross_origin_ok (mc_CORSAllowedOrigins cfg) r \<and> body_is_read verify r \<longrightarrow> status_of w' = 413)))"
proof (intro conjI impI)
  show "fst (mw h r w s)" using NewMiddleware_eq [OF mw] by (metis http_logging_def recovery_returns)
  show "\<exists>w'. mw h r w s = (True, w', s) \<and> status_of w' = 403
      \<and> map_of (rw_header w') ''X-Content-Type-Options'' = Some ''nosniff''"
    if x: "(mc_CORSAllowedOrigins cfg = [] \<or> (\<forall>c m. cors c = Inr m \<longrightarrow> cors_forwards m))
      \<and> \<not> cross_origin_ok (mc_CORSAllowedOrigins cfg) r"
  proof -
    have "rq_method r \<noteq> ''OPTIONS''" using x by (auto simp: cross_origin_ok_def)
    from chain_inside [OF mw w this x [THEN conjunct1], of h s] obtain w1 where "rw_status w1 = None"
      "map_of (rw_header w1) ''X-Content-Type-Options'' = Some ''nosniff''"
      "mw h r w s = (True, respondError 403 (Text ''cross-origin request rejected'') w1, s)"
      using x by (metis (lifting))
    then show ?thesis by (auto simp: status_of_def respondError_def respond_sel)
  qed
  show "\<exists>w1 compressMW. rw_status w1 = None \<and> map_of (rw_header w1) ''X-Content-Type-Options'' = Some ''nosniff''
      \<and> gz (mc_CompressMinBytes cfg) = Inr compressMW
      \<and> mw h r w s = http_recovery (compressMW h) (limited (mc_MaxBodyBytes cfg) r) w1 s"
    if x: "(mc_CORSAllowedOrigins cfg = [] \<or> (\<forall>c m. cors c = Inr m \<longrightarrow> cors_forwards m))
      \<and> cross_origin_ok (mc_CORSAllowedOrigins cfg) r \<and> rq_method r \<in> {''POST'', ''PUT'', ''PATCH''}"
  proof -
    have meth: "rq_method r \<noteq> ''OPTIONS''" using x by auto
    obtain w1 cmp where c: "rw_status w1 = None" "map_of (rw_header w1) ''X-Content-Type-Options'' = Some ''nosniff''"
      "gz (mc_CompressMinBytes cfg) = Inr cmp"
      "mw h r w s = http_recovery (\<lambda>r w s. bodyLimit (mc_MaxBodyBytes cfg) (cmp h) r w1 s) r w s"
      by (rule chain_inside [OF mw w meth x [THEN conjunct1], of h s]) (use x in simp)
    have "bodyLimit (mc_MaxBodyBytes cfg) (cmp h) r w1 s = cmp h (limited (mc_MaxBodyBytes cfg) r) w1 s"
      using x by (auto simp: bodyLimit_def limited_def)
    then show ?thesis using c by (intro exI [of _ w1] exI [of _ cmp]) (simp add: http_recovery_def)
  qed
  show "\<exists>w'. mw (NewMux P (http_Auth verify)) r w s = (True, w', s) \<and> 400 \<le> status_of w'
      \<and> (cross_origin_ok (mc_CORSAllowedOrigins cfg) r \<and> body_is_read verify r \<longrightarrow> status_of w' = 413)"
    if x: "(mc_CORSAllowedOrigins cfg = [] \<or> (\<forall>c m. cors c = Inr m \<longrightarrow> cors_forwards m))
      \<and> (\<forall>n m. gz n = Inr m \<longrightarrow> compress_forwards m)
      \<and> rq_method r \<in> {''POST'', ''PUT'', ''PATCH''} \<and> oversized (mc_MaxBodyBytes cfg) (rq_body r)"
  proof -
    let ?mux = "NewMux P (http_Auth verify)"
    let ?r = "r\<lparr>rq_body := (rq_body r)\<lparr>rb_limit := Some (mc_MaxBodyBytes cfg)\<rparr>\<rparr>"
    have "rq_method r \<noteq> ''OPTIONS''" using x by auto
    from chain_inside [OF mw w this x [THEN conjunct1], of ?mux s] obtain w1 cmp where c: "rw_status w1 = None"
      "gz (mc_CompressMinBytes cfg) = Inr cmp"
      "mw ?mux r w s = (if cross_origin_ok (mc_CORSAllowedOrigins cfg) r
         then http_recovery (\<lambda>r w s. bodyLimit (mc_MaxBodyBytes cfg) (cmp ?mux) r w1 s) r w s
         else (True, respondError 403 (Text ''cross-origin request rejected'') w1, s))" by metis
    obtain w2 k where m: "?mux ?r w1 s = (True, w2, s)" "rw_status w2 = Some k" "400 \<le> k" "body_is_read verify r \<longrightarrow> k = 413"
      using oversized_mux [OF c(1), of "mc_MaxBodyBytes cfg" r P verify s] x by (metis (lifting))
    have "compress_forwards cmp" using x c(2) by blast
    from compress_forwardsD [OF this, of ?mux ?r w1 s, OF m(1)] obtain w3 where w3: "rw_status w3 = Some k" "cmp ?mux ?r w1 s = (True, w3, s)"
      using m(2) by auto
    have "bodyLimit (mc_MaxBodyBytes cfg) (cmp ?mux) r w1 s = (True, w3, s)" using x w3(2) by (auto simp: bodyLimit_def)
    then have "mw ?mux r w s = (if cross_origin_ok (mc_CORSAllowedOrigins cfg) r then (True, w3, s)
        else (True, respondError 403 (Text ''cross-origin request rejected'') w1, s))"
      using c(3) by (simp add: http_recovery_def)
    then show ?thesis using w3(1) m(3,4) c(1) by (auto simp: status_of_def)
  qed
qed

section \<open>Samples\<close>

lemma fresh_status: "rw_status fresh_writer = None" "rw_header fresh_writer = []" "rw_body fresh_writer = []"
  by (simp_all add: fresh_writer_def)

theorem http_error_changes_nothing_witness:
  "same_rows sample_db (tables (sv_conn (snd (snd (NewMux sample_processor (http_Auth sample_verify)
     (sample_http ''GET'' [''v1'', ''products''] [] '''') fresh_writer sample_svc)))))"
proof -
  obtain ok w' sv' where run: "NewMux sample_processor (http_Auth sample_verify)
     (sample_http ''GET'' [''v1'', ''products''] [] '''') fresh_writer sample_svc = (ok, w', sv')"
    by (metis prod.collapse)
  then show ?thesis
    using http_error_changes_nothing [OF run fresh_status(1)] by (simp add: sample_http_def sample_svc_facts)
qed

text \<open>One request for the orders, with the token of user 1 and without.\<close>

theorem http_orders_need_token_witness:
  "status_of (fst (snd (NewMux sample_processor (http_Auth sample_verify)
      (sample_http ''GET'' [''v1'', ''orders''] [(''Authorization'', ''bearer tok'')] '''') fresh_writer sample_svc))) \<noteq> 401
   \<and> snd (snd (NewMux sample_processor (http_Auth sample_verify)
      (sample_http ''GET'' [''v1'', ''orders''] [] '''') fresh_writer sample_svc)) = sample_svc"
proof
  let ?run = "\<lambda>h. NewMux sample_processor (http_Auth sample_verify) (sample_http ''GET'' [''v1'', ''orders''] h '''') fresh_writer sample_svc"
  have path: "rq_path (sample_http ''GET'' [''v1'', ''orders''] h '''') = ''v1'' # ''orders'' # []" for h
    by (simp add: sample_http_def)
  have run: "?run h = (fst (?run h), fst (snd (?run h)), snd (snd (?run h)))" for h by simp
  have "http_caller sample_verify (sample_http ''GET'' [''v1'', ''orders''] [(''Authorization'', ''bearer tok'')] '''') = Some 1"
    by (simp add: http_caller_def get_first_def sample_http_def sample_bearer sample_verify_def)
  then show "status_of (fst (snd (?run [(''Authorization'', ''bearer tok'')]))) \<noteq> 401"
    using http_orders_need_token [OF path fresh_status(1) run, of "[(''Authorization'', ''bearer tok'')]"] by simp
  have "BearerToken '''' = None" by code_simp
  then have "http_caller sample_verify (sample_http ''GET'' [''v1'', ''orders''] [] '''') = None"
    by (simp add: http_caller_def get_first_def sample_http_def)
  then show "snd (snd (?run [])) = sample_svc"
    using http_orders_need_token [OF path fresh_status(1) run, of "[]"] by simp
qed

text \<open>A chain around a handler that panics: a foreign form post does not reach it, another call ends in 500.\<close>

definition sample_middleware :: middleware_cfg where
  "sample_middleware = \<lparr>mc_MaxBodyBytes = 1048576, mc_CompressMinBytes = 1024, mc_CORSAllowedOrigins = [],
     mc_CORSMaxAge = 600, mc_HSTSEnabled = True, mc_HSTSMaxAge = 31536000\<rparr>"

definition sample_chain :: "nat middleware" where
  "sample_chain = projr (NewMiddleware (\<lambda>_. Inl ErrNotFound) (\<lambda>_. Inr (\<lambda>h. h)) sample_middleware)"

lemma sample_forwards: "cors_forwards (\<lambda>h. h)" "compress_forwards (\<lambda>h. h)"
  by (auto simp: cors_forwards_def compress_forwards_def split: prod.split)

theorem http_chain_guards_witness:
  "fst (sample_chain (\<lambda>r w s. (False, w, s + 1)) (sample_http ''GET'' [''v1''] [] '''') fresh_writer 7)
   \<and> snd (snd (sample_chain (\<lambda>r w s. (False, w, s + 1))
        (sample_http ''POST'' [''v1''] [(''Sec-Fetch-Site'', ''cross-site'')] '''') fresh_writer 7)) = 7
   \<and> (\<forall>P. \<exists>w'. sample_chain (NewMux P (http_Auth (\<lambda>t. Inl ErrInvalidToken)))
        ((sample_http ''POST'' [''v1'', ''products''] [] '''')\<lparr>rq_content_length := 1048577,
           rq_body := \<lparr>rb_bytes = replicate 1048577 CHR '' '', rb_limit = None, rb_fault = None\<rparr>\<rparr>) fresh_writer 7 = (True, w', 7)
      \<and> status_of w' = 413)"
proof -
  have mw: "NewMiddleware (\<lambda>_. Inl ErrNotFound) (\<lambda>_. Inr (\<lambda>h. h)) sample_middleware = Inr sample_chain"
    by (simp add: sample_chain_def NewMiddleware_def sample_middleware_def compression_def csrf_def corsPolicy_def)
  have bad: "\<not> cross_origin_ok [] (sample_http ''POST'' [''v1''] [(''Sec-Fetch-Site'', ''cross-site'')] '''')"
    by (simp add: cross_origin_ok_def sample_http_def get_first_def)
  have origins: "mc_CORSAllowedOrigins sample_middleware = []" "mc_MaxBodyBytes sample_middleware = 1048576"
    by (simp_all add: sample_middleware_def)
  let ?big = "(sample_http ''POST'' [''v1'', ''products''] [] '''')\<lparr>rq_content_length := 1048577,
           rq_body := \<lparr>rb_bytes = replicate 1048577 CHR '' '', rb_limit = None, rb_fault = None\<rparr>\<rparr>"
  have big: "rq_method ?big \<in> {''POST'', ''PUT'', ''PATCH''}" "oversized 1048576 (rq_body ?big)"
    "cross_origin_ok [] ?big" "body_is_read (\<lambda>t. Inl ErrInvalidToken) ?big"
    by (simp_all add: oversized_def cross_origin_ok_def body_is_read_def sample_http_def get_first_def)
  note guards = http_chain_guards [OF mw fresh_status(1), unfolded origins]
  have gz: "\<forall>n m. (\<lambda>_. Inr (\<lambda>h. h)) n = Inr m \<longrightarrow> compress_forwards m" using sample_forwards(2) by auto
  have 1: "fst (sample_chain (\<lambda>r w s. (False, w, s + 1)) (sample_http ''GET'' [''v1''] [] '''') fresh_writer 7)"
    using guards by blast
  have 2: "snd (snd (sample_chain (\<lambda>r w s. (False, w, s + 1))
        (sample_http ''POST'' [''v1''] [(''Sec-Fetch-Site'', ''cross-site'')] '''') fresh_writer 7)) = 7"
    using guards [THEN conjunct2, THEN conjunct1, of "sample_http ''POST'' [''v1''] [(''Sec-Fetch-Site'', ''cross-site'')] ''''"
        "\<lambda>r w s. (False, w, s + 1)" 7] bad by auto
  have 3: "\<exists>w'. sample_chain (NewMux P (http_Auth (\<lambda>t. Inl ErrInvalidToken))) ?big fresh_writer 7 = (True, w', 7) \<and> status_of w' = 413" for P
    using guards [THEN conjunct2, THEN conjunct2, THEN conjunct2, of ?big P "\<lambda>t. Inl ErrInvalidToken" 7] big gz by blast
  show ?thesis using 1 2 3 by blast
qed

end
