(* ===== verification/Transports.thy ===== *)
theory Transports
  imports Http_Calls
begin

text \<open>
  The two transports side by side: which gRPC call an HTTP request stands for, and that both do the
  same to the service and answer alike.
\<close>

section \<open>Requests and replies of the same call\<close>

definition money_of_input :: "moneyInput \<Rightarrow> money_proto" where
  "money_of_input m = \<lparr>mp_minor_amount = mi_MinorAmount m, mp_currency = mi_Currency m\<rparr>"

definition limit_of :: "string \<Rightarrow> int option" where
  "limit_of raw = (if raw = '''' then Some 0 else atoi raw)"

definition grpc_request_of :: "http_request \<Rightarrow> request option" where
  "grpc_request_of r =
     (if rq_path r = [''v1'', ''products''] \<and> rq_method r = ''POST'' \<and> rq_content_length r \<noteq> 0 then
        (case decode_add (rq_body r) of Inl _ \<Rightarrow> None
         | Inr inp \<Rightarrow> Some (CreateProductRequest (ai_Name inp) (Some (money_of_input (ai_Price inp))) (ai_Stock inp)))
      else if rq_path r = [''v1'', ''products''] \<and> rq_method r = ''GET'' then
        map_option (ListProductsRequest (get_first (rq_query r) ''cursor'')) (limit_of (get_first (rq_query r) ''limit''))
      else if rq_path r = [''v1'', ''orders''] \<and> rq_method r = ''POST'' \<and> rq_content_length r \<noteq> 0 then
        (case decode_order (rq_body r) of Inl _ \<Rightarrow> None
         | Inr inp \<Rightarrow> Some (CreateOrderRequest (ci_ProductID inp) (ci_Quantity inp)))
      else if rq_path r = [''v1'', ''orders''] \<and> rq_method r = ''GET'' then
        map_option (ListOrdersRequest (get_first (rq_query r) ''cursor'')) (limit_of (get_first (rq_query r) ''limit''))
      else case rq_path r of
        [a, b, i] \<Rightarrow>
          if a \<noteq> ''v1'' \<or> i = '''' then None
          else if b = ''products'' \<and> rq_method r = ''GET'' then Some (GetProductRequest i)
          else if b = ''products'' \<and> rq_method r = ''DELETE'' then Some (DeleteProductRequest i)
          else if b = ''products'' \<and> rq_method r = ''PUT'' \<and> rq_content_length r \<noteq> 0 then
            (case decode_update (rq_body r) of Inl _ \<Rightarrow> None
             | Inr inp \<Rightarrow> Some (UpdateProductRequest i (ui_Name inp) (Some (money_of_input (ui_Price inp)))))
          else if b = ''orders'' \<and> rq_method r = ''GET'' then Some (GetOrderRequest i)
          else None
      | _ \<Rightarrow> None)"

definition metadata_key :: "ctx \<Rightarrow> string" where
  "metadata_key cx =
     (case cx_metadata cx of None \<Rightarrow> ''''
      | Some md \<Rightarrow> (case md_Get md ''idempotency-key'' of [] \<Rightarrow> '''' | v # _ \<Rightarrow> v))"

definition proto_money_json :: "money_proto \<Rightarrow> json" where
  "proto_money_json m = JObj [(''minorAmount'', JInt (mp_minor_amount m)), (''currency'', JStr (mp_currency m))]"

definition proto_product_json :: "product_proto \<Rightarrow> json" where
  "proto_product_json p = JObj [(''id'', JStr (pp_id p)), (''name'', JStr (pp_name p)), (''stock'', JInt (pp_stock p)),
     (''price'', proto_money_json (pp_price p))]"

definition proto_time :: "timestamp_proto \<Rightarrow> timestamp" where
  "proto_time t = tp_seconds t * 1000000 + tp_nanos t div 1000"

definition proto_order_json :: "order_proto \<Rightarrow> json" where
  "proto_order_json x = JObj [(''id'', JStr (op_id x)), (''productId'', JStr (op_product_id x)),
     (''quantity'', JInt (op_quantity x)), (''unitPrice'', proto_money_json (op_unit_price x)),
     (''createdAt'', JTime (proto_time (op_created_at x)))]"

fun http_of_response :: "response \<Rightarrow> nat \<times> http_body" where
  "http_of_response (CreateProductResponse p) = (201, Json (proto_product_json p))"
| "http_of_response (GetProductResponse p) = (200, Json (proto_product_json p))"
| "http_of_response (ListProductsResponse ps c) = (200, Json (page_json (map proto_product_json ps) c))"
| "http_of_response (UpdateProductResponse p) = (200, Json (proto_product_json p))"
| "http_of_response DeleteProductResponse = (200, MessageResponse (Text ''product deleted''))"
| "http_of_response (CreateOrderResponse x) = (201, Json (proto_order_json x))"
| "http_of_response (GetOrderResponse x) = (200, Json (proto_order_json x))"
| "http_of_response (ListOrdersResponse xs c) = (200, Json (page_json (map proto_order_json xs) c))"

text \<open>Two replies of the same outcome.\<close>

definition same_reply :: "response_writer \<Rightarrow> response_writer \<Rightarrow> rpc \<Rightarrow> bool" where
  "same_reply w w' g \<longleftrightarrow>
     (case rp_reply g of
        Inl st \<Rightarrow> status_of w' \<ge> 400 \<and> (st_code st = Unauthenticated \<longleftrightarrow> status_of w' = 401)
      | Inr resp \<Rightarrow>
          (case http_of_response resp of
             (c, b) \<Rightarrow> status_of w' = c
               \<and> rw_body w' = rw_body w @ [if marshalable b then b else PlainText msgEncodeFailed]))
     \<and> (map_of (rp_header g) ''idempotency-replayed'' = Some ''true''
          \<longleftrightarrow> map_of (rw_header w') ''Idempotency-Replayed'' = Some ''true'')"

definition same_outcome ::
  "response_writer \<Rightarrow> bool \<times> response_writer \<times> 's \<Rightarrow> rpc outcome \<times> 's \<Rightarrow> bool" where
  "same_outcome w a b \<longleftrightarrow>
     fst a \<and> snd (snd a) = snd b \<and> (\<exists>g. fst b = Returned g \<and> same_reply w (fst (snd a)) g)"

text \<open>A response of which nothing is sent and no replay is marked yet.\<close>

definition unsent :: "response_writer \<Rightarrow> bool" where
  "unsent w \<longleftrightarrow> rw_status w = None \<and> map_of (rw_header w) ''Idempotency-Replayed'' = None"

lemma unsentD [simp]:
  assumes "unsent w"
  shows "rw_status w = None" "map_of (rw_header w) ''Idempotency-Replayed'' = None"
    "map_of (rw_header (respond c b w)) ''Idempotency-Replayed'' = None"
    "map_of (rw_header (respondError c m w)) ''Idempotency-Replayed'' = None"
  using assms by (simp_all add: unsent_def respond_sel respondError_def)

lemma payload_json [simp]:
  "product_json (toProductResponse p) = proto_product_json (toProductProto p)"
  "order_json (toOrderResponse x) = proto_order_json (toOrderProto x)"
  "order_json (toCreateOrderResponse x) = proto_order_json (toOrderProto x)"
proof -
  have t: "proto_time (timestamppb_New t) = t" for t
    by (simp add: proto_time_def timestamppb_New_def)
  show "product_json (toProductResponse p) = proto_product_json (toProductProto p)"
    by (simp add: product_json_def toProductResponse_def proto_product_json_def toProductProto_def money_json_def
        proto_money_json_def toMoneyDTO_def)
  show "order_json (toOrderResponse x) = proto_order_json (toOrderProto x)"
    "order_json (toCreateOrderResponse x) = proto_order_json (toOrderProto x)"
    by (simp_all add: order_json_def toOrderResponse_def toCreateOrderResponse_def proto_order_json_def toOrderProto_def
        money_json_def proto_money_json_def toMoneyDTO_def t)
qed

lemma page_payload_json [simp]:
  "products_page_json (toProductsPage pg) = page_json (map proto_product_json (map toProductProto (pp_Items pg))) (product_NextCursor pg)"
  "orders_page_json (toOrdersPage opg) = page_json (map proto_order_json (map toOrderProto (op_Items opg))) (order_NextCursor opg)"
  by (simp_all add: products_page_json_def toProductsPage_def orders_page_json_def toOrdersPage_def comp_def)

section \<open>Handler by handler\<close>

lemma toStatus_cases: "\<exists>st. toStatus e = (Inl st :: status + 'a) \<and> st_code st \<noteq> Unauthenticated"
  by (simp add: toStatus_def status_Error_def)

lemma same_outcome_refused:
  assumes "unsent w" "c \<ge> 400" "c \<noteq> 401" "k \<noteq> Unauthenticated"
  shows "same_outcome w (served (respondError c m w) s) (reply (status_Error k m') s)"
  using assms by (simp add: same_outcome_def served_def reply_def status_Error_def same_reply_def status_of_def)

lemma same_outcome_failed:
  assumes "unsent w" "c \<ge> 400" "c \<noteq> 401"
  shows "same_outcome w (served (respondError c m w) s) (reply (toStatus e) s)"
proof -
  obtain st where "toStatus e = (Inl st :: status + response)" "st_code st \<noteq> Unauthenticated"
    using toStatus_cases [of e, where 'a = response] by blast
  then show ?thesis
    using assms by (simp add: same_outcome_def served_def reply_def same_reply_def status_of_def)
qed

lemma same_outcome_server:
  assumes "unsent w"
  shows "same_outcome w (served (respondServerError e' w) s) (reply (toStatus e) s)"
  unfolding respondServerError_def http_internalError_def
  by (auto intro: same_outcome_failed [OF assms])

lemma same_outcome_ok:
  assumes "unsent w" "http_of_response resp = (c, b)"
  shows "same_outcome w (served (respond c b w) s) (reply (Inr resp) s)"
  using assms by (simp add: same_outcome_def served_def reply_def same_reply_def status_of_def respond_sel)

lemmas same_outcome_intros = same_outcome_refused same_outcome_failed same_outcome_server same_outcome_ok

lemma same_GetProduct:
  "unsent w \<Longrightarrow> same_outcome w (http_GetByID P r w s) (GetProduct P (rq_path_id r) s)"
  by (auto simp: http_GetByID_def GetProduct_def intro!: same_outcome_intros split: sum.split prod.split)

lemma same_DeleteProduct:
  "unsent w \<Longrightarrow> same_outcome w (http_Delete P r w s) (DeleteProduct P (rq_path_id r) s)"
  by (auto simp: http_Delete_def DeleteProduct_def intro!: same_outcome_intros split: sum.split prod.split)

lemma toMoney_input: "toDomainMoney (Some (money_of_input m)) = toMoney m"
  by (simp add: toDomainMoney_def money_of_input_def toMoney_def)

lemma same_CreateProduct:
  "unsent w \<Longrightarrow> rq_content_length r \<noteq> 0 \<Longrightarrow> decode_add (rq_body r) = Inr inp \<Longrightarrow>
     same_outcome w (http_Add P r w s)
       (CreateProduct P (ai_Name inp) (Some (money_of_input (ai_Price inp))) (ai_Stock inp) s)"
  by (auto simp: http_Add_def CreateProduct_def toMoney_input Let_def intro!: same_outcome_intros
      split: sum.split prod.split option.split)

lemma same_UpdateProduct:
  "unsent w \<Longrightarrow> rq_content_length r \<noteq> 0 \<Longrightarrow> decode_update (rq_body r) = Inr inp \<Longrightarrow>
     same_outcome w (http_Update P r w s)
       (UpdateProduct P (rq_path_id r) (ui_Name inp) (Some (money_of_input (ui_Price inp))) s)"
  by (auto simp: http_Update_def UpdateProduct_def toMoney_input Let_def intro!: same_outcome_intros
      split: sum.split prod.split option.split)

lemma parseLimit_of: "limit_of raw = Some n \<Longrightarrow> parseLimit raw = Inr (NormalizePageSize n)"
  by (auto simp: limit_of_def parseLimit_def NormalizePageSize_def split: if_splits)

lemma same_ListProducts:
  "unsent w \<Longrightarrow> limit_of (get_first (rq_query r) ''limit'') = Some n \<Longrightarrow>
     same_outcome w (http_Get P r w s) (ListProducts P (get_first (rq_query r) ''cursor'') n s)"
  by (auto simp: http_Get_def ListProducts_def parseLimit_of intro!: same_outcome_intros split: sum.split prod.split)

lemma callers:
  "rq_user r = Some u \<Longrightarrow> http_callerID r w = Inr u" "cx_user cx = Some u \<Longrightarrow> callerID cx = Inr u"
  by (simp_all add: http_callerID_def callerID_def auth_UserID_def)

lemma same_ListOrders:
  "unsent w \<Longrightarrow> limit_of (get_first (rq_query r) ''limit'') = Some n \<Longrightarrow> rq_user r = Some u \<Longrightarrow> cx_user cx = Some u \<Longrightarrow>
     same_outcome w (http_ListOrders P r w s) (ListOrders P cx (get_first (rq_query r) ''cursor'') n s)"
  by (auto simp: http_ListOrders_def ListOrders_def parseLimit_of callers intro!: same_outcome_intros
      split: sum.split prod.split)

lemma same_GetOrder:
  "unsent w \<Longrightarrow> rq_user r = Some u \<Longrightarrow> cx_user cx = Some u \<Longrightarrow>
     same_outcome w (http_GetOrder P r w s) (GetOrder P cx (rq_path_id r) s)"
  by (auto simp: http_GetOrder_def GetOrder_def callers intro!: same_outcome_intros split: sum.split prod.split)

lemma same_key:
  assumes "get_first (rq_header r) ''Idempotency-Key'' = metadata_key cx"
  shows "(\<exists>e m. idempotencyFromHeader r = Inl e \<and> idempotencyFromMetadata cx = status_Error InvalidArgument m)
    \<or> (\<exists>k. idempotencyFromHeader r = Inr k \<and> idempotencyFromMetadata cx = Inr k)"
  using assms
  by (auto simp: idempotencyFromHeader_def idempotencyFromMetadata_def metadata_key_def headerIdempotencyKey_def
      metaIdempotencyKey_def Let_def split: option.splits list.splits)

lemma same_CreateOrder:
  assumes w: "unsent w" and u: "rq_user r = Some u" "cx_user cx = Some u"
    and key: "get_first (rq_header r) ''Idempotency-Key'' = metadata_key cx"
    and body: "rq_content_length r \<noteq> 0" "decode_order (rq_body r) = Inr inp"
  shows "same_outcome w (http_CreateOrder P r w s) (CreateOrder P cx (ci_ProductID inp) (ci_Quantity inp) s)"
proof -
  have placed: "same_outcome w
      (served (respond 201 (Json (proto_order_json (toOrderProto x)))
         (if b then header_Set headerIdempotencyReplayed ''true'' (header_Set ''Location'' l w) else header_Set ''Location'' l w)) s1)
      (Returned \<lparr>rp_header = (if b then [(metaIdempotencyReplayed, ''true'')] else []),
         rp_reply = Inr (CreateOrderResponse (toOrderProto x))\<rparr>, s1)" for x b l s1
    using w by (auto simp: same_outcome_def same_reply_def served_def status_of_def respond_sel
        metaIdempotencyReplayed_def headerIdempotencyReplayed_def)
  show ?thesis
  proof (cases "uuid_Parse (ci_ProductID inp)")
    case (Inl e)
    then show ?thesis
      using w u body by (auto simp: http_CreateOrder_def CreateOrder_def callers intro!: same_outcome_intros)
  next
    case (Inr i)
    from same_key [OF key] show ?thesis
    proof (elim disjE exE conjE)
      fix e m assume "idempotencyFromHeader r = Inl e" "idempotencyFromMetadata cx = status_Error InvalidArgument m"
      then show ?thesis
        using w u body Inr same_outcome_refused [OF w, of 400 InvalidArgument]
        by (simp add: http_CreateOrder_def CreateOrder_def callers status_Error_def)
    next
      fix k assume "idempotencyFromHeader r = Inr k" "idempotencyFromMetadata cx = Inr k"
      then show ?thesis
        using w u body Inr placed [of _ True] placed [of _ False]
        by (auto simp: http_CreateOrder_def CreateOrder_def callers Let_def intro!: same_outcome_intros
            split: sum.split prod.split)
    qed
  qed
qed

text \<open>The two entry points below authentication.\<close>

lemma same_denied:
  assumes "unsent w"
  shows "same_outcome w (True, unauthorized w, s)
    (reply (status_Error Unauthenticated (Text ''invalid or missing token'')) s)"
  using assms by (simp add: same_outcome_def reply_def status_Error_def same_reply_def status_of_def unauthorized_def
      respondError_def respond_sel)

lemma same_authenticated:
  assumes w: "unsent w" and caller: "http_caller verify r = verified_caller verify cx"
    and req: "is_order_request req"
    and same: "\<And>u. same_outcome w (h (r\<lparr>rq_user := Some u\<rparr>) w s) (handle P (caller_ctx now d u cx) req s)"
  shows "same_outcome w (http_Auth verify h r w s) (grpc_serve now d verify P cx req s)"
proof (cases "verified_caller verify cx")
  case None
  have "grpc_serve now d verify P cx req s = reply (status_Error Unauthenticated (Text ''invalid or missing token'')) s"
    using None req order_request_private [of req] requireAuth_private [of "full_method req" verify "handle P"
        "WithTimeout now d cx" req s]
    by (simp add: grpc_serve_eq verified_caller_def)
  then show ?thesis using same_denied [OF w] None caller by (simp add: http_Auth_eq)
next
  case (Some u)
  then show ?thesis using same caller by (simp add: http_Auth_eq grpc_serve_order [OF req Some])
qed

lemma grpc_serve_public:
  "\<not> is_order_request req \<Longrightarrow> grpc_serve now d verify P cx req s = handle P (WithTimeout now d cx) req s"
  using order_request_private [of req] by (auto simp: grpc_serve_eq requireAuth_def)

text \<open>The eight requests that stand for a call.\<close>

lemma grpc_request_cases:
  assumes "grpc_request_of r = Some req"
  obtains (create) inp where "rq_path r = [''v1'', ''products'']" "rq_method r = ''POST''" "rq_content_length r \<noteq> 0"
        "decode_add (rq_body r) = Inr inp"
        "req = CreateProductRequest (ai_Name inp) (Some (money_of_input (ai_Price inp))) (ai_Stock inp)"
    | (products) n where "rq_path r = [''v1'', ''products'']" "rq_method r = ''GET''"
        "limit_of (get_first (rq_query r) ''limit'') = Some n" "req = ListProductsRequest (get_first (rq_query r) ''cursor'') n"
    | (order) inp where "rq_path r = [''v1'', ''orders'']" "rq_method r = ''POST''" "rq_content_length r \<noteq> 0"
        "decode_order (rq_body r) = Inr inp" "req = CreateOrderRequest (ci_ProductID inp) (ci_Quantity inp)"
    | (orders) n where "rq_path r = [''v1'', ''orders'']" "rq_method r = ''GET''"
        "limit_of (get_first (rq_query r) ''limit'') = Some n" "req = ListOrdersRequest (get_first (rq_query r) ''cursor'') n"
    | (find) i where "rq_path r = [''v1'', ''products'', i]" "i \<noteq> ''''" "rq_method r = ''GET''" "req = GetProductRequest i"
    | (delete) i where "rq_path r = [''v1'', ''products'', i]" "i \<noteq> ''''" "rq_method r = ''DELETE''" "req = DeleteProductRequest i"
    | (update) i inp where "rq_path r = [''v1'', ''products'', i]" "i \<noteq> ''''" "rq_method r = ''PUT''"
        "rq_content_length r \<noteq> 0" "decode_update (rq_body r) = Inr inp"
        "req = UpdateProductRequest i (ui_Name inp) (Some (money_of_input (ui_Price inp)))"
    | (find_order) i where "rq_path r = [''v1'', ''orders'', i]" "i \<noteq> ''''" "rq_method r = ''GET''" "req = GetOrderRequest i"
  using assms by (auto simp: grpc_request_of_def split: if_splits sum.splits list.splits)

lemma same_call:
  assumes req: "grpc_request_of r = Some req" and w: "rw_status w = None" "map_of (rw_header w) ''Idempotency-Replayed'' = None"
    and caller: "http_caller verify r = verified_caller verify cx"
    and key: "get_first (rq_header r) ''Idempotency-Key'' = metadata_key cx"
  shows "same_outcome w (NewMux P (http_Auth verify) r w s) (grpc_serve now d verify P cx req s)"
proof -
  have w: "unsent w" using w by (simp only: unsent_def)
  have cx: "cx_user (caller_ctx now d u cx) = Some u" "metadata_key (caller_ctx now d u cx) = metadata_key cx" for u
    by (simp_all add: caller_ctx_def metadata_key_def WithTimeout_def)
  have c: "http_caller verify (r\<lparr>rq_path_id := i\<rparr>) = verified_caller verify cx" for i using caller by simp
  show ?thesis
    using req
  proof (cases rule: grpc_request_cases)
    case (create inp)
    then show ?thesis
      using same_CreateProduct [OF w, of "r\<lparr>rq_path_id := ''''\<rparr>" inp P s]
      by (simp add: route_products grpc_serve_public is_order_request_def)
  next
    case (products n)
    then show ?thesis
      using same_ListProducts [OF w, of "r\<lparr>rq_path_id := ''''\<rparr>" n P s]
      by (simp add: route_products grpc_serve_public is_order_request_def)
  next
    case (order inp)
    show ?thesis
      unfolding route_orders(1) [OF order(1,2)]
    proof (rule same_authenticated [OF w c])
      show "same_outcome w (http_CreateOrder P (r\<lparr>rq_path_id := '''', rq_user := Some u\<rparr>) w s)
          (handle P (caller_ctx now d u cx) req s)" for u
        using order same_CreateOrder [OF w, of "r\<lparr>rq_path_id := '''', rq_user := Some u\<rparr>" u "caller_ctx now d u cx" inp P s] key
        by (simp add: cx)
    qed (simp add: order(5) is_order_request_def)
  next
    case (orders n)
    then have m: "rq_method r \<in> {''GET'', ''HEAD''}" by simp
    show ?thesis
      unfolding route_orders(2) [OF orders(1) m]
    proof (rule same_authenticated [OF w c])
      show "same_outcome w (http_ListOrders P (r\<lparr>rq_path_id := '''', rq_user := Some u\<rparr>) w s)
          (handle P (caller_ctx now d u cx) req s)" for u
        using orders same_ListOrders [OF w, of "r\<lparr>rq_path_id := '''', rq_user := Some u\<rparr>" n u "caller_ctx now d u cx" P s]
        by (simp add: cx)
    qed (simp add: orders(4) is_order_request_def)
  next
    case (find i)
    then show ?thesis
      using same_GetProduct [OF w, of P "r\<lparr>rq_path_id := i\<rparr>" s]
      by (simp add: route_product grpc_serve_public is_order_request_def)
  next
    case (delete i)
    then show ?thesis
      using same_DeleteProduct [OF w, of P "r\<lparr>rq_path_id := i\<rparr>" s]
      by (simp add: route_product grpc_serve_public is_order_request_def)
  next
    case (update i inp)
    then show ?thesis
      using same_UpdateProduct [OF w, of "r\<lparr>rq_path_id := i\<rparr>" inp P s]
      by (simp add: route_product grpc_serve_public is_order_request_def)
  next
    case (find_order i)
    then have m: "rq_method r \<in> {''GET'', ''HEAD''}" by simp
    show ?thesis
      unfolding route_order [OF find_order(1,2) m]
    proof (rule same_authenticated [OF w c])
      show "same_outcome w (http_GetOrder P (r\<lparr>rq_path_id := i, rq_user := Some u\<rparr>) w s)
          (handle P (caller_ctx now d u cx) req s)" for u
        using find_order same_GetOrder [OF w, of "r\<lparr>rq_path_id := i, rq_user := Some u\<rparr>" u "caller_ctx now d u cx" P s]
        by (simp add: cx)
    qed (simp add: find_order(4) is_order_request_def)
  qed
qed

text \<open>
  C14: the transports are two doors to the same room. An HTTP request and the gRPC call it stands for,
  under credentials that verify to the same caller and with the same idempotency key, over any
  service: they leave it in the same state; one succeeds exactly when the other does, with the same
  data in the reply and the same replay mark; and one is refused for its token exactly when the other is.
\<close>

theorem transports_agree:
  assumes req: "grpc_request_of r = Some req" and w: "rw_status w = None" "map_of (rw_header w) ''Idempotency-Replayed'' = None"
    and caller: "http_caller verify r = verified_caller verify cx"
    and key: "get_first (rq_header r) ''Idempotency-Key'' = metadata_key cx"
  shows "same_outcome w (NewMux P (http_Auth verify) r w s) (grpc_serve now d verify P cx req s)"
  using same_call [OF assms] .

text \<open>The sample order of the gRPC samples, placed through HTTP under the same token and key.\<close>

definition sample_post :: http_request where
  "sample_post = sample_http ''POST'' [''v1'', ''orders''] [(''Authorization'', ''bearer tok''), (''Idempotency-Key'', ''k1'')]
     (json_print (JObj [(''productId'', JStr (uuid_string 7)), (''quantity'', JInt 4)]))"

lemma sample_post_facts:
  "grpc_request_of sample_post = Some (CreateOrderRequest (uuid_string 7) 4)"
  "http_caller sample_verify sample_post = verified_caller sample_verify sample_ctx"
  "get_first (rq_header sample_post) ''Idempotency-Key'' = metadata_key sample_ctx"
proof -
  show "grpc_request_of sample_post = Some (CreateOrderRequest (uuid_string 7) 4)"
    by code_simp
  show "http_caller sample_verify sample_post = verified_caller sample_verify sample_ctx"
    by (simp add: sample_caller http_caller_def sample_post_def sample_http_def get_first_def sample_bearer sample_verify_def)
  show "get_first (rq_header sample_post) ''Idempotency-Key'' = metadata_key sample_ctx"
    by (simp add: sample_post_def sample_http_def get_first_def metadata_key_def sample_ctx_def md_Get_def)
qed

theorem transports_agree_witness:
  "same_outcome fresh_writer (NewMux sample_processor (http_Auth sample_verify) sample_post fresh_writer sample_svc)
     (grpc_serve 0 5 sample_verify sample_processor sample_ctx (CreateOrderRequest (uuid_string 7) 4) sample_svc)"
  by (rule transports_agree [OF sample_post_facts(1) _ _ sample_post_facts(2,3)]) (simp_all add: fresh_status)

end
