(* ===== verification/System.thy ===== *)
theory System
  imports Changes Relay Transports
begin

text \<open>
  The whole service: requests through both transports, the relay and the janitor over one database,
  in any order, under any faults of the database, the cache and the broker. What is proved here
  holds in every state the service can reach from an empty database.
\<close>

section \<open>What a request may do\<close>

text \<open>
  The contract of an interface whose every operation has an effect of one kind: then so has every
  request, since a handler calls one operation at most.
\<close>

locale processor_effect =
  fixes P :: "'s processor" and eff :: "'s \<Rightarrow> 's \<Rightarrow> bool"
  assumes eff_refl: "eff s s"
    and eff_Create: "eff s (snd (pr_Create P p s))"
    and eff_FindByID: "eff s (snd (pr_FindByID P i s))"
    and eff_FindAll: "eff s (snd (pr_FindAll P c n s))"
    and eff_Update: "eff s (snd (pr_Update P p s))"
    and eff_Delete: "eff s (snd (pr_Delete P i s))"
    and eff_CreateOrder: "eff s (snd (pr_CreateOrder P u i q k s))"
    and eff_FindOrder: "eff s (snd (pr_FindOrder P u i s))"
    and eff_FindOrders: "eff s (snd (pr_FindOrders P u c n s))"
begin

lemmas eff_ops = eff_Create eff_FindByID eff_FindAll eff_Update eff_Delete eff_CreateOrder eff_FindOrder eff_FindOrders

lemma eff_run:
  "pr_Create P p s = (r1, t) \<Longrightarrow> eff s t" "pr_FindByID P i s = (r2, t) \<Longrightarrow> eff s t"
  "pr_FindAll P c n s = (r3, t) \<Longrightarrow> eff s t" "pr_Update P p s = (r4, t) \<Longrightarrow> eff s t"
  "pr_Delete P i s = (r5, t) \<Longrightarrow> eff s t" "pr_CreateOrder P u i q k s = (r6, t) \<Longrightarrow> eff s t"
  "pr_FindOrder P u i s = (r7, t) \<Longrightarrow> eff s t" "pr_FindOrders P u c n s = (r8, t) \<Longrightarrow> eff s t"
  using eff_ops by (metis snd_conv)+

definition effective :: "'s handler \<Rightarrow> bool" where
  "effective h \<longleftrightarrow> (\<forall>r w s. eff s (snd (snd (h r w s))))"

lemma effective_handlers:
  "effective (http_GetByID P)" "effective (http_Get P)" "effective (http_Add P)" "effective (http_Delete P)"
  "effective (http_Update P)" "effective (http_CreateOrder P)" "effective (http_GetOrder P)" "effective (http_ListOrders P)"
  unfolding effective_def http_handler_defs
  by (auto simp: eff_refl dest: eff_run split: option.split sum.split prod.split)

lemma effective_Auth: "effective h \<Longrightarrow> effective (http_Auth verify h)"
  by (auto simp: effective_def http_Auth_eq eff_refl split: option.split)

lemma http_effect: "eff s (snd (snd (NewMux P (http_Auth verify) r w s)))"
proof (cases rule: serve_mux_cases [of "api_routes P (http_Auth verify)" r w s])
  case (route rt i)
  have "effective (rt_handler rt)"
    using route(1) by (auto simp: api_routes_def effective_handlers effective_Auth)
  then show ?thesis using route(4) by (simp add: NewMux_def effective_def)
next
  case (refused m c)
  then show ?thesis by (simp add: NewMux_def eff_refl)
qed

lemma handle_effect: "eff s (snd (handle P cx req s))"
  by (cases req) (auto simp: handler_defs Let_def eff_refl dest: eff_run split: option.split sum.split prod.split)

lemma grpc_effect: "eff s (snd (grpc_serve now d verify P cx req s))"
  using handle_effect
  by (auto simp: grpc_serve_eq requireAuth_def reply_def status_Error_def eff_refl split: option.split sum.split)

end

text \<open>On the service's tables, the effects are the changes of the store.\<close>

definition svc_effect :: "(string \<Rightarrow> string) \<Rightarrow> svc \<Rightarrow> svc \<Rightarrow> bool" where
  "svc_effect sha256 a b \<longleftrightarrow> op_effect sha256 (clock (sv_conn a)) (tables (sv_conn a)) (tables (sv_conn b))"

lemma on_store_effect:
  assumes "\<And>r c. m (sv_conn sv) = (r, c) \<Longrightarrow> op_effect sha256 (clock (sv_conn sv)) (tables (sv_conn sv)) (tables c)"
    and "sv_conn sv' = sv_conn (snd (on_store m sv))"
  shows "svc_effect sha256 sv sv'"
  using assms by (auto simp: svc_effect_def on_store_def split: prod.splits)

interpretation sys: processor_effect "service_processor sha256 pg srv d" "svc_effect sha256" for sha256 pg srv d
proof
  fix s :: svc and i u :: uuid and c :: cursor and n q :: int and p :: product and k :: string
  let ?P = "service_processor sha256 pg srv d"
  show "svc_effect sha256 s s" by (simp add: svc_effect_def)
  have read: "svc_effect sha256 s (snd (f s))" if "tables (sv_conn (snd (f s))) = tables (sv_conn s)" for f :: "svc \<Rightarrow> 'a \<times> svc"
    using that by (simp add: svc_effect_def)
  show "svc_effect sha256 s (snd (pr_FindByID ?P i s))"
    using FindByID_conn [of srv i s] tx_rel_eqD [OF store_reads_equal(1), of i "sv_conn s"]
    by (auto simp: svc_effect_def service_processor_def)
  show "svc_effect sha256 s (snd (pr_FindAll ?P c n s))" "svc_effect sha256 s (snd (pr_FindOrder ?P u i s))"
    "svc_effect sha256 s (snd (pr_FindOrders ?P u c n s))"
    by (simp_all add: svc_effect_def service_processor_def service_op_defs store_reads_equal [THEN tx_rel_eqD])
  show "svc_effect sha256 s (snd (pr_Create ?P p s))"
    by (rule on_store_effect [OF store_Save_effect]) (simp_all add: service_processor_def service_Create_def)
  show "svc_effect sha256 s (snd (pr_Update ?P p s))"
    by (rule on_store_effect [where m = "store_Update (dr_event d) (dr_now d) p", OF store_Update_effect])
      (auto simp: service_processor_def service_Update_def on_store_def split: prod.split sum.split)
  show "svc_effect sha256 s (snd (pr_Delete ?P i s))"
    by (rule on_store_effect [where m = "store_Delete (dr_event d) (dr_now d) i", OF store_Delete_effect])
      (auto simp: service_processor_def service_Delete_def on_store_def split: prod.split sum.split)
  show "svc_effect sha256 s (snd (pr_CreateOrder ?P u i q k s))"
    by (rule on_store_effect [where m = "store_CreateOrder sha256 pg (dr_event d) (dr_now d) (new_order (dr_newV7 d) u i q) k",
        OF store_CreateOrder_effect])
      (auto simp: service_processor_def service_CreateOrder_def on_store_def split: prod.split sum.split)
qed

section \<open>The system\<close>

text \<open>
  The state: the service over its database and cache, and the record of what was handed to the broker
  and answered. Two histories are kept only to speak about the past: every event a transaction queued,
  with its outbox id, and the stock each product had when it was created; both are read off the
  tables before and after a step.
\<close>

record system =
  sys_svc :: svc
  sys_calls :: "(event_record \<times> go_error option) list"
  sys_queued :: "(int \<times> event_record) list"
  sys_stocked :: "uuid \<Rightarrow> int option"

abbreviation sys_db :: "system \<Rightarrow> database" where
  "sys_db s \<equiv> tables (sv_conn (sys_svc s))"

definition row_event :: "outbox_table_row \<Rightarrow> int \<times> event_record" where
  "row_event r = (ob_id r, or_record (scanOutbox r))"

definition newly_queued :: "database \<Rightarrow> database \<Rightarrow> (int \<times> event_record) list" where
  "newly_queued a b = map row_event (filter (\<lambda>r. outbox_seq a \<le> ob_id r) (outbox b))"

definition restocked :: "database \<Rightarrow> database \<Rightarrow> (uuid \<Rightarrow> int option) \<Rightarrow> uuid \<Rightarrow> int option" where
  "restocked a b m i =
     (if find_key p_id i (products a) = None then map_option p_stock (find_key p_id i (products b)) else m i)"

definition observed :: "svc \<Rightarrow> (event_record \<times> go_error option) list \<Rightarrow> system \<Rightarrow> system" where
  "observed sv calls s =
     \<lparr>sys_svc = sv, sys_calls = calls,
      sys_queued = sys_queued s @ newly_queued (sys_db s) (tables (sv_conn sv)),
      sys_stocked = restocked (sys_db s) (tables (sv_conn sv)) (sys_stocked s)\<rparr>"

lemma observed_sel [simp]:
  "sys_svc (observed sv calls s) = sv" "sys_calls (observed sv calls s) = calls"
  "sys_queued (observed sv calls s) = sys_queued s @ newly_queued (sys_db s) (tables (sv_conn sv))"
  "sys_stocked (observed sv calls s) = restocked (sys_db s) (tables (sv_conn sv)) (sys_stocked s)"
  by (simp_all add: observed_def)

text \<open>
  The steps: a request over HTTP or gRPC, whatever it asks, a round of a relay, a purge of the janitor,
  and anything else that happens to the clocks, the connections' faults and the cache's keys. The
  broker's answers in a round are arbitrary, as are the outbox rows another relay has locked.
\<close>

inductive system_step ::
  "(string \<Rightarrow> string) \<Rightarrow> postgres \<Rightarrow> service \<Rightarrow> (string \<Rightarrow> go_error + uuid) \<Rightarrow> int \<Rightarrow> system \<Rightarrow> system \<Rightarrow> bool"
  for sha256 pg srv verify m where
  http: "NewMux (service_processor sha256 pg srv dr) (http_Auth verify) r w (sys_svc s) = (ok, w', sv) \<Longrightarrow>
    system_step sha256 pg srv verify m s (observed sv (sys_calls s) s)"
| grpc: "grpc_serve now d verify (service_processor sha256 pg srv dr) cx req (sys_svc s) = (out, sv) \<Longrightarrow>
    system_step sha256 pg srv verify m s (observed sv (sys_calls s) s)"
| relay: "DrainBatch locked n m (logged (publish :: go_error option list publish)) (sys_calls s, b) (sv_conn (sys_svc s))
      = (res, (calls, b'), c) \<Longrightarrow>
    system_step sha256 pg srv verify m s (observed ((sys_svc s)\<lparr>sv_conn := c\<rparr>) calls s)"
| janitor: "PurgeIdempotencyKeys (sv_conn (sys_svc s)) = (purge, c) \<Longrightarrow>
    system_step sha256 pg srv verify m s (observed ((sys_svc s)\<lparr>sv_conn := c\<rparr>) (sys_calls s) s)"
| world: "tables (sv_conn sv) = sys_db s \<Longrightarrow> system_step sha256 pg srv verify m s (s\<lparr>sys_svc := sv\<rparr>)"

inductive_cases system_stepE [consumes 1, case_names http grpc relay janitor world]:
  "system_step sha256 pg srv verify m s s'"

definition system_start :: "svc \<Rightarrow> system" where
  "system_start sv = \<lparr>sys_svc = sv, sys_calls = [], sys_queued = [], sys_stocked = (\<lambda>_. None)\<rparr>"

inductive system_reach ::
  "(string \<Rightarrow> string) \<Rightarrow> postgres \<Rightarrow> service \<Rightarrow> (string \<Rightarrow> go_error + uuid) \<Rightarrow> int \<Rightarrow> system \<Rightarrow> bool"
  for sha256 pg srv verify m where
  start: "tables (sv_conn sv) = empty_database \<Longrightarrow> system_reach sha256 pg srv verify m (system_start sv)"
| step: "system_reach sha256 pg srv verify m s \<Longrightarrow> system_step sha256 pg srv verify m s s' \<Longrightarrow>
    system_reach sha256 pg srv verify m s'"

text \<open>What a step does to the tables: a change of the store, a round of the relay, or a purge.\<close>

lemma system_step_cases [consumes 2, case_names request relay purge world]:
  assumes "system_step sha256 pg srv verify m s s'" "in_order sha256 (sys_db s)"
  obtains (request) sv where "s' = observed sv (sys_calls s) s" "db_change sha256 (clock (sv_conn (sys_svc s))) (sys_db s) (tables (sv_conn sv))"
      "in_order sha256 (tables (sv_conn sv))" "outbox_seq (sys_db s) \<le> outbox_seq (tables (sv_conn sv))"
  | (relay) locked n b res calls b' c and publish :: "go_error option list publish" where
      "DrainBatch locked n m (logged publish) (sys_calls s, b) (sv_conn (sys_svc s)) = (res, (calls, b'), c)"
      "s' = observed ((sys_svc s)\<lparr>sv_conn := c\<rparr>) calls s"
  | (purge) sv where "s' = observed sv (sys_calls s) s"
      "tables (sv_conn sv) \<in> {sys_db s, purged (clock (sv_conn (sys_svc s))) (sys_db s)}"
  | (world) sv where "s' = s\<lparr>sys_svc := sv\<rparr>" "tables (sv_conn sv) = sys_db s"
  using assms(1)
proof (cases rule: system_stepE)
  case (http dr r w ok w' sv)
  then have "svc_effect sha256 (sys_svc s) sv"
    using sys.http_effect [of sha256 "sys_svc s" pg srv dr verify r w] by simp
  then show thesis using http assms(2) request by (simp add: svc_effect_def op_effect_def)
next
  case (grpc now d dr cx req out sv)
  then have "svc_effect sha256 (sys_svc s) sv"
    using sys.grpc_effect [of sha256 "sys_svc s" now d verify pg srv dr cx req] by simp
  then show thesis using grpc assms(2) request by (simp add: svc_effect_def op_effect_def)
next
  case (janitor r c)
  then show thesis using purge_tables(1) [OF janitor(2)] purge by fastforce
qed (use relay world in blast)+

section \<open>Orders outlive everything that happens later\<close>

text \<open>Keys that have not expired survive whatever happens before a given time, and orders survive for good.\<close>

inductive system_runs ::
  "(string \<Rightarrow> string) \<Rightarrow> postgres \<Rightarrow> service \<Rightarrow> (string \<Rightarrow> go_error + uuid) \<Rightarrow> int \<Rightarrow> timestamp \<Rightarrow> system \<Rightarrow> system \<Rightarrow> bool"
  for sha256 pg srv verify m now s where
  none: "system_runs sha256 pg srv verify m now s s"
| more: "system_runs sha256 pg srv verify m now s t \<Longrightarrow> clock (sv_conn (sys_svc t)) \<le> now \<Longrightarrow>
    system_step sha256 pg srv verify m t t' \<Longrightarrow> system_runs sha256 pg srv verify m now s t'"

definition keeps_rows :: "timestamp \<Rightarrow> database \<Rightarrow> database \<Rightarrow> bool" where
  "keeps_rows now a b \<longleftrightarrow> set (orders a) \<subseteq> set (orders b)
     \<and> (\<forall>k\<in>set (idempotency_keys a). now \<le> ik_expires_at k \<longrightarrow> k \<in> set (idempotency_keys b))"

lemma keeps_rows_same: "orders b = orders a \<Longrightarrow> idempotency_keys b = idempotency_keys a \<Longrightarrow> keeps_rows now a b"
  by (simp add: keeps_rows_def)

lemma keeps_rows_trans: "keeps_rows now a b \<Longrightarrow> keeps_rows now b c \<Longrightarrow> keeps_rows now a c"
  by (auto simp: keeps_rows_def)

lemma keeps_orders_rows: "in_order sha256 b \<Longrightarrow> keeps_rows now a b \<Longrightarrow> keeps_orders sha256 now a b"
  by (simp add: keeps_orders_def keeps_rows_def in_order_def)

lemma placed_keeps_rows:
  assumes "db_wf a" "live_key (ord_UserID o1) idem c a = None" "c \<le> now"
  shows "keeps_rows now a (placed sha256 pg eid at o1 idem x c a)"
proof -
  have "k \<in> set (idempotency_keys (placed sha256 pg eid at o1 idem x c a))"
    if k: "k \<in> set (idempotency_keys a)" "now \<le> ik_expires_at k" for k
  proof -
    have "find_key ik_pk (ik_pk k) (idempotency_keys a) = Some k"
      using assms(1) k(1) by (intro find_key_SomeI) (simp_all add: schema_defs)
    then have "ik_pk k \<noteq> (ord_UserID o1, idem)" using assms(2,3) k(2) by (auto simp: live_key_def)
    then show ?thesis
      using k(1) by (auto simp: placed_def purchased_def settled_def claimed_def Let_def set_update_key split: option.split)
  qed
  then show ?thesis by (auto simp: keeps_rows_def placed_def purchased_def settled_def claimed_def Let_def split: option.splits)
qed

lemma change_keeps_rows:
  assumes "db_change sha256 c a b" "db_wf a" "c \<le> now"
  shows "keeps_rows now a b"
  using assms(1)
proof (cases rule: db_changeE)
  case (bought o1 x idem pg eid at)
  then show ?thesis using placed_keeps_rows [OF assms(2) bought(3) assms(3)] by simp
qed (simp_all add: keeps_rows_same same_rows_sel)

lemma purge_in_order:
  assumes "in_order sha256 db" "db' \<in> {db, purged now db}"
  shows "in_order sha256 db'"
proof -
  have "key_settled sha256 (orders db) k" if "k \<in> set (idempotency_keys (purged now db))" for k
    using assms(1) that by (auto simp: in_order_def keys_settled_def purged_def)
  then show ?thesis
    using assms by (auto simp: in_order_def keys_settled_def purged_def db_wf_def keys_wf_def intro: distinct_filter
        distinct_map_filter)
qed

lemma step_keeps_rows:
  assumes "system_step sha256 pg srv verify m s s'" "in_order sha256 (sys_db s)" "clock (sv_conn (sys_svc s)) \<le> now"
  shows "in_order sha256 (sys_db s') \<and> keeps_rows now (sys_db s) (sys_db s')"
proof -
  have wf: "db_wf (sys_db s)" using assms(2) by (simp add: in_order_def)
  show ?thesis
    using assms(1,2)
  proof (cases rule: system_step_cases)
    case (request sv)
    then show ?thesis using change_keeps_rows [OF request(2) wf assms(3)] by simp
  next
    case (relay locked n b res calls b' c publish)
    note t = drain_tables [OF relay(1) wf]
    have "in_order sha256 (tables c)" using t assms(2) by (auto simp: in_order_def keys_settled_def)
    then show ?thesis using t by (simp add: relay(2) keeps_rows_same)
  next
    case (purge sv)
    have "keeps_rows now (sys_db s) (tables (sv_conn sv))"
      using purge(2) assms(3) by (auto simp: keeps_rows_def purged_def)
    then show ?thesis using purge purge_in_order [OF assms(2) purge(2)] by simp
  next
    case (world sv)
    then show ?thesis using assms(2) by (simp add: keeps_rows_same)
  qed
qed

lemma runs_keep_rows:
  assumes "system_runs sha256 pg srv verify m now s t" "in_order sha256 (sys_db s)"
  shows "in_order sha256 (sys_db t) \<and> keeps_rows now (sys_db s) (sys_db t)"
  using assms(1)
proof (induction rule: system_runs.induct)
  case none
  then show ?case using assms(2) by (simp add: keeps_rows_same)
next
  case (more t t')
  then show ?case using step_keeps_rows keeps_rows_trans by blast
qed

section \<open>What holds in every reachable state\<close>

definition units_sold :: "uuid \<Rightarrow> orders_row list \<Rightarrow> int" where
  "units_sold i os = sum_list (map o_quantity (filter (\<lambda>x. o_product_id x = i) os))"

text \<open>The product and quantity of an order, and of the purchase an event announces.\<close>

definition order_sale :: "orders_row \<Rightarrow> string \<times> int" where
  "order_sale o1 = (uuid_string (o_product_id o1), o_quantity o1)"

definition sale_of :: "event_record \<Rightarrow> (string \<times> int) option" where
  "sale_of rec =
     (if RecType rec \<noteq> TypePurchased then None
      else case Payload rec of
        JObj ms \<Rightarrow>
          (case (map_of ms ''productId'', map_of ms ''quantity'') of
             (Some (JStr i), Some (JInt q)) \<Rightarrow> Some (i, q) | _ \<Rightarrow> None)
      | _ \<Rightarrow> None)"

text \<open>A queued event is pending, or the broker took it, or it is a dead letter the broker refused for good.\<close>

definition dead_event :: "outbox_dead_row \<Rightarrow> int \<times> event_record" where
  "dead_event d = (od_id d, \<lparr>MessageID = od_message_id d, RecType = od_event_type d, Payload = od_payload d\<rparr>)"

definition event_kept :: "(event_record \<times> go_error option) list \<Rightarrow> database \<Rightarrow> int \<times> event_record \<Rightarrow> bool" where
  "event_kept calls db x \<longleftrightarrow>
     x \<in> row_event ` set (outbox db) \<or> (snd x, None) \<in> set calls
     \<or> (\<exists>d\<in>set (outbox_dead db). dead_event d = x \<and> errors_is (od_last_error d) ErrUndeliverable
          \<and> (snd x, Some (od_last_error d)) \<in> set calls)"

definition stock_adds_up :: "system \<Rightarrow> bool" where
  "stock_adds_up s \<longleftrightarrow>
     (\<forall>r\<in>set (products (sys_db s)). sys_stocked s (p_id r) = Some (p_stock r + units_sold (p_id r) (orders (sys_db s))))"

definition events_add_up :: "system \<Rightarrow> bool" where
  "events_add_up s \<longleftrightarrow>
     distinct (map fst (sys_queued s)) \<and> (\<forall>x\<in>set (sys_queued s). fst x < outbox_seq (sys_db s))
     \<and> (\<forall>x\<in>set (sys_queued s). event_kept (sys_calls s) (sys_db s) x)
     \<and> List.map_filter sale_of (map snd (sys_queued s)) = map order_sale (orders (sys_db s))"

lemma outbox_below_seq: "db_wf db \<Longrightarrow> r \<in> set (outbox db) \<Longrightarrow> ob_id r < outbox_seq db"
  by (simp add: db_wf_def outbox_wf_def)

lemma newly_queued_none:
  assumes "db_wf a" "\<And>r. r \<in> set (outbox b) \<Longrightarrow> ob_id r < outbox_seq a"
  shows "newly_queued a b = []"
  using assms(2) by (force simp: newly_queued_def filter_empty_conv)

lemma newly_queued_enqueue:
  assumes "db_wf a" "outbox a' = outbox a" "outbox_seq a' = outbox_seq a"
  shows "newly_queued a (enqueue e now a')
    = [(outbox_seq a, \<lparr>MessageID = EventID e, RecType = EventType e, Payload = event_json e\<rparr>)]"
proof -
  have "filter (\<lambda>r. outbox_seq a \<le> ob_id r) (outbox a) = []"
    using outbox_below_seq [OF assms(1)] by (force simp: filter_empty_conv)
  then show ?thesis
    using assms(2,3) by (simp add: newly_queued_def enqueue_def row_event_def scanOutbox_def)
qed

lemma product_found: "db_wf db \<Longrightarrow> r \<in> set (products db) \<Longrightarrow> find_key p_id (p_id r) (products db) = Some r"
  by (simp add: db_wf_def products_wf_def find_key_SomeI)

lemma units_sold_append: "units_sold i (os @ [x]) = units_sold i os + (if o_product_id x = i then o_quantity x else 0)"
  by (simp add: units_sold_def)

lemma units_sold_unknown:
  assumes "db_wf db" "i \<notin> p_id ` set (products db)"
  shows "units_sold i (orders db) = 0"
proof -
  have "filter (\<lambda>x. o_product_id x = i) (orders db) = []"
    using assms by (force simp: filter_empty_conv db_wf_def orders_wf_def)
  then show ?thesis by (simp add: units_sold_def)
qed

lemma units_sold_nonneg: "db_wf db \<Longrightarrow> 0 \<le> units_sold i (orders db)"
  unfolding units_sold_def
  by (rule sum_list_nonneg) (auto simp: db_wf_def orders_wf_def orders_check_def)

lemma sale_of_other: "EventType e \<noteq> TypePurchased \<Longrightarrow>
    sale_of \<lparr>MessageID = i, RecType = EventType e, Payload = j\<rparr> = None"
  by (simp add: sale_of_def)

lemma sale_of_purchase:
  assumes "0 < q"
  shows "sale_of \<lparr>MessageID = i, RecType = TypePurchased, Payload = event_json (NewPurchased eid at p q)\<rparr>
    = Some (uuid_string (prod_ID p), q)"
  using assms by (simp add: sale_of_def event_json_def NewPurchased_def event_New_def Let_def)

section \<open>The steps keep it\<close>

text \<open>Stock: the rows that were there keep their account, and a new product opens one.\<close>

lemma restocked_old: "i \<in> p_id ` set (products a) \<Longrightarrow> restocked a b m i = m i"
  by (auto simp: restocked_def find_key_None)

lemma request_stock:
  assumes "stock_adds_up s" "db_change sha256 (clock (sv_conn (sys_svc s))) (sys_db s) b" "db_wf (sys_db s)" "db_wf b"
    and sv: "tables (sv_conn sv) = b"
  shows "stock_adds_up (observed sv calls s)"
proof -
  let ?a = "sys_db s" and ?now = "clock (sv_conn (sys_svc s))"
  have old: "sys_stocked s (p_id r) = Some (p_stock r + units_sold (p_id r) (orders ?a))" if "r \<in> set (products ?a)" for r
    using assms(1) that by (simp add: stock_adds_up_def)
  have "restocked ?a b (sys_stocked s) (p_id r) = Some (p_stock r + units_sold (p_id r) (orders b))"
    if r: "r \<in> set (products b)" for r
    using assms(2)
  proof (cases rule: db_changeE)
    case unchanged
    then show ?thesis using r old by (auto simp: same_rows_sel restocked_old)
  next
    case (saved x e)
    then show ?thesis
    proof (cases "r = x")
      case True
      have "find_key p_id (p_id x) (products ?a) = None" using saved(2) by (simp add: find_key_None)
      moreover have "find_key p_id (p_id x) (products b) = Some x" using product_found [OF assms(4)] r True by simp
      ultimately show ?thesis
        using True units_sold_unknown [OF assms(3) saved(2)] saved(1) by (simp add: restocked_def)
    next
      case False
      then show ?thesis using r old saved(1) by (auto simp: restocked_old)
    qed
  next
    case (updated x x' e)
    have x: "x \<in> set (products ?a)" "p_id x = p_id x'" using find_key_SomeD [OF updated(2)] by auto
    consider "r = x'" | "r \<in> set (products ?a)"
      using r x updated(1) by (auto simp: set_update_key)
    then show ?thesis
    proof cases
      case 1
      have "p_id x' \<in> p_id ` set (products ?a)" using x by (metis imageI)
      then show ?thesis using 1 old [OF x(1)] x updated(1,3) by (simp add: restocked_old)
    next
      case 2
      then show ?thesis using old [OF 2] updated(1) by (auto simp: restocked_old)
    qed
  next
    case (deleted x e)
    then show ?thesis using r old by (auto simp: set_delete_key restocked_old)
  next
    case (bought o1 x idem pg eid at)
    then have x: "x \<in> set (products ?a)" "p_id x = ord_ProductID o1" using find_key_SomeD by (fastforce simp: can_buy_def)+
    have b: "products b = update_key p_id (ord_ProductID o1) (\<lambda>_. sold_row (ord_Quantity o1) x) (products ?a)"
      "orders b = orders ?a @ [order_row o1 x ?now]"
      using bought(1) by (simp_all add: placed_def)
    consider "r = sold_row (ord_Quantity o1) x" | "r \<in> set (products ?a)" "p_id r \<noteq> ord_ProductID o1"
      using r unfolding b by (auto simp: set_update_key)
    then show ?thesis
    proof cases
      case 1
      have "p_id r = p_id x" "p_stock r = p_stock x - ord_Quantity o1" using 1 by (simp_all add: sold_row_def)
      moreover have "p_id x \<in> p_id ` set (products ?a)" using x(1) by simp
      ultimately show ?thesis
        using old [OF x(1)] x(2) by (simp add: b(2) units_sold_append order_row_def restocked_old)
    next
      case 2
      then show ?thesis using old [OF 2(1)] by (simp add: b(2) units_sold_append order_row_def restocked_old)
    qed
  qed
  then show ?thesis using sv by (simp add: stock_adds_up_def)
qed

text \<open>Events: a change queues exactly its own, and loses none.\<close>

lemma map_filter_append: "List.map_filter f (xs @ ys) = List.map_filter f xs @ List.map_filter f ys"
  by (induction xs) (auto split: option.split)

lemma grown_events:
  assumes ev: "events_add_up s" and wf: "db_wf (sys_db s)" and a': "outbox a' = outbox (sys_db s)"
      "outbox_seq a' = outbox_seq (sys_db s)" "outbox_dead a' = outbox_dead (sys_db s)"
    and sale: "map order_sale (orders a') = map order_sale (orders (sys_db s))
      @ (case sale_of \<lparr>MessageID = EventID e, RecType = EventType e, Payload = event_json e\<rparr> of None \<Rightarrow> [] | Some x \<Rightarrow> [x])"
    and sv: "outbox (tables (sv_conn sv)) = outbox (enqueue e now a')" "orders (tables (sv_conn sv)) = orders a'"
      "outbox_dead (tables (sv_conn sv)) = outbox_dead a'" "outbox_seq (tables (sv_conn sv)) = outbox_seq a' + 1"
  shows "events_add_up (observed sv (sys_calls s) s)"
proof -
  let ?rec = "\<lparr>MessageID = EventID e, RecType = EventType e, Payload = event_json e\<rparr>" and ?n = "outbox_seq (sys_db s)"
  have "newly_queued (sys_db s) (tables (sv_conn sv)) = newly_queued (sys_db s) (enqueue e now a')"
    using sv(1) by (simp add: newly_queued_def)
  then have q: "newly_queued (sys_db s) (tables (sv_conn sv)) = [(?n, ?rec)]"
    using newly_queued_enqueue [OF wf a'(1,2)] by simp
  have kept: "event_kept (sys_calls s) (tables (sv_conn sv)) x" if "event_kept (sys_calls s) (sys_db s) x" for x
    using that a' sv by (auto simp: event_kept_def enqueue_def)
  have new: "event_kept (sys_calls s) (tables (sv_conn sv)) (?n, ?rec)"
    using a' sv(1) by (auto simp: event_kept_def enqueue_def row_event_def scanOutbox_def)
  show ?thesis
    using ev sale kept new a'(2) sv(2,4)
    by (fastforce simp: events_add_up_def q map_filter_append split: option.split)
qed

lemma same_events:
  assumes ev: "events_add_up s" and wf: "db_wf (sys_db s)"
    and same: "outbox (tables (sv_conn sv)) = outbox (sys_db s)" "orders (tables (sv_conn sv)) = orders (sys_db s)"
      "outbox_dead (tables (sv_conn sv)) = outbox_dead (sys_db s)" "outbox_seq (sys_db s) \<le> outbox_seq (tables (sv_conn sv))"
  shows "events_add_up (observed sv (sys_calls s) s)"
proof -
  have "newly_queued (sys_db s) (tables (sv_conn sv)) = []"
    using outbox_below_seq [OF wf] same(1) by (intro newly_queued_none [OF wf]) simp
  then show ?thesis using ev same by (fastforce simp: events_add_up_def event_kept_def)
qed

lemma request_events:
  assumes ev: "events_add_up s" and wf: "db_wf (sys_db s)" and ch: "db_change sha256 (clock (sv_conn (sys_svc s))) (sys_db s) (tables (sv_conn sv))"
    and sq: "outbox_seq (sys_db s) \<le> outbox_seq (tables (sv_conn sv))"
  shows "events_add_up (observed sv (sys_calls s) s)"
  using ch
proof (cases rule: db_changeE)
  case unchanged
  then show ?thesis using sq by (intro same_events [OF ev wf]) (simp_all add: same_rows_sel)
next
  case (saved x e)
  have "EventType e \<noteq> TypePurchased" using saved(3) by (simp add: event_type_defs)
  then show ?thesis
    using saved(1)
    by (intro grown_events [OF ev wf, where e = e and now = "clock (sv_conn (sys_svc s))"
          and a' = "(sys_db s)\<lparr>products := products (sys_db s) @ [x]\<rparr>"])
      (simp_all add: sale_of_other)
next
  case (updated x x' e)
  have "EventType e \<noteq> TypePurchased" using updated(4) by (simp add: event_type_defs)
  then show ?thesis
    using updated(1)
    by (intro grown_events [OF ev wf, where e = e and now = "clock (sv_conn (sys_svc s))"
          and a' = "(sys_db s)\<lparr>products := update_key p_id (p_id x') (\<lambda>_. x') (products (sys_db s))\<rparr>"])
      (simp_all add: sale_of_other)
next
  case (deleted x e)
  have "EventType e \<noteq> TypePurchased" using deleted(4) by (simp add: event_type_defs)
  then show ?thesis
    using deleted(1)
    by (intro grown_events [OF ev wf, where e = e and now = "clock (sv_conn (sys_svc s))"
          and a' = "(sys_db s)\<lparr>products := delete_key p_id (EventProductID e) (products (sys_db s))\<rparr>"])
      (simp_all add: sale_of_other)
next
  case (bought o1 x idem pg eid at)
  let ?now = "clock (sv_conn (sys_svc s))"
  let ?a = "claimed (ord_UserID o1) idem (hashOrderRequest sha256 o1) (?now + interval_us (idempotencyTTL pg)) (sys_db s)"
  let ?a' = "?a\<lparr>products := update_key p_id (ord_ProductID o1) (\<lambda>_. sold_row (ord_Quantity o1) x) (products ?a),
      orders := orders ?a @ [order_row o1 x ?now]\<rparr>"
  let ?e = "NewPurchased eid at (scanProduct (sold_row (ord_Quantity o1) x)) (ord_Quantity o1)"
  have q: "0 < ord_Quantity o1" "p_id x = ord_ProductID o1"
    using bought(2) find_key_SomeD by (fastforce simp: can_buy_def)+
  have e: "EventType ?e = TypePurchased" by (simp add: NewPurchased_def event_New_def Let_def)
  have "tables (sv_conn sv) = settled (ord_UserID o1) idem (ord_ID o1) (enqueue ?e ?now ?a')"
    using bought(1) by (simp add: placed_def purchased_def Let_def)
  moreover have "sale_of \<lparr>MessageID = EventID ?e, RecType = EventType ?e, Payload = event_json ?e\<rparr>
      = Some (uuid_string (ord_ProductID o1), ord_Quantity o1)"
    unfolding e sale_of_purchase [OF q(1)] using q(2) by (simp add: scanProduct_def sold_row_def)
  ultimately show ?thesis
    by (intro grown_events [OF ev wf, where a' = ?a' and e = ?e and now = ?now]) (simp_all add: order_sale_def order_row_def)
qed

lemma relay_events:
  assumes ev: "events_add_up s" and wf: "db_wf (sys_db s)"
    and run: "DrainBatch locked n m (logged publish) (sys_calls s, b) (sv_conn (sys_svc s)) = (res, (calls, b'), c)"
  shows "events_add_up (observed ((sys_svc s)\<lparr>sv_conn := c\<rparr>) calls s)"
proof -
  note t = drain_tables [OF run wf]
  have "newly_queued (sys_db s) (tables c) = []"
    using t outbox_below_seq [of "tables c"] by (intro newly_queued_none [OF wf]) auto
  moreover have "event_kept calls (tables c) x" if x: "event_kept (sys_calls s) (sys_db s) x" for x
  proof -
    have grow: "set (sys_calls s) \<subseteq> set calls" using drain_calls_prefix [OF run] by (rule set_mono_prefix)
    consider r where "r \<in> set (outbox (sys_db s))" "x = row_event r" | "x \<notin> row_event ` set (outbox (sys_db s))" by blast
    then show ?thesis
    proof cases
      case 1
      from drain_event_kept [OF run wf 1(1)] show ?thesis
      proof (elim disjE bexE exE conjE)
        fix r' assume "r' \<in> set (outbox (tables c))" "ob_id r' = ob_id r"
          "scanOutbox r' = (scanOutbox r)\<lparr>or_attempts := ob_attempts r'\<rparr>"
        then show ?thesis using 1(2) by (auto simp: event_kept_def row_event_def intro!: image_eqI [of _ _ r'])
      next
        assume "(or_record (scanOutbox r), None) \<in> set calls"
        then show ?thesis using 1(2) by (simp add: event_kept_def row_event_def)
      next
        fix d e assume "d \<in> set (outbox_dead (tables c))" "od_id d = ob_id r" "od_message_id d = ob_message_id r"
          "od_event_type d = ob_event_type r" "od_payload d = ob_payload r" "od_last_error d = e"
          "(or_record (scanOutbox r), Some e) \<in> set calls" "errors_is e ErrUndeliverable"
        then show ?thesis using 1(2) by (auto simp: event_kept_def row_event_def dead_event_def scanOutbox_def)
      qed
    next
      case 2
      then show ?thesis using x t grow by (auto simp: event_kept_def)
    qed
  qed
  ultimately show ?thesis using ev t by (auto simp: events_add_up_def)
qed

text \<open>The invariant, from the empty database on.\<close>

definition sys_inv :: "(string \<Rightarrow> string) \<Rightarrow> int \<Rightarrow> system \<Rightarrow> bool" where
  "sys_inv sha256 m s \<longleftrightarrow> in_order sha256 (sys_db s) \<and> stock_adds_up s \<and> events_add_up s"

lemma sys_inv_step:
  assumes inv: "sys_inv sha256 m s" and step: "system_step sha256 pg srv verify m s s'"
  shows "sys_inv sha256 m s'"
proof -
  have o1: "in_order sha256 (sys_db s)" "db_wf (sys_db s)" using inv by (simp_all add: sys_inv_def in_order_def)
  show ?thesis
    using step o1(1)
  proof (cases rule: system_step_cases)
    case (request sv)
    then show ?thesis
      using inv request_stock [OF _ request(2) o1(2)] request_events [OF _ o1(2) request(2,4)]
      by (auto simp: sys_inv_def in_order_def)
  next
    case (relay locked n b res calls b' c publish)
    note t = drain_tables [OF relay(1) o1(2)]
    have "in_order sha256 (tables c)" using step_keeps_rows [OF step o1(1) order.refl] by (simp add: relay(2))
    moreover have "stock_adds_up s'" using inv t by (auto simp: relay(2) sys_inv_def stock_adds_up_def restocked_old)
    ultimately show ?thesis using relay_events [OF _ o1(2) relay(1)] inv by (simp add: relay(2) sys_inv_def)
  next
    case (purge sv)
    have same: "products (tables (sv_conn sv)) = products (sys_db s)" "orders (tables (sv_conn sv)) = orders (sys_db s)"
      "outbox (tables (sv_conn sv)) = outbox (sys_db s)" "outbox_dead (tables (sv_conn sv)) = outbox_dead (sys_db s)"
      "outbox_seq (tables (sv_conn sv)) = outbox_seq (sys_db s)"
      using purge(2) by (auto simp: purged_def)
    have "stock_adds_up s'" using inv same by (auto simp: purge(1) sys_inv_def stock_adds_up_def restocked_old)
    moreover have "events_add_up s'"
      unfolding purge(1) using inv same by (intro same_events [OF _ o1(2)]) (simp_all add: sys_inv_def)
    ultimately show ?thesis using purge_in_order [OF o1(1) purge(2)] by (simp add: purge(1) sys_inv_def)
  next
    case (world sv)
    then show ?thesis using inv by (simp add: sys_inv_def stock_adds_up_def events_add_up_def)
  qed
qed

lemma sys_inv_reach: "system_reach sha256 pg srv verify m s \<Longrightarrow> sys_inv sha256 m s"
proof (induction rule: system_reach.induct)
  case (start sv)
  have "in_order sha256 empty_database"
    by (simp add: in_order_def db_wf_empty) (simp add: keys_settled_def empty_database_def)
  then show ?case
    using start by (simp add: sys_inv_def system_start_def stock_adds_up_def events_add_up_def) (simp add: empty_database_def)
next
  case (step s s')
  then show ?case by (blast intro: sys_inv_step)
qed

section \<open>The outbox empties\<close>

lemma change_attempts:
  assumes "db_change sha256 c a b" "0 < m" "\<forall>r\<in>set (outbox a). ob_attempts r < m"
  shows "\<forall>r\<in>set (outbox b). ob_attempts r < m"
  using assms
  by (cases rule: db_changeE)
    (auto simp: same_rows_sel enqueue_def placed_def purchased_def settled_def claimed_def Let_def split: option.splits)

lemma attempts_below:
  assumes "system_reach sha256 pg srv verify m s" "0 < m"
  shows "\<forall>r\<in>set (outbox (sys_db s)). ob_attempts r < m"
  using assms(1)
proof (induction rule: system_reach.induct)
  case (start sv)
  then show ?case by (simp add: system_start_def) (simp add: empty_database_def)
next
  case (step s s')
  have o1: "in_order sha256 (sys_db s)" "db_wf (sys_db s)"
    using sys_inv_reach [OF step.hyps(1)] by (simp_all add: sys_inv_def in_order_def)
  show ?case
    using step.hyps(2) o1(1)
  proof (cases rule: system_step_cases)
    case (request sv)
    then show ?thesis using change_attempts [OF request(2) assms(2) step.IH] by simp
  next
    case (relay locked n b res calls b' c publish)
    then show ?thesis using drain_keeps_attempts [OF relay(1) o1(2) step.IH] by simp
  next
    case (purge sv)
    then show ?thesis using step.IH by (auto simp: purged_def)
  next
    case (world sv)
    then show ?thesis using step.IH by simp
  qed
qed

text \<open>A round of \<open>n\<close> rows with a broker that takes everything.\<close>

definition accepted_round :: "int \<Rightarrow> int \<Rightarrow> system \<Rightarrow> system" where
  "accepted_round n m s =
     (case DrainBatch (\<lambda>_. False) n m (logged (\<lambda>rec b. (None, b))) (sys_calls s, [] :: go_error option list) (sv_conn (sys_svc s)) of
        (_, (calls, _), c) \<Rightarrow> observed ((sys_svc s)\<lparr>sv_conn := c\<rparr>) calls s)"

lemma accepted_round_step: "system_step sha256 pg srv verify m s (accepted_round n m s)"
  unfolding accepted_round_def by (auto split: prod.split intro: system_step.relay)

lemma accepted_round_drains:
  assumes reach: "system_reach sha256 pg srv verify m s" and m: "0 < m" "m \<le> 1024" and n: "0 < n"
    and h: "script (sv_conn (sys_svc s)) = []"
  shows "script (sv_conn (sys_svc (accepted_round n m s))) = []"
    "clock (sv_conn (sys_svc (accepted_round n m s))) = clock (sv_conn (sys_svc s))"
    "set (outbox (sys_db (accepted_round n m s))) \<subseteq> set (outbox (sys_db s))"
    "length (backlog (sv_conn (sys_svc (accepted_round n m s)))) = length (backlog (sv_conn (sys_svc s))) - nat n"
proof -
  let ?c = "sv_conn (sys_svc s)"
  let ?d = "due (\<lambda>_. False) n (clock ?c) (tables ?c)"
  have wf: "db_wf (tables ?c)" using sys_inv_reach [OF reach] by (simp add: sys_inv_def in_order_def)
  have acc: "fst (logged (\<lambda>rec b. (None, b)) rec st) = None" for rec and st :: "(event_record \<times> go_error option) list \<times> go_error option list"
    by (simp add: logged_def split: prod.split)
  obtain b' where run: "DrainBatch (\<lambda>_. False) n m (logged (\<lambda>rec b. (None, b))) (sys_calls s, [] :: go_error option list) ?c
      = ((length ?d, int (length ?d) = n, None), b',
         ?c\<lparr>tables := (tables ?c)\<lparr>outbox := filter (\<lambda>r. r \<notin> set ?d) (outbox (tables ?c))\<rparr>\<rparr>)"
    by (rule accepting_round [OF acc h wf n attempts_below [OF reach m(1)] m(2)])
  then have conn: "sv_conn (sys_svc (accepted_round n m s))
      = ?c\<lparr>tables := (tables ?c)\<lparr>outbox := filter (\<lambda>r. r \<notin> set ?d) (outbox (tables ?c))\<rparr>\<rparr>"
    by (simp add: accepted_round_def split: prod.split)
  show "script (sv_conn (sys_svc (accepted_round n m s))) = []"
    "clock (sv_conn (sys_svc (accepted_round n m s))) = clock ?c"
    "set (outbox (sys_db (accepted_round n m s))) \<subseteq> set (outbox (sys_db s))"
    using h by (auto simp: conn)
  show "length (backlog (sv_conn (sys_svc (accepted_round n m s)))) = length (backlog ?c) - nat n"
    unfolding conn by (rule backlog_shrinks [OF wf])
qed

lemma accepted_rounds_drain:
  assumes "system_reach sha256 pg srv verify m s" "0 < m" "m \<le> 1024" "0 < n" "script (sv_conn (sys_svc s)) = []"
    and "length (backlog (sv_conn (sys_svc s))) \<le> k * nat n"
    and "\<forall>r\<in>set (outbox (sys_db s)). ob_next_attempt_at r \<le> clock (sv_conn (sys_svc s))"
  shows "system_reach sha256 pg srv verify m ((accepted_round n m ^^ k) s) \<and> outbox (sys_db ((accepted_round n m ^^ k) s)) = []"
  using assms(1,5-7)
proof (induction k arbitrary: s)
  case 0
  then have "backlog (sv_conn (sys_svc s)) = []" by simp
  then have "\<forall>r\<in>set (outbox (sys_db s)). \<not> ob_next_attempt_at r \<le> clock (sv_conn (sys_svc s))"
    by (simp add: backlog_def filter_empty_conv)
  then have "outbox (sys_db s) = []" using 0(4) by (metis list.set_intros(1) neq_Nil_conv)
  then show ?case using 0(1) by simp
next
  case (Suc k)
  note d = accepted_round_drains [OF Suc.prems(1) assms(2-4) Suc.prems(2)]
  have "system_reach sha256 pg srv verify m (accepted_round n m s)"
    using Suc.prems(1) accepted_round_step by (rule system_reach.step)
  then have "system_reach sha256 pg srv verify m ((accepted_round n m ^^ k) (accepted_round n m s))
      \<and> outbox (sys_db ((accepted_round n m ^^ k) (accepted_round n m s))) = []"
    using d Suc.prems(3,4) by (intro Suc.IH) auto
  then show ?case by (simp add: funpow_swap1)
qed

lemma accepted_rounds_queued: "set (sys_queued s) \<subseteq> set (sys_queued ((accepted_round n m ^^ k) s))"
proof (induction k)
  case (Suc k)
  have "set (sys_queued t) \<subseteq> set (sys_queued (accepted_round n m t))" for t
    by (auto simp: accepted_round_def split: prod.split)
  then show ?case using Suc by fastforce
qed simp

section \<open>The properties\<close>

text \<open>
  C19: the schema's promises hold in every state the service reaches from an empty database, whatever the
  requests, faults, relay rounds and purges: every table satisfies its checks, unique keys and references,
  stock is never negative, outbox ids are fresh, and every idempotency key names a stored order of its own
  user whose product and quantity hash to the hash stored with the key.
\<close>

theorem reachable_integrity:
  assumes "system_reach sha256 pg srv verify m s"
  shows "db_wf (sys_db s) \<and> keys_settled sha256 (sys_db s)"
  using sys_inv_reach [OF assms] by (simp add: sys_inv_def in_order_def)

text \<open>
  C2: nothing is sold twice or out of thin air. In every reachable state, the stock of a product and the
  units of it in all stored orders add up to the stock it was created with; so never more units are
  ordered than there were, whatever faults, retries and lost commits there have been.
\<close>

theorem never_oversold:
  assumes "system_reach sha256 pg srv verify m s" "r \<in> set (products (sys_db s))"
  shows "\<exists>n. sys_stocked s (p_id r) = Some n \<and> p_stock r + units_sold (p_id r) (orders (sys_db s)) = n
    \<and> 0 \<le> p_stock r \<and> 0 \<le> units_sold (p_id r) (orders (sys_db s)) \<and> units_sold (p_id r) (orders (sys_db s)) \<le> n"
proof -
  have inv: "db_wf (sys_db s)" "stock_adds_up s"
    using sys_inv_reach [OF assms(1)] by (simp_all add: sys_inv_def in_order_def)
  moreover have "0 \<le> p_stock r" using inv(1) assms(2) by (auto simp: schema_defs products_check_def)
  ultimately show ?thesis using assms(2) units_sold_nonneg [OF inv(1)] by (auto simp: stock_adds_up_def)
qed

text \<open>
  C3: every order is announced, once, in order, and no event is lost. In every reachable state the
  purchase events queued so far are those of the stored orders, one per order and in their order; every
  event ever queued has an outbox id of its own, and is still pending, or was taken by the broker, or
  is a dead letter that the broker refused for good.
\<close>

theorem orders_announced:
  assumes "system_reach sha256 pg srv verify m s"
  shows "List.map_filter sale_of (map snd (sys_queued s)) = map order_sale (orders (sys_db s))
    \<and> distinct (map fst (sys_queued s)) \<and> (\<forall>x\<in>set (sys_queued s). event_kept (sys_calls s) (sys_db s) x)"
  using sys_inv_reach [OF assms] by (simp add: sys_inv_def events_add_up_def)

text \<open>
  C4: every event gets out. From every reachable state, however it came about, once the database answers
  again, the broker takes what it is sent and the pending rows are due, enough rounds of the relay for the
  backlog leave the outbox empty; and then every event queued up to that state was taken by the broker, or is a
  dead letter that the broker had refused for good. The attempts limit is at most 1024, above which the
  backoff statement can overflow (\<open>drain_blocked_by_overflow\<close>).
\<close>

theorem backlog_delivered:
  assumes reach: "system_reach sha256 pg srv verify m s" "0 < m" "m \<le> 1024"
    and healthy: "script (sv_conn (sys_svc s)) = []"
    and due: "\<forall>r\<in>set (outbox (sys_db s)). ob_next_attempt_at r \<le> clock (sv_conn (sys_svc s))"
    and rounds: "0 < n" "length (backlog (sv_conn (sys_svc s))) \<le> k * nat n"
  shows "let t = (accepted_round n m ^^ k) s in outbox (sys_db t) = []
    \<and> (\<forall>x\<in>set (sys_queued s). (snd x, None) \<in> set (sys_calls t)
        \<or> (\<exists>d\<in>set (outbox_dead (sys_db t)). dead_event d = x \<and> errors_is (od_last_error d) ErrUndeliverable))"
proof -
  let ?t = "(accepted_round n m ^^ k) s"
  have t: "system_reach sha256 pg srv verify m ?t" "outbox (sys_db ?t) = []"
    using accepted_rounds_drain [OF reach rounds(1) healthy rounds(2) due] by simp_all
  have "event_kept (sys_calls ?t) (sys_db ?t) x" if "x \<in> set (sys_queued s)" for x
    using sys_inv_reach [OF t(1)] that accepted_rounds_queued [of s k n m] by (auto simp: sys_inv_def events_add_up_def)
  then show ?thesis using t(2) by (auto simp: Let_def event_kept_def)
qed

text \<open>A request for an order, and its retry over tables that still have the order and its key.\<close>

lemma placed_order_answers:
  assumes req: "grpc_request_of r = Some (CreateOrderRequest raw q)"
    and w: "rw_status w = None" "map_of (rw_header w) ''Idempotency-Replayed'' = None"
    and caller: "http_caller verify r = Some u" "verified_caller verify cx = Some u"
    and key: "get_first (rq_header r) ''Idempotency-Key'' = metadata_key cx"
    and first: "sv' = snd (snd (NewMux (service_processor sha256 pg srv dr) (http_Auth verify) r w sv))
      \<or> sv' = snd (grpc_serve now d verify (service_processor sha256 pg srv dr) cx (CreateOrderRequest raw q) sv)"
    and wf: "db_wf (tables (sv_conn sv))" "keys_settled sha256 (tables (sv_conn sv))"
    and effect: "orders (tables (sv_conn sv')) \<noteq> orders (tables (sv_conn sv))"
    and retry: "script (sv_conn tv) = []"
      "keeps_rows (clock (sv_conn tv)) (tables (sv_conn sv')) (tables (sv_conn tv))"
      "in_order sha256 (tables (sv_conn sv')) \<Longrightarrow> in_order sha256 (tables (sv_conn tv))"
      "clock (sv_conn tv) \<le> clock (sv_conn sv) + interval_us (idempotencyTTL pg)"
  shows "\<exists>x w'. grpc_serve now' d verify (service_processor sha256 pg srv dr') cx (CreateOrderRequest raw q) tv
        = (Returned \<lparr>rp_header = [(''idempotency-replayed'', ''true'')], rp_reply = Inr (CreateOrderResponse x)\<rparr>, tv)
    \<and> NewMux (service_processor sha256 pg srv dr') (http_Auth verify) r w tv = (True, w', tv)
    \<and> status_of w' = 201 \<and> map_of (rw_header w') ''Idempotency-Replayed'' = Some ''true''
    \<and> rw_body w' = rw_body w @ [if encodable (proto_order_json x) then Json (proto_order_json x) else PlainText msgEncodeFailed]
    \<and> op_id x = uuid_string (dr_newV7 dr)"
proof -
  have same: "same_outcome w (NewMux P (http_Auth verify) r w s) (grpc_serve t d verify P cx (CreateOrderRequest raw q) s)"
    for P :: "svc processor" and s t
    by (rule same_call [OF req w _ key]) (simp add: caller)
  let ?P = "service_processor sha256 pg srv dr" and ?P2 = "service_processor sha256 pg srv dr'"
  have "in_order sha256 (tables (sv_conn sv'))"
    using first sys.http_effect [of sha256 sv pg srv dr verify r w] wf
      sys.grpc_effect [of sha256 sv now d verify pg srv dr cx "CreateOrderRequest raw q"]
    by (auto simp: svc_effect_def op_effect_def in_order_def)
  then have kept: "keeps_orders sha256 (clock (sv_conn tv)) (tables (sv_conn sv')) (tables (sv_conn tv))"
    using keeps_orders_rows retry(2,3) by blast
  obtain out where "grpc_serve now d verify ?P cx (CreateOrderRequest raw q) sv = (out, sv')"
    using first same [of ?P sv now] by (metis prod.collapse same_outcome_def)
  from grpc_order_replays [OF caller(2,2) refl this wf effect retry(1) kept retry(4)]
  obtain x where x: "grpc_serve now' d verify ?P2 cx (CreateOrderRequest raw q) tv
      = (Returned \<lparr>rp_header = [(''idempotency-replayed'', ''true'')], rp_reply = Inr (CreateOrderResponse x)\<rparr>, tv)"
    "op_id x = uuid_string (dr_newV7 dr)"
    by blast
  obtain ok w' s' where run: "NewMux ?P2 (http_Auth verify) r w tv = (ok, w', s')" by (metis prod.collapse)
  then show ?thesis
    using same [of ?P2 tv now'] x by (auto simp: same_outcome_def same_reply_def)
qed

text \<open>
  C1: an order is placed once, whatever happens in between. If a request to place an order stored one,
  through HTTP or gRPC and whatever the client saw of it, then the same request by the same user under
  the same key is answered as a replay of that order, without any change, after any further history of
  the service: other clients' orders, changed and deleted products, rounds of the relay and purges of
  the janitor, provided none of it happened at a later time than the retry, which itself comes within
  the retention time and on a healthy connection.
\<close>

theorem order_placed_once_in_any_history:
  assumes req: "grpc_request_of r = Some (CreateOrderRequest raw q)"
    and w: "rw_status w = None" "map_of (rw_header w) ''Idempotency-Replayed'' = None"
    and caller: "http_caller verify r = Some u" "verified_caller verify cx = Some u"
    and key: "get_first (rq_header r) ''Idempotency-Key'' = metadata_key cx"
    and reach: "system_reach sha256 pg srv verify m s"
    and first: "sv' = snd (snd (NewMux (service_processor sha256 pg srv dr) (http_Auth verify) r w (sys_svc s)))
      \<or> sv' = snd (grpc_serve now d verify (service_processor sha256 pg srv dr) cx (CreateOrderRequest raw q) (sys_svc s))"
    and effect: "orders (tables (sv_conn sv')) \<noteq> orders (sys_db s)"
    and history: "system_runs sha256 pg srv verify m (clock (sv_conn (sys_svc t))) (observed sv' (sys_calls s) s) t"
    and retry: "script (sv_conn (sys_svc t)) = []"
      "clock (sv_conn (sys_svc t)) \<le> clock (sv_conn (sys_svc s)) + interval_us (idempotencyTTL pg)"
  shows "\<exists>x w'. grpc_serve now' d verify (service_processor sha256 pg srv dr') cx (CreateOrderRequest raw q) (sys_svc t)
        = (Returned \<lparr>rp_header = [(''idempotency-replayed'', ''true'')], rp_reply = Inr (CreateOrderResponse x)\<rparr>, sys_svc t)
    \<and> NewMux (service_processor sha256 pg srv dr') (http_Auth verify) r w (sys_svc t) = (True, w', sys_svc t)
    \<and> status_of w' = 201 \<and> map_of (rw_header w') ''Idempotency-Replayed'' = Some ''true''
    \<and> rw_body w' = rw_body w @ [if encodable (proto_order_json x) then Json (proto_order_json x) else PlainText msgEncodeFailed]
    \<and> op_id x = uuid_string (dr_newV7 dr)"
proof -
  have start: "in_order sha256 (sys_db s)" using sys_inv_reach [OF reach] by (simp add: sys_inv_def)
  then have "in_order sha256 (tables (sv_conn sv'))"
    using first sys.http_effect [of sha256 "sys_svc s" pg srv dr verify r w]
      sys.grpc_effect [of sha256 "sys_svc s" now d verify pg srv dr cx "CreateOrderRequest raw q"]
    by (auto simp: svc_effect_def op_effect_def)
  then have "in_order sha256 (sys_db t)" "keeps_rows (clock (sv_conn (sys_svc t))) (tables (sv_conn sv')) (sys_db t)"
    using runs_keep_rows [OF history] by simp_all
  then show ?thesis
    using placed_order_answers [OF req w caller key first _ _ effect retry(1) _ _ retry(2)] start
    by (simp add: in_order_def)
qed


section \<open>A sample history\<close>

text \<open>
  A shop opens, a product with ten units is created, an order of four commits although its client sees
  an error, the connection recovers, and a minute later the janitor purges.
\<close>

definition sample_opened :: system where
  "sample_opened = system_start (sample_svc\<lparr>sv_conn := healthy empty_database\<rparr>)"

definition sample_stocked :: system where
  "sample_stocked = observed (snd (grpc_serve 0 5 sample_verify
     (service_processor (\<lambda>x. x) (NewPostgres 86400000000000) sample_service (sample_draws\<lparr>dr_newV7 := 7, dr_event := 49\<rparr>))
     sample_ctx (CreateProductRequest ''widget'' (Some \<lparr>mp_minor_amount = 999, mp_currency = ''PLN''\<rparr>) 10)
     (sys_svc sample_opened))) [] sample_opened"

definition sample_faulty :: system where
  "sample_faulty = sample_stocked\<lparr>sys_svc := (sys_svc sample_stocked)
     \<lparr>sv_conn := (sv_conn (sys_svc sample_stocked))\<lparr>script := script lost_commit\<rparr>\<rparr>\<rparr>"

definition sample_sold :: system where
  "sample_sold = observed (snd (grpc_serve 0 5 sample_verify sample_processor sample_ctx
     (CreateOrderRequest (uuid_string 7) 4) (sys_svc sample_faulty))) [] sample_faulty"

definition sample_healed :: system where
  "sample_healed = sample_sold\<lparr>sys_svc := (sys_svc sample_sold)
     \<lparr>sv_conn := (sv_conn (sys_svc sample_sold))\<lparr>script := [], clock := 60\<rparr>\<rparr>\<rparr>"

definition sample_purged :: system where
  "sample_purged = observed ((sys_svc sample_healed)\<lparr>sv_conn := snd (PurgeIdempotencyKeys (sv_conn (sys_svc sample_healed)))\<rparr>)
     (sys_calls sample_healed) sample_healed"

lemma sample_stocked_conn:
  "sv_conn (sys_svc sample_stocked) = healthy (enqueue (event_New 49 0 TypeCreated (scanProduct (sample_row 7 10))) 0
     (empty_database\<lparr>products := [sample_row 7 10]\<rparr>))"
proof -
  have "product_Validate (zero_product\<lparr>prod_Name := ''widget'',
      prod_Price := \<lparr>MinorAmount = 999, Currency = ''PLN''\<rparr>, prod_Stock := 10\<rparr>) = None"
    by (simp add: product_Validate_None zero_product_def currency_Valid_def currency_defs)
  moreover have "queryInsert 7 ''widget'' 999 ''PLN'' 10 0 empty_database
      = Inr ([1], empty_database\<lparr>products := [sample_row 7 10]\<rparr>)"
    by code_simp
  ultimately show ?thesis
    by (simp add: sample_stocked_def sample_opened_def system_start_def grpc_serve_eq requireAuth_def publicMethods_def
        CreateProduct_def reply_def service_processor_def sample_draws_def service_Create_def on_store_def
        store_Save_run healthy_def toDomainMoney_def Let_def scanProduct_def sample_row_def)
      (simp add: zero_product_def)
qed


lemma sample_sale_run:
  "\<exists>e c. store_CreateOrder (\<lambda>x. x) (NewPostgres 86400000000000) 50 0 sample_request ''k1''
      (sv_conn (sys_svc sample_faulty)) = (Inl e, c)
    \<and> products (tables c) = [sold_row 4 (sample_row 7 10)] \<and> map o_id (orders (tables c)) = [40] \<and> clock c = 0"
  by (simp add: sample_faulty_def sample_stocked_conn healthy_def enqueue_def run_defs lost_commit_def sample_request_def
      sample_row_def empty_database_def NewPostgres_def interval_us_def sold_row_def)

lemma sample_sold_facts:
  "products (sys_db sample_sold) = [sold_row 4 (sample_row 7 10)]" "map o_id (orders (sys_db sample_sold)) = [40]"
  "clock (sv_conn (sys_svc sample_sold)) = 0"
proof -
  have "idempotencyFromMetadata sample_ctx = Inr ''k1''"
    by (simp add: idempotencyFromMetadata_def sample_ctx_def md_Get_def metaIdempotencyKey_def MaxIdempotencyKeyLen_def)
  moreover have "new_order 40 1 7 4 = sample_request" by (simp add: new_order_def sample_request_def)
  ultimately show "products (sys_db sample_sold) = [sold_row 4 (sample_row 7 10)]" "map o_id (orders (sys_db sample_sold)) = [40]"
    "clock (sv_conn (sys_svc sample_sold)) = 0"
    using sample_sale_run
    by (auto simp: sample_sold_def is_order_request_def grpc_serve_order [OF _ sample_caller] CreateOrder_def
        ValidPurchaseQuantity_def minPurchaseQuantity_def maxPurchaseQuantity_def service_processor_def
        sample_draws_def service_CreateOrder_def on_store_def reply_def)
qed

abbreviation sample_step :: "system \<Rightarrow> system \<Rightarrow> bool" where
  "sample_step \<equiv> system_step (\<lambda>x. x) (NewPostgres 86400000000000) sample_service sample_verify 3"

abbreviation sample_reach :: "system \<Rightarrow> bool" where
  "sample_reach \<equiv> system_reach (\<lambda>x. x) (NewPostgres 86400000000000) sample_service sample_verify 3"

lemma sample_steps:
  "sample_step sample_opened sample_stocked" "sample_step sample_stocked sample_faulty" "sample_step sample_faulty sample_sold"
  "sample_step sample_sold sample_healed" "sample_step sample_healed sample_purged"
proof -
  have calls: "sys_calls sample_opened = []" "sys_calls sample_faulty = []"
    by (simp_all add: sample_opened_def sample_faulty_def sample_stocked_def system_start_def)
  show "sample_step sample_opened sample_stocked" "sample_step sample_faulty sample_sold"
    unfolding sample_stocked_def sample_sold_def
    using system_step.grpc [OF surjective_pairing, where s = sample_opened] system_step.grpc [OF surjective_pairing, where s = sample_faulty]
    by (metis calls)+
  show "sample_step sample_stocked sample_faulty" "sample_step sample_sold sample_healed"
    unfolding sample_faulty_def sample_healed_def by (rule system_step.world; simp)+
  show "sample_step sample_healed sample_purged"
    unfolding sample_purged_def by (rule system_step.janitor [OF surjective_pairing])
qed

lemma sample_reached: "sample_reach sample_faulty" "sample_reach sample_sold" "sample_reach sample_purged"
proof -
  have start: "sample_reach sample_opened"
    unfolding sample_opened_def by (rule system_reach.start) (simp add: healthy_def)
  show f: "sample_reach sample_faulty" using start sample_steps(1,2) by (blast intro: system_reach.step)
  show s: "sample_reach sample_sold" using f sample_steps(3) by (rule system_reach.step)
  show "sample_reach sample_purged" using s sample_steps(4,5) by (blast intro: system_reach.step)
qed

theorem reachable_integrity_witness:
  "db_wf (sys_db sample_purged) \<and> keys_settled (\<lambda>x. x) (sys_db sample_purged)"
  using reachable_integrity [OF sample_reached(3)] .

theorem never_oversold_witness:
  "\<exists>n. sys_stocked sample_sold 7 = Some n \<and> 6 + units_sold 7 (orders (sys_db sample_sold)) = n"
  using never_oversold [OF sample_reached(2), of "sold_row 4 (sample_row 7 10)"] sample_sold_facts(1)
  by (auto simp: sold_row_def sample_row_def)

theorem orders_announced_witness:
  "List.map_filter sale_of (map snd (sys_queued sample_purged)) = map order_sale (orders (sys_db sample_purged))"
  using orders_announced [OF sample_reached(3)] by simp


lemma sample_purged_conn: "script (sv_conn (sys_svc sample_purged)) = []" "clock (sv_conn (sys_svc sample_purged)) = 60"
  by (simp_all add: sample_purged_def sample_healed_def PurgeIdempotencyKeys_def tx_catch_def tx_exec_def next_fault_def
      queryPurgeIdempotency_def)

lemma sample_history:
  "system_runs (\<lambda>x. x) (NewPostgres 86400000000000) sample_service sample_verify 3 60 sample_sold sample_purged"
proof -
  have "clock (sv_conn (sys_svc sample_healed)) = 60" by (simp add: sample_healed_def)
  then show ?thesis
    using system_runs.more [OF system_runs.more [OF system_runs.none _ sample_steps(4)] _ sample_steps(5), of 60]
    by (simp add: sample_sold_facts(3))
qed

theorem order_placed_once_in_any_history_witness:
  "\<exists>(x :: order_proto) w'. NewMux sample_processor (http_Auth sample_verify) sample_post fresh_writer (sys_svc sample_purged)
      = (True, w', sys_svc sample_purged)
    \<and> status_of w' = 201 \<and> map_of (rw_header w') ''Idempotency-Replayed'' = Some ''true''
    \<and> op_id x = uuid_string 40"
proof -
  let ?sv = "snd (grpc_serve 0 5 sample_verify sample_processor sample_ctx (CreateOrderRequest (uuid_string 7) 4) (sys_svc sample_faulty))"
  have post: "http_caller sample_verify sample_post = Some 1" using sample_post_facts(2) sample_caller by simp
  have fresh: "rw_status fresh_writer = None" "map_of (rw_header fresh_writer) ''Idempotency-Replayed'' = None"
    by (simp_all add: fresh_status)
  have calls: "sys_calls sample_faulty = []"
    by (simp add: sample_opened_def sample_faulty_def sample_stocked_def system_start_def)
  then have sold: "observed ?sv (sys_calls sample_faulty) sample_faulty = sample_sold" by (simp add: sample_sold_def)
  have "tables (sv_conn ?sv) = sys_db sample_sold" by (simp add: sample_sold_def)
  moreover have "orders (sys_db sample_faulty) = []"
    by (simp add: sample_faulty_def sample_stocked_conn healthy_def enqueue_def empty_database_def)
  ultimately have effect: "orders (tables (sv_conn ?sv)) \<noteq> orders (sys_db sample_faulty)"
    using sample_sold_facts(2) by auto
  have history: "system_runs (\<lambda>x. x) (NewPostgres 86400000000000) sample_service sample_verify 3
      (clock (sv_conn (sys_svc sample_purged))) (observed ?sv (sys_calls sample_faulty) sample_faulty) sample_purged"
    unfolding sold sample_purged_conn(2) by (rule sample_history)
  have "clock (sv_conn (sys_svc sample_faulty)) = 0" by (simp add: sample_faulty_def sample_stocked_conn healthy_def)
  then have time: "clock (sv_conn (sys_svc sample_purged))
      \<le> clock (sv_conn (sys_svc sample_faulty)) + interval_us (idempotencyTTL (NewPostgres 86400000000000))"
    by (simp add: sample_purged_conn lost_commit_facts(3))
  have new: "dr_newV7 sample_draws = 40" by (simp add: sample_draws_def)
  show ?thesis
    using order_placed_once_in_any_history [OF sample_post_facts(1) fresh post sample_caller sample_post_facts(3)
        sample_reached(1) disjI2 [OF refl] effect history sample_purged_conn(1) time, of 9 sample_draws, unfolded new]
    by blast
qed

theorem backlog_delivered_witness:
  "let t = accepted_round 25 3 sample_stocked in outbox (sys_db t) = []
    \<and> (\<forall>x\<in>set (sys_queued sample_stocked). (snd x, None) \<in> set (sys_calls t) \<or> outbox_dead (sys_db t) \<noteq> [])"
proof -
  have reach: "sample_reach sample_stocked"
    using system_reach.step [OF system_reach.start sample_steps(1) [unfolded sample_opened_def]] by (simp add: healthy_def)
  have "\<forall>r\<in>set (outbox (sys_db sample_stocked)). ob_next_attempt_at r \<le> clock (sv_conn (sys_svc sample_stocked))"
    "length (backlog (sv_conn (sys_svc sample_stocked))) \<le> 1 * nat 25" "script (sv_conn (sys_svc sample_stocked)) = []"
    by (simp_all add: sample_stocked_conn healthy_def enqueue_def empty_database_def backlog_def)
  then show ?thesis
    using backlog_delivered [OF reach, of 25 1] by (fastforce simp: Let_def)
qed

end
