(* ===== verification/Concurrency.thy ===== *)
theory Concurrency
  imports Changes
begin

text \<open>
  Transactions side by side. The other theories run an operation of the store as a whole; here any number of
  creations, updates, deletions and order placements are under way at once, one SQL statement of one of them
  at a time, as under Postgres' read committed isolation: a statement sees what is committed and what its own
  transaction wrote; a row or unique key that another open transaction wrote cannot be written until that
  transaction ends; the numbers of the outbox's identity column are handed out at once and never taken back; and
  \<open>now()\<close> is the start of the transaction. A transaction's rows become visible together, when it commits.
\<close>

section \<open>Transactions\<close>

text \<open>The writing operations of \<open>internal/store\<close>. What each does to the product is a row put in place, or one dropped.\<close>

datatype job = Adding product | Changing product | Removing uuid | Buying order idempotency_key

datatype row_change = Put products_row | Drop uuid int

fun change_id :: "row_change \<Rightarrow> uuid" where
  "change_id (Put r) = p_id r"
| "change_id (Drop i v) = i"

fun change_product :: "row_change \<Rightarrow> product" where
  "change_product (Put r) = scanProduct r"
| "change_product (Drop i v) = zero_product\<lparr>prod_ID := i, prod_Version := v\<rparr>"

fun install_change :: "row_change \<Rightarrow> products_row list \<Rightarrow> products_row list" where
  "install_change (Put r) ps = (if find_key p_id (p_id r) ps = None then ps @ [r] else update_key p_id (p_id r) (\<lambda>_. r) ps)"
| "install_change (Drop i v) ps = delete_key p_id i ps"

fun job_product :: "job \<Rightarrow> uuid" where
  "job_product (Adding p) = prod_ID p"
| "job_product (Changing p) = prod_ID p"
| "job_product (Removing i) = i"
| "job_product (Buying o1 idem) = ord_ProductID o1"

text \<open>The statement that writes the product. An error or no row ends the transaction in a rollback.\<close>

fun put_first :: "go_error + (products_row list \<times> database) \<Rightarrow> row_change option" where
  "put_first (Inr (r # rs, db)) = Some (Put r)"
| "put_first _ = None"

fun job_write :: "job \<Rightarrow> timestamp \<Rightarrow> database \<Rightarrow> row_change option" where
  "job_write (Adding p) now db =
     (case queryInsert (prod_ID p) (prod_Name p) (MinorAmount (prod_Price p)) (Currency (prod_Price p)) (prod_Stock p) now db of
        Inr (v, db1) \<Rightarrow> Some (Put (last (products db1))) | Inl e \<Rightarrow> None)"
| "job_write (Changing p) now db =
     put_first (queryUpdate (prod_ID p) (prod_Name p) (MinorAmount (prod_Price p)) (Currency (prod_Price p)) now db)"
| "job_write (Removing i) now db = (case queryDelete i now db of Inr (v # vs, db1) \<Rightarrow> Some (Drop i v) | _ \<Rightarrow> None)"
| "job_write (Buying o1 idem) now db = put_first (queryPurchase (ord_ProductID o1) (ord_Quantity o1) now db)"

text \<open>The event its outcome is announced by.\<close>

fun job_event :: "uuid \<Rightarrow> timestamp \<Rightarrow> job \<Rightarrow> row_change \<Rightarrow> event" where
  "job_event eid at (Adding p) c = event_New eid at TypeCreated (p\<lparr>prod_Version := prod_Version (change_product c)\<rparr>)"
| "job_event eid at (Changing p) c = event_New eid at TypeUpdated (change_product c)"
| "job_event eid at (Removing i) c = event_New eid at TypeDeleted (change_product c)"
| "job_event eid at (Buying o1 idem) c = NewPurchased eid at (change_product c) (ord_Quantity o1)"

text \<open>An open transaction: what it is to do, the start that is its \<open>now()\<close>, and the rows it has written.\<close>

record worker =
  wk_job :: job
  wk_eid :: uuid
  wk_at :: timestamp
  wk_now :: timestamp
  wk_key :: "idempotency_row option"
  wk_row :: "row_change option"
  wk_order :: "orders_row option"
  wk_out :: "outbox_table_row option"

definition open_tx :: "job \<Rightarrow> uuid \<Rightarrow> timestamp \<Rightarrow> timestamp \<Rightarrow> worker" where
  "open_tx job eid at now = \<lparr>wk_job = job, wk_eid = eid, wk_at = at, wk_now = now, wk_key = None, wk_row = None,
     wk_order = None, wk_out = None\<rparr>"

text \<open>What its statements see, which is also what its commit makes visible.\<close>

definition upsert_key :: "idempotency_row \<Rightarrow> idempotency_row list \<Rightarrow> idempotency_row list" where
  "upsert_key k ks = (if find_key ik_pk (ik_pk k) ks = None then ks @ [k] else update_key ik_pk (ik_pk k) (\<lambda>_. k) ks)"

definition seen :: "worker \<Rightarrow> database \<Rightarrow> database" where
  "seen w db =
     db\<lparr>products := (case wk_row w of None \<Rightarrow> products db | Some c \<Rightarrow> install_change c (products db)),
        orders := orders db @ (case wk_order w of None \<Rightarrow> [] | Some x \<Rightarrow> [x]),
        idempotency_keys := (case wk_key w of None \<Rightarrow> idempotency_keys db | Some k \<Rightarrow> upsert_key k (idempotency_keys db)),
        outbox := outbox db @ (case wk_out w of None \<Rightarrow> [] | Some ev \<Rightarrow> [ev]),
        wakeups := wakeups db + (case wk_out w of None \<Rightarrow> 0 | Some ev \<Rightarrow> 1)\<rparr>"

section \<open>Locks\<close>

text \<open>
  A row or a unique key that a statement writes is locked until the transaction ends. The next lock a
  transaction needs is that of its idempotency key, then that of the product, then that of the order's id.
\<close>

datatype lock = KeyLock uuid string | ProductLock uuid | OrderLock uuid

definition held :: "worker \<Rightarrow> lock set" where
  "held w = (case wk_key w of None \<Rightarrow> {} | Some k \<Rightarrow> {KeyLock (ik_user_id k) (ik_key k)})
     \<union> (case wk_row w of None \<Rightarrow> {} | Some c \<Rightarrow> {ProductLock (change_id c)})
     \<union> (case wk_order w of None \<Rightarrow> {} | Some x \<Rightarrow> {OrderLock (o_id x)})"

definition next_lock :: "worker \<Rightarrow> lock option" where
  "next_lock w =
     (case wk_job w of
        Buying o1 idem \<Rightarrow>
          if wk_key w = None then Some (KeyLock (ord_UserID o1) idem)
          else if wk_row w = None then Some (ProductLock (ord_ProductID o1))
          else if wk_order w = None then Some (OrderLock (ord_ID o1))
          else None
      | job \<Rightarrow> if wk_row w = None then Some (ProductLock (job_product job)) else None)"

section \<open>The steps\<close>

text \<open>The committed tables, the open transactions, and as a history the outbox numbers and events in the order of the commits.\<close>

record cluster =
  cl_db :: database
  cl_workers :: "nat \<Rightarrow> worker option"
  cl_log :: "(int \<times> event) list"

definition waits_for :: "cluster \<Rightarrow> nat \<Rightarrow> nat \<Rightarrow> bool" where
  "waits_for s i j \<longleftrightarrow> i \<noteq> j \<and> (\<exists>w v l. cl_workers s i = Some w \<and> cl_workers s j = Some v
     \<and> next_lock w = Some l \<and> l \<in> held v)"

abbreviation runs_on :: "cluster \<Rightarrow> nat \<Rightarrow> worker option \<Rightarrow> cluster" where
  "runs_on s i w \<equiv> s\<lparr>cl_workers := (cl_workers s)(i := w)\<rparr>"

inductive cluster_step :: "(string \<Rightarrow> string) \<Rightarrow> postgres \<Rightarrow> cluster \<Rightarrow> cluster \<Rightarrow> bool" for sha256 pg where
  begin_tx: "cl_workers s i = None \<Longrightarrow> cluster_step sha256 pg s (runs_on s i (Some (open_tx job eid at now)))"
| claim_key: "cl_workers s i = Some w \<Longrightarrow> wk_job w = Buying o1 idem \<Longrightarrow> next_lock w = Some (KeyLock u k) \<Longrightarrow>
    \<forall>j. \<not> waits_for s i j \<Longrightarrow>
    queryInsertIdempotency (ord_UserID o1) idem (hashOrderRequest sha256 o1) (interval_us (idempotencyTTL pg))
      (wk_now w) (seen w (cl_db s)) = Inr (n, db1) \<Longrightarrow> 0 < n \<Longrightarrow>
    cluster_step sha256 pg s
      (runs_on s i (Some (w\<lparr>wk_key := find_key ik_pk (ord_UserID o1, idem) (idempotency_keys db1)\<rparr>)))"
| write_row: "cl_workers s i = Some w \<Longrightarrow> next_lock w = Some (ProductLock p) \<Longrightarrow> \<forall>j. \<not> waits_for s i j \<Longrightarrow>
    job_write (wk_job w) (wk_now w) (seen w (cl_db s)) = Some c \<Longrightarrow>
    cluster_step sha256 pg s (runs_on s i (Some (w\<lparr>wk_row := Some c\<rparr>)))"
| insert_order: "cl_workers s i = Some w \<Longrightarrow> wk_job w = Buying o1 idem \<Longrightarrow> next_lock w = Some (OrderLock x) \<Longrightarrow>
    \<forall>j. \<not> waits_for s i j \<Longrightarrow> wk_row w = Some c \<Longrightarrow>
    queryInsertOrder (ord_ID o1) (ord_UserID o1) (ord_ProductID o1) (ord_Quantity o1)
      (MinorAmount (prod_Price (change_product c))) (Currency (prod_Price (change_product c)))
      (wk_now w) (seen w (cl_db s)) = Inr (created, db1) \<Longrightarrow>
    cluster_step sha256 pg s (runs_on s i (Some (w\<lparr>wk_order := Some (last (orders db1))\<rparr>)))"
| queue_event: "cl_workers s i = Some w \<Longrightarrow> next_lock w = None \<Longrightarrow> wk_row w = Some c \<Longrightarrow> wk_out w = None \<Longrightarrow>
    e = job_event (wk_eid w) (wk_at w) (wk_job w) c \<Longrightarrow>
    queryInsertOutbox (EventID e) (EventType e) (event_json e) (wk_now w) (seen w (cl_db s)) = Inr (n, db1) \<Longrightarrow>
    cluster_step sha256 pg s
      (runs_on (s\<lparr>cl_db := (cl_db s)\<lparr>outbox_seq := outbox_seq db1\<rparr>\<rparr>) i (Some (w\<lparr>wk_out := Some (last (outbox db1))\<rparr>)))"
| settle_key: "cl_workers s i = Some w \<Longrightarrow> wk_job w = Buying o1 idem \<Longrightarrow> wk_out w = Some ev \<Longrightarrow>
    queryUpdateIdempotencyResult (ord_UserID o1) idem (ord_ID o1) (wk_now w) (seen w (cl_db s)) = Inr (n, db1) \<Longrightarrow>
    cluster_step sha256 pg s
      (runs_on s i (Some (w\<lparr>wk_key := find_key ik_pk (ord_UserID o1, idem) (idempotency_keys db1)\<rparr>)))"
| commit_tx: "cl_workers s i = Some w \<Longrightarrow> wk_row w = Some c \<Longrightarrow> wk_out w = Some ev \<Longrightarrow>
    \<forall>k. wk_key w = Some k \<longrightarrow> ik_order_id k \<noteq> None \<Longrightarrow>
    cluster_step sha256 pg s
      (runs_on (s\<lparr>cl_db := seen w (cl_db s),
         cl_log := cl_log s @ [(ob_id ev, job_event (wk_eid w) (wk_at w) (wk_job w) c)]\<rparr>) i None)"
| roll_back: "cluster_step sha256 pg s (runs_on s i None)"

inductive_cases cluster_stepE [consumes 1, case_names begin_tx claim_key write_row insert_order queue_event
    settle_key commit_tx roll_back]: "cluster_step sha256 pg s s'"

definition cluster_start :: "database \<Rightarrow> cluster" where
  "cluster_start db = \<lparr>cl_db = db, cl_workers = (\<lambda>_. None), cl_log = []\<rparr>"

inductive cluster_reach :: "(string \<Rightarrow> string) \<Rightarrow> postgres \<Rightarrow> database \<Rightarrow> cluster \<Rightarrow> bool" for sha256 pg db0 where
  init: "cluster_reach sha256 pg db0 (cluster_start db0)"
| step: "cluster_reach sha256 pg db0 s \<Longrightarrow> cluster_step sha256 pg s s' \<Longrightarrow> cluster_reach sha256 pg db0 s'"

section \<open>One after the other\<close>

text \<open>
  The reference: a committed operation of the store, run alone on a healthy connection. Two databases are the same
  but for the numbers of the identity column.
\<close>

inductive serial_commit :: "(string \<Rightarrow> string) \<Rightarrow> postgres \<Rightarrow> database \<Rightarrow> database \<Rightarrow> bool" for sha256 pg where
  Save: "store_Save eid at p \<lparr>tables = a, clock = now, script = []\<rparr> = (Inr x, c) \<Longrightarrow> serial_commit sha256 pg a (tables c)"
| Update: "store_Update eid at p \<lparr>tables = a, clock = now, script = []\<rparr> = (Inr x, c) \<Longrightarrow> serial_commit sha256 pg a (tables c)"
| Delete: "store_Delete eid at i \<lparr>tables = a, clock = now, script = []\<rparr> = (Inr x, c) \<Longrightarrow> serial_commit sha256 pg a (tables c)"
| Order: "store_CreateOrder sha256 pg eid at o1 idem \<lparr>tables = a, clock = now, script = []\<rparr> = (Inr (x, False), c) \<Longrightarrow>
    serial_commit sha256 pg a (tables c)"

definition unnumbered :: "outbox_table_row \<Rightarrow> outbox_table_row" where
  "unnumbered r = r\<lparr>ob_id := 0\<rparr>"

definition same_but_numbers :: "database \<Rightarrow> database \<Rightarrow> bool" where
  "same_but_numbers a b \<longleftrightarrow> products a = products b \<and> orders a = orders b \<and> idempotency_keys a = idempotency_keys b
     \<and> outbox_dead a = outbox_dead b \<and> wakeups a = wakeups b
     \<and> map unnumbered (outbox a) = map unnumbered (outbox b)"

section \<open>What an open transaction knows\<close>

text \<open>
  The rows a transaction has written are what it would write now, because nobody else may write them: they
  were computed from committed rows that have not changed since.
\<close>

definition key_ok :: "(string \<Rightarrow> string) \<Rightarrow> postgres \<Rightarrow> database \<Rightarrow> worker \<Rightarrow> bool" where
  "key_ok sha256 pg db w \<longleftrightarrow> (\<forall>k. wk_key w = Some k \<longrightarrow> (\<exists>o1 idem. wk_job w = Buying o1 idem \<and> text_ok idem
     \<and> live_key (ord_UserID o1) idem (wk_now w) db = None
     \<and> k \<in> {\<lparr>ik_user_id = ord_UserID o1, ik_key = idem, ik_request_hash = hashOrderRequest sha256 o1, ik_order_id = x,
          ik_expires_at = wk_now w + interval_us (idempotencyTTL pg)\<rparr> | x. x = None \<or> x = Some (ord_ID o1)}))"

definition row_ok :: "database \<Rightarrow> worker \<Rightarrow> bool" where
  "row_ok db w \<longleftrightarrow> (\<forall>c. wk_row w = Some c \<longrightarrow> job_write (wk_job w) (wk_now w) db = Some c
     \<and> (\<forall>o1 idem. wk_job w = Buying o1 idem \<longrightarrow> wk_key w \<noteq> None))"

definition order_ok :: "database \<Rightarrow> worker \<Rightarrow> bool" where
  "order_ok db w \<longleftrightarrow> (\<forall>x. wk_order w = Some x \<longrightarrow> (\<exists>o1 idem r. wk_job w = Buying o1 idem
     \<and> wk_row w = Some (Put (sold_row (ord_Quantity o1) r)) \<and> can_buy o1 r db \<and> x = order_row o1 r (wk_now w)))"

definition out_ok :: "worker \<Rightarrow> bool" where
  "out_ok w \<longleftrightarrow> (\<forall>ev. wk_out w = Some ev \<longrightarrow> (\<exists>c. wk_row w = Some c \<and> next_lock w = None
     \<and> (let e = job_event (wk_eid w) (wk_at w) (wk_job w) c in
        unnumbered ev = \<lparr>ob_id = 0, ob_message_id = EventID e, ob_event_type = EventType e, ob_payload = event_json e,
          ob_attempts = 0, ob_next_attempt_at = wk_now w, ob_created_at = wk_now w\<rparr>)))"

definition worker_ok :: "(string \<Rightarrow> string) \<Rightarrow> postgres \<Rightarrow> database \<Rightarrow> worker \<Rightarrow> bool" where
  "worker_ok sha256 pg db w \<longleftrightarrow> key_ok sha256 pg db w \<and> row_ok db w \<and> order_ok db w \<and> out_ok w"

definition locks_ok :: "cluster \<Rightarrow> bool" where
  "locks_ok s \<longleftrightarrow> (\<forall>i j w v. i \<noteq> j \<longrightarrow> cl_workers s i = Some w \<longrightarrow> cl_workers s j = Some v \<longrightarrow> held w \<inter> held v = {})"

definition workers_ok :: "(string \<Rightarrow> string) \<Rightarrow> postgres \<Rightarrow> cluster \<Rightarrow> bool" where
  "workers_ok sha256 pg s \<longleftrightarrow> locks_ok s \<and> (\<forall>i w. cl_workers s i = Some w \<longrightarrow> worker_ok sha256 pg (cl_db s) w)"

lemmas worker_ok_defs = worker_ok_def key_ok_def row_ok_def order_ok_def out_ok_def

section \<open>The product statement\<close>

lemma find_install:
  "find_key p_id j (install_change c ps) =
     (if j = change_id c then (case c of Put r \<Rightarrow> Some r | Drop i v \<Rightarrow> None) else find_key p_id j ps)"
  by (cases c) (auto simp: find_key_append find_key_replace find_key_delete split: option.split)

lemma job_write_cases [consumes 1, case_names Adding Changing Removing Buying]:
  assumes "job_write job now db = Some c"
  obtains p r v where "job = Adding p" "c = Put r" "p_id r = prod_ID p" "p_version r = 1"
      "find_key p_id (prod_ID p) (products db) = None"
      "queryInsert (prod_ID p) (prod_Name p) (MinorAmount (prod_Price p)) (Currency (prod_Price p)) (prod_Stock p) now db
        = Inr ([v], db\<lparr>products := install_change c (products db)\<rparr>)" "v = 1"
  | p r r0 where "job = Changing p" "c = Put r" "p_id r = prod_ID p" "p_version r = p_version r0 + 1"
      "find_key p_id (prod_ID p) (products db) = Some r0"
      "queryUpdate (prod_ID p) (prod_Name p) (MinorAmount (prod_Price p)) (Currency (prod_Price p)) now db
        = Inr ([r], db\<lparr>products := install_change c (products db)\<rparr>)"
  | i r0 where "job = Removing i" "c = Drop i (p_version r0 + 1)" "find_key p_id i (products db) = Some r0"
      "int64_ok (p_version r0 + 1)" "i \<notin> o_product_id ` set (orders db)"
  | o1 idem r0 where "job = Buying o1 idem" "c = Put (sold_row (ord_Quantity o1) r0)"
      "find_key p_id (ord_ProductID o1) (products db) = Some r0" "ord_Quantity o1 \<le> p_stock r0"
      "p_version r0 + 1 < 2 ^ 63" "p_id r0 = ord_ProductID o1"
proof (cases job)
  case (Adding p)
  then show thesis
    using assms by (auto simp: queryInsert_def Let_def find_key_None intro!: that(1) split: if_splits option.splits sum.splits)
next
  case (Changing p)
  obtain r0 where r0: "find_key p_id (prod_ID p) (products db) = Some r0"
    using assms Changing by (auto simp: queryUpdate_def split: if_splits option.splits)
  then have i: "p_id r0 = prod_ID p" using find_key_SomeD by fastforce
  obtain r where r: "c = Put r" "p_id r = prod_ID p" "p_version r = p_version r0 + 1"
    "queryUpdate (prod_ID p) (prod_Name p) (MinorAmount (prod_Price p)) (Currency (prod_Price p)) now db
      = Inr ([r], db\<lparr>products := update_key p_id (prod_ID p) (\<lambda>_. r) (products db)\<rparr>)"
    using assms Changing r0 i by (auto simp: queryUpdate_def Let_def split: if_splits option.splits)
  then show thesis by (intro that(2) [OF Changing r(1-3) r0]) (simp add: r0)
next
  case (Removing i)
  then show thesis using assms that(3) by (auto simp: queryDelete_def split: if_splits option.splits)
next
  case (Buying o1 idem)
  obtain r0 where r0: "find_key p_id (ord_ProductID o1) (products db) = Some r0"
    using assms Buying by (auto simp: queryPurchase_def split: if_splits option.splits)
  then have "p_id r0 = ord_ProductID o1" using find_key_SomeD by fastforce
  then show thesis
    using assms Buying r0
    by (intro that(4)) (auto simp: queryPurchase_def sold_row_def int64_ok_def Let_def split: if_splits option.splits)
qed

lemma job_write_id: "job_write job now db = Some c \<Longrightarrow> change_id c = job_product job"
  by (erule job_write_cases) (auto simp: sold_row_def)

text \<open>Nothing but the row itself decides what it does, and for a deletion whether an order refers to it.\<close>

lemma job_write_local:
  assumes "find_key p_id (job_product job) (products a) = find_key p_id (job_product job) (products b)"
    and "\<And>i. job = Removing i \<Longrightarrow> i \<in> o_product_id ` set (orders a) \<longleftrightarrow> i \<in> o_product_id ` set (orders b)"
  shows "job_write job now a = job_write job now b"
proof -
  have img: "i \<in> p_id ` set (products db) \<longleftrightarrow> find_key p_id i (products db) \<noteq> None" for i db
    by (simp add: find_key_None)
  show ?thesis
    using assms
    by (cases job) (auto simp: queryInsert_def queryUpdate_def queryDelete_def queryPurchase_def img Let_def split: option.split)
qed

section \<open>A commit is a serial operation\<close>

lemma unnumbered_enqueue:
  "map unnumbered (outbox (enqueue e now db)) = map unnumbered (outbox db) @
     [\<lparr>ob_id = 0, ob_message_id = EventID e, ob_event_type = EventType e, ob_payload = event_json e, ob_attempts = 0,
       ob_next_attempt_at = now, ob_created_at = now\<rparr>]"
  by (simp add: enqueue_def unnumbered_def)

lemma serial_catalogue:
  assumes "job_write job now a = Some c" "\<And>o1 idem. job \<noteq> Buying o1 idem"
  shows "serial_commit sha256 pg a (enqueue (job_event eid at job c) now (a\<lparr>products := install_change c (products a)\<rparr>))"
  using assms(1)
proof (cases rule: job_write_cases)
  case (Adding p r v)
  let ?b = "enqueue (job_event eid at job c) now (a\<lparr>products := install_change c (products a)\<rparr>)"
  have "store_Save eid at p \<lparr>tables = a, clock = now, script = []\<rparr>
      = (Inr (p\<lparr>prod_Version := 1\<rparr>), \<lparr>tables = ?b, clock = now, script = []\<rparr>)"
    using Adding by (simp add: store_Save_run Let_def scanProduct_def)
  then show ?thesis using serial_commit.Save by fastforce
next
  case (Changing p r r0)
  let ?b = "enqueue (job_event eid at job c) now (a\<lparr>products := install_change c (products a)\<rparr>)"
  have "store_Update eid at p \<lparr>tables = a, clock = now, script = []\<rparr>
      = (Inr (scanProduct r), \<lparr>tables = ?b, clock = now, script = []\<rparr>)"
    using Changing by (simp add: store_Update_run Let_def)
  then show ?thesis using serial_commit.Update by fastforce
next
  case (Removing i r0)
  let ?b = "enqueue (job_event eid at job c) now (a\<lparr>products := install_change c (products a)\<rparr>)"
  have "store_Delete eid at i \<lparr>tables = a, clock = now, script = []\<rparr> = (Inr (), \<lparr>tables = ?b, clock = now, script = []\<rparr>)"
    using Removing by (simp add: store_Delete_run)
  then show ?thesis using serial_commit.Delete by fastforce
qed (use assms(2) in simp)

lemma serial_buying:
  assumes "in_order sha256 a" "text_ok idem" "live_key (ord_UserID o1) idem now a = None" "can_buy o1 r a"
  shows "serial_commit sha256 pg a (placed sha256 pg eid at o1 idem r now a)"
proof -
  let ?s = "\<lparr>tables = a, clock = now, script = []\<rparr>"
  let ?t = "\<lparr>tables = placed sha256 pg eid at o1 idem r now a, clock = now, script = []\<rparr>"
  have "create_order_body sha256 pg eid at o1 idem ?s = (Inr (placed_order o1 r now, False), ?t)"
    using create_order_body_fresh [of ?s idem o1 sha256 pg eid at "(placed_order o1 r now, False)" ?t] assms
    by (auto simp: in_order_def)
  then have "store_CreateOrder sha256 pg eid at o1 idem ?s = (Inr (placed_order o1 r now, False), ?t)"
    by (simp add: store_CreateOrder_run)
  then show ?thesis using serial_commit.Order by fastforce
qed

lemma serial_in_order: "serial_commit sha256 pg a b \<Longrightarrow> in_order sha256 a \<Longrightarrow> in_order sha256 b"
  by (auto elim!: serial_commit.cases
      dest!: store_Save_effect [of _ _ _ _ _ _ sha256] store_Update_effect [of _ _ _ _ _ _ sha256]
        store_Delete_effect [of _ _ _ _ _ _ sha256] store_CreateOrder_effect simp: op_effect_def)

lemma keys_placed:
  assumes "k = \<lparr>ik_user_id = ord_UserID o1, ik_key = idem, ik_request_hash = hashOrderRequest sha256 o1,
    ik_order_id = Some (ord_ID o1), ik_expires_at = now + interval_us (idempotencyTTL pg)\<rparr>"
  shows "idempotency_keys (placed sha256 pg eid at o1 idem r now db) = upsert_key k (idempotency_keys db)"
proof -
  have same: "update_key ik_pk j f ks = ks" if "find_key ik_pk j ks = None" for j f ks
    using that by (induction ks) (auto simp: update_key_def split: if_splits)
  show ?thesis
  proof (cases "find_key ik_pk (ord_UserID o1, idem) (idempotency_keys db)")
    case None
    then show ?thesis
      using assms same [OF None] by (simp add: placed_def settled_def claimed_def upsert_key_def) (simp add: update_key_def)
  next
    case (Some k0)
    then show ?thesis
      using assms by (simp add: placed_def settled_def claimed_def upsert_key_def) (auto simp: update_key_def)
  qed
qed

lemma same_but_numbersD:
  assumes "same_but_numbers a b"
  shows "products b = products a" "orders b = orders a" "idempotency_keys b = idempotency_keys a"
    "outbox_dead b = outbox_dead a" "wakeups b = wakeups a" "map unnumbered (outbox b) = map unnumbered (outbox a)"
  using assms by (auto simp: same_but_numbers_def)

lemma next_lock_None:
  "next_lock w = None \<longleftrightarrow> wk_row w \<noteq> None
     \<and> (\<forall>o1 idem. wk_job w = Buying o1 idem \<longrightarrow> wk_key w \<noteq> None \<and> wk_order w \<noteq> None)"
  by (auto simp: next_lock_def split: job.split)

lemma commit_serial:
  assumes ok: "worker_ok sha256 pg db w" and row: "wk_row w = Some c" and out: "wk_out w = Some ev"
    and settled: "\<forall>k. wk_key w = Some k \<longrightarrow> ik_order_id k \<noteq> None"
    and same: "same_but_numbers db b" and b: "in_order sha256 b"
  shows "\<exists>b'. serial_commit sha256 pg b b' \<and> same_but_numbers (seen w db) b'"
proof -
  let ?e = "job_event (wk_eid w) (wk_at w) (wk_job w) c"
  note eqs = same_but_numbersD [OF same]
  have wr: "job_write (wk_job w) (wk_now w) b = Some c"
    using ok row job_write_local [of "wk_job w" b db "wk_now w"] eqs by (simp add: worker_ok_defs)
  have ev: "unnumbered ev = \<lparr>ob_id = 0, ob_message_id = EventID ?e, ob_event_type = EventType ?e, ob_payload = event_json ?e,
      ob_attempts = 0, ob_next_attempt_at = wk_now w, ob_created_at = wk_now w\<rparr>" and full: "next_lock w = None"
    using ok row out by (auto simp: worker_ok_defs Let_def)
  show ?thesis
  proof (cases "\<exists>o1 idem. wk_job w = Buying o1 idem")
    case False
    then have none: "wk_key w = None" "wk_order w = None"
      using ok by (auto simp: worker_ok_def key_ok_def order_ok_def)
    let ?b = "enqueue ?e (wk_now w) (b\<lparr>products := install_change c (products b)\<rparr>)"
    have "serial_commit sha256 pg b ?b" using serial_catalogue [OF wr] False by blast
    moreover have "same_but_numbers (seen w db) ?b"
      using eqs by (simp add: same_but_numbers_def seen_def none row out ev unnumbered_enqueue)
    ultimately show ?thesis by blast
  next
    case True
    then obtain o1 idem where job: "wk_job w = Buying o1 idem" by blast
    then obtain k x where k: "wk_key w = Some k" and x: "wk_order w = Some x"
      using full by (auto simp: next_lock_None)
    obtain r where r: "c = Put (sold_row (ord_Quantity o1) r)" "can_buy o1 r db" "x = order_row o1 r (wk_now w)"
      using ok x job row by (auto simp: worker_ok_def order_ok_def)
    have key: "text_ok idem" "live_key (ord_UserID o1) idem (wk_now w) db = None"
      "k = \<lparr>ik_user_id = ord_UserID o1, ik_key = idem, ik_request_hash = hashOrderRequest sha256 o1,
         ik_order_id = Some (ord_ID o1), ik_expires_at = wk_now w + interval_us (idempotencyTTL pg)\<rparr>"
      using ok k job settled by (auto simp: worker_ok_def key_ok_def)
    have "live_key (ord_UserID o1) idem (wk_now w) b = None" "can_buy o1 r b"
      using key(2) r(2) eqs by (simp_all add: live_key_def can_buy_def)
    then have "serial_commit sha256 pg b (placed sha256 pg (wk_eid w) (wk_at w) o1 idem r (wk_now w) b)"
      using serial_buying [OF b key(1)] by blast
    moreover have "same_but_numbers (seen w db) (placed sha256 pg (wk_eid w) (wk_at w) o1 idem r (wk_now w) b)"
    proof -
      let ?b = "placed sha256 pg (wk_eid w) (wk_at w) o1 idem r (wk_now w) b"
      have "p_id r = ord_ProductID o1" using r(2) find_key_SomeD by (fastforce simp: can_buy_def)
      then have "products (seen w db) = products ?b"
        using r(2) eqs(1) by (simp add: seen_def row r(1) placed_def sold_row_sel can_buy_def)
      moreover have "orders (seen w db) = orders ?b" "idempotency_keys (seen w db) = idempotency_keys ?b"
        using eqs(2,3) by (simp_all add: seen_def x k r(3) keys_placed [OF key(3)])
      moreover have "map unnumbered (outbox (seen w db)) = map unnumbered (outbox ?b)"
        "outbox_dead (seen w db) = outbox_dead ?b" "wakeups (seen w db) = wakeups ?b"
        using eqs(4,5,6) by (simp_all add: seen_def out ev placed_def purchased_def Let_def unnumbered_enqueue job r(1))
      ultimately show ?thesis by (simp add: same_but_numbers_def)
    qed
    ultimately show ?thesis by blast
  qed
qed

section \<open>What the steps keep\<close>

lemma worker_ok_local:
  assumes "find_key p_id (job_product (wk_job w)) (products a) = find_key p_id (job_product (wk_job w)) (products b)"
    and "\<And>i. wk_job w = Removing i \<Longrightarrow> i \<in> o_product_id ` set (orders a) \<longleftrightarrow> i \<in> o_product_id ` set (orders b)"
    and "\<And>o1 idem k. wk_job w = Buying o1 idem \<Longrightarrow> wk_key w = Some k \<Longrightarrow>
      find_key ik_pk (ord_UserID o1, idem) (idempotency_keys a) = find_key ik_pk (ord_UserID o1, idem) (idempotency_keys b)"
    and "\<And>o1 idem x. wk_job w = Buying o1 idem \<Longrightarrow> wk_order w = Some x \<Longrightarrow>
      ord_ID o1 \<in> o_id ` set (orders a) \<longleftrightarrow> ord_ID o1 \<in> o_id ` set (orders b)"
    and "worker_ok sha256 pg a w"
  shows "worker_ok sha256 pg b w"
proof -
  have "job_write (wk_job w) (wk_now w) a = job_write (wk_job w) (wk_now w) b"
    by (rule job_write_local) (use assms in auto)
  then have "row_ok b w" using assms(5) by (simp add: worker_ok_def row_ok_def)
  moreover have "order_ok b w" "key_ok sha256 pg b w"
    using assms(1,3,4,5) by (fastforce simp: worker_ok_def order_ok_def can_buy_def key_ok_def live_key_def)+
  ultimately show ?thesis using assms(5) by (simp add: worker_ok_def)
qed

lemma locks_ok_runs_on:
  assumes "locks_ok s" "cl_workers s i = Some w" "cl_workers t = (cl_workers s)(i := Some w')"
    and "held w' \<subseteq> held w \<or> (\<exists>l. next_lock w = Some l \<and> held w' \<subseteq> insert l (held w) \<and> (\<forall>j. \<not> waits_for s i j))"
  shows "locks_ok t"
proof -
  have "held w' \<inter> held v = {}" if "j \<noteq> i" "cl_workers s j = Some v" for j v
  proof -
    have "held w \<inter> held v = {}" using assms(1,2) that by (fastforce simp: locks_ok_def)
    moreover have "l \<notin> held v" if "next_lock w = Some l" "\<forall>j. \<not> waits_for s i j" for l
      using that \<open>j \<noteq> i\<close> \<open>cl_workers s j = Some v\<close> assms(2) by (fastforce simp: waits_for_def)
    ultimately show ?thesis using assms(4) by blast
  qed
  then show ?thesis
    using assms(1) by (fastforce simp: locks_ok_def assms(3) split: if_splits)
qed

lemma locks_ok_ended: "locks_ok s \<Longrightarrow> cl_workers t = (cl_workers s)(i := None) \<Longrightarrow> locks_ok t"
  by (auto simp: locks_ok_def split: if_splits)

lemma find_upsert_key: "find_key ik_pk j (upsert_key k ks) = (if j = ik_pk k then Some k else find_key ik_pk j ks)"
  by (auto simp: upsert_key_def find_key_append find_key_replace split: option.split)

text \<open>What a commit of one transaction changes for another: nothing, since their locks are apart.\<close>

lemma commit_spares:
  assumes w: "worker_ok sha256 pg db w" and v: "worker_ok sha256 pg db v" and apart: "held w \<inter> held v = {}"
  shows "worker_ok sha256 pg (seen w db) v"
proof (cases "wk_row v")
  case None
  then have "wk_order v = None" "wk_out v = None" using v by (auto simp: worker_ok_defs)
  moreover have "key_ok sha256 pg (seen w db) v"
  proof -
    have "live_key (ord_UserID o1) idem now (seen w db) = live_key (ord_UserID o1) idem now db"
      if "wk_job v = Buying o1 idem" "wk_key v = Some k" for o1 idem k now
      using that v apart by (auto simp: live_key_def seen_def find_upsert_key worker_ok_def key_ok_def held_def split: option.splits)
    then show ?thesis using v by (fastforce simp: worker_ok_def key_ok_def)
  qed
  ultimately show ?thesis using None by (simp add: worker_ok_def row_ok_def order_ok_def out_ok_def)
next
  case (Some d)
  then have vrow: "job_write (wk_job v) (wk_now v) db = Some d" using v by (simp add: worker_ok_def row_ok_def)
  have id: "change_id d = job_product (wk_job v)" using job_write_id [OF vrow] .
  have other: "change_id c \<noteq> job_product (wk_job v)" if "wk_row w = Some c" for c
    using that Some apart id by (auto simp: held_def)
  show ?thesis
  proof (rule worker_ok_local [OF _ _ _ _ v])
    show "find_key p_id (job_product (wk_job v)) (products db) = find_key p_id (job_product (wk_job v)) (products (seen w db))"
      using other by (auto simp: seen_def find_install split: option.split)
  next
    fix i assume i: "wk_job v = Removing i"
    have "o_product_id x \<noteq> i" if "wk_order w = Some x" for x
      using that w other i by (auto simp: worker_ok_def order_ok_def order_row_def can_buy_def sold_row_sel dest!: find_key_SomeD)
    then show "i \<in> o_product_id ` set (orders db) \<longleftrightarrow> i \<in> o_product_id ` set (orders (seen w db))"
      by (cases "wk_order w") (auto simp: seen_def)
  next
    fix o1 idem k assume "wk_job v = Buying o1 idem" "wk_key v = Some k"
    then show "find_key ik_pk (ord_UserID o1, idem) (idempotency_keys db)
        = find_key ik_pk (ord_UserID o1, idem) (idempotency_keys (seen w db))"
      using v apart by (auto simp: seen_def find_upsert_key worker_ok_def key_ok_def held_def split: option.splits)
  next
    fix o1 idem x assume "wk_job v = Buying o1 idem" "wk_order v = Some x"
    then have "OrderLock (ord_ID o1) \<in> held v"
      using v by (auto simp: worker_ok_def order_ok_def order_row_def held_def)
    then show "ord_ID o1 \<in> o_id ` set (orders db) \<longleftrightarrow> ord_ID o1 \<in> o_id ` set (orders (seen w db))"
      using apart by (auto simp: seen_def held_def split: option.splits)
  qed
qed

lemma next_lockD:
  "next_lock w = Some (KeyLock u k) \<Longrightarrow> \<exists>o1. wk_job w = Buying o1 k \<and> u = ord_UserID o1 \<and> wk_key w = None"
  "next_lock w = Some (ProductLock p) \<Longrightarrow> p = job_product (wk_job w) \<and> wk_row w = None
     \<and> (\<forall>o1 idem. wk_job w = Buying o1 idem \<longrightarrow> wk_key w \<noteq> None)"
  "next_lock w = Some (OrderLock x) \<Longrightarrow> \<exists>o1 idem. wk_job w = Buying o1 idem \<and> x = ord_ID o1 \<and> wk_key w \<noteq> None
     \<and> wk_row w \<noteq> None \<and> wk_order w = None"
  by (auto simp: next_lock_def split: job.splits if_splits)

lemma worker_ok_ahead:
  assumes "worker_ok sha256 pg db w"
  shows "wk_row w = None \<Longrightarrow> wk_order w = None \<and> wk_out w = None" "wk_order w = None \<Longrightarrow> wk_job w = Buying o1 idem \<Longrightarrow> wk_out w = None"
    "wk_job w = Buying o1 idem \<Longrightarrow> wk_key w = None \<Longrightarrow> wk_row w = None"
  using assms by (auto simp: worker_ok_defs next_lock_None)

lemma claim_key_keeps:
  assumes ok: "worker_ok sha256 pg db w" and nl: "next_lock w = Some (KeyLock u k)" and job: "wk_job w = Buying o1 idem"
    and q: "queryInsertIdempotency (ord_UserID o1) idem (hashOrderRequest sha256 o1) (interval_us (idempotencyTTL pg))
      (wk_now w) (seen w db) = Inr (n, db1)" "0 < n"
  shows "worker_ok sha256 pg db (w\<lparr>wk_key := find_key ik_pk (ord_UserID o1, idem) (idempotency_keys db1)\<rparr>)"
    "held (w\<lparr>wk_key := find_key ik_pk (ord_UserID o1, idem) (idempotency_keys db1)\<rparr>) \<subseteq> insert (KeyLock u k) (held w)"
proof -
  have none: "wk_key w = None" "u = ord_UserID o1" "k = idem" using next_lockD(1) [OF nl] job by auto
  then have row: "wk_row w = None" using worker_ok_ahead(3) [OF ok job] by blast
  then have rest: "wk_row w = None" "wk_order w = None" "wk_out w = None"
    using worker_ok_ahead(1) [OF ok] by blast+
  have live: "live_key (ord_UserID o1) idem (wk_now w) (seen w db) = live_key (ord_UserID o1) idem (wk_now w) db"
    by (simp add: live_key_def seen_def none)
  have "text_ok idem" "live_key (ord_UserID o1) idem (wk_now w) db = None"
    "db1 = claimed (ord_UserID o1) idem (hashOrderRequest sha256 o1) (wk_now w + interval_us (idempotencyTTL pg)) (seen w db)"
    using q by (auto simp: queryInsertIdempotency_eq live split: if_splits option.splits)
  then show "worker_ok sha256 pg db (w\<lparr>wk_key := find_key ik_pk (ord_UserID o1, idem) (idempotency_keys db1)\<rparr>)"
    "held (w\<lparr>wk_key := find_key ik_pk (ord_UserID o1, idem) (idempotency_keys db1)\<rparr>) \<subseteq> insert (KeyLock u k) (held w)"
    using job rest none(2,3) by (auto simp: worker_ok_defs find_claimed held_def)
qed

lemma write_row_keeps:
  assumes ok: "worker_ok sha256 pg db w" and nl: "next_lock w = Some (ProductLock p)"
    and q: "job_write (wk_job w) (wk_now w) (seen w db) = Some c"
  shows "worker_ok sha256 pg db (w\<lparr>wk_row := Some c\<rparr>)" "held (w\<lparr>wk_row := Some c\<rparr>) \<subseteq> insert (ProductLock p) (held w)"
proof -
  note none = next_lockD(2) [OF nl]
  then have rest: "wk_order w = None" "wk_out w = None" using worker_ok_ahead [OF ok] by blast+
  have "job_write (wk_job w) (wk_now w) db = Some c"
    using q none job_write_local [of "wk_job w" "seen w db" db] rest by (simp add: seen_def)
  then show "worker_ok sha256 pg db (w\<lparr>wk_row := Some c\<rparr>)"
    using ok none rest by (simp add: worker_ok_def key_ok_def row_ok_def order_ok_def out_ok_def)
  show "held (w\<lparr>wk_row := Some c\<rparr>) \<subseteq> insert (ProductLock p) (held w)"
    using job_write_id [OF q] none by (auto simp: held_def)
qed

lemma insert_order_keeps:
  assumes ok: "worker_ok sha256 pg db w" and nl: "next_lock w = Some (OrderLock x)" and job: "wk_job w = Buying o1 idem"
    and row: "wk_row w = Some c" and wf: "products_wf (products db)"
    and q: "queryInsertOrder (ord_ID o1) (ord_UserID o1) (ord_ProductID o1) (ord_Quantity o1)
      (MinorAmount (prod_Price (change_product c))) (Currency (prod_Price (change_product c)))
      (wk_now w) (seen w db) = Inr (created, db1)"
  shows "worker_ok sha256 pg db (w\<lparr>wk_order := Some (last (orders db1))\<rparr>)"
    "held (w\<lparr>wk_order := Some (last (orders db1))\<rparr>) \<subseteq> insert (OrderLock x) (held w)"
proof -
  have none: "wk_order w = None" "x = ord_ID o1" using next_lockD(3) [OF nl] job by auto
  then have out: "wk_out w = None" using worker_ok_ahead(2) [OF ok _ job] by blast
  have jw: "job_write (wk_job w) (wk_now w) db = Some c" using ok row by (simp add: worker_ok_def row_ok_def)
  obtain r where r: "c = Put (sold_row (ord_Quantity o1) r)" "find_key p_id (ord_ProductID o1) (products db) = Some r"
    "ord_Quantity o1 \<le> p_stock r" "p_version r + 1 < 2 ^ 63"
    using jw by (cases rule: job_write_cases) (use job in auto)
  note cur = row_currency_db [OF wf, of r]
  have "last (orders db1) = order_row o1 r (wk_now w)" "can_buy o1 r db"
    using q r cur find_key_SomeD [OF r(2)]
    by (auto simp: queryInsertOrder_def orders_check_def scanProduct_def sold_row_sel order_row_def can_buy_def seen_def none(1)
        Let_def split: if_splits)
  then show "worker_ok sha256 pg db (w\<lparr>wk_order := Some (last (orders db1))\<rparr>)"
    "held (w\<lparr>wk_order := Some (last (orders db1))\<rparr>) \<subseteq> insert (OrderLock x) (held w)"
    using ok job row r(1) out none(2)
    by (auto simp: worker_ok_def key_ok_def row_ok_def order_ok_def out_ok_def held_def order_row_def)
qed

lemma queue_event_keeps:
  assumes "worker_ok sha256 pg db w" "next_lock w = None" "wk_row w = Some c"
    and "e = job_event (wk_eid w) (wk_at w) (wk_job w) c"
    and "queryInsertOutbox (EventID e) (EventType e) (event_json e) (wk_now w) (seen w db) = Inr (n, db1)"
  shows "worker_ok sha256 pg db (w\<lparr>wk_out := Some (last (outbox db1))\<rparr>)" "held (w\<lparr>wk_out := Some (last (outbox db1))\<rparr>) = held w"
    "ob_id (last (outbox db1)) = outbox_seq db" "outbox_seq db1 = outbox_seq db + 1"
  using assms
  by (auto simp: worker_ok_def key_ok_def row_ok_def order_ok_def out_ok_def held_def queryInsertOutbox_def unnumbered_def
      next_lock_None seen_def Let_def)

lemma settle_key_keeps:
  assumes ok: "worker_ok sha256 pg db w" and job: "wk_job w = Buying o1 idem" and out: "wk_out w = Some ev"
    and q: "queryUpdateIdempotencyResult (ord_UserID o1) idem (ord_ID o1) (wk_now w) (seen w db) = Inr (n, db1)"
  shows "worker_ok sha256 pg db (w\<lparr>wk_key := find_key ik_pk (ord_UserID o1, idem) (idempotency_keys db1)\<rparr>)"
    "held (w\<lparr>wk_key := find_key ik_pk (ord_UserID o1, idem) (idempotency_keys db1)\<rparr>) = held w"
proof -
  obtain k where k: "wk_key w = Some k" using ok out job by (auto simp: worker_ok_def out_ok_def next_lock_None)
  then have pk: "ik_pk k = (ord_UserID o1, idem)" using ok job by (auto simp: worker_ok_def key_ok_def)
  have "find_key ik_pk (ord_UserID o1, idem) (idempotency_keys db1) = Some (k\<lparr>ik_order_id := Some (ord_ID o1)\<rparr>)"
    using q k pk by (auto simp: queryUpdateIdempotencyResult_def find_key_update find_upsert_key seen_def Let_def split: if_splits)
  then show "worker_ok sha256 pg db (w\<lparr>wk_key := find_key ik_pk (ord_UserID o1, idem) (idempotency_keys db1)\<rparr>)"
    "held (w\<lparr>wk_key := find_key ik_pk (ord_UserID o1, idem) (idempotency_keys db1)\<rparr>) = held w"
    using ok k job by (auto simp: worker_ok_def key_ok_def row_ok_def order_ok_def out_ok_def held_def next_lock_None Let_def)
qed

lemma workers_okD: "workers_ok sha256 pg s \<Longrightarrow> cl_workers s i = Some w \<Longrightarrow> worker_ok sha256 pg (cl_db s) w"
  by (simp add: workers_ok_def)

lemma workers_ok_runs_on:
  assumes "workers_ok sha256 pg s" "cl_workers s i = Some w" "worker_ok sha256 pg (cl_db s) w'"
    and "held w' \<subseteq> held w \<or> (\<exists>l. next_lock w = Some l \<and> held w' \<subseteq> insert l (held w) \<and> (\<forall>j. \<not> waits_for s i j))"
  shows "workers_ok sha256 pg (runs_on s i (Some w'))"
  using assms locks_ok_runs_on [of s i w "runs_on s i (Some w')" w'] by (simp add: workers_ok_def)

lemma worker_ok_seq: "worker_ok sha256 pg (db\<lparr>outbox_seq := n\<rparr>) w = worker_ok sha256 pg db w"
  by (rule iffI; erule worker_ok_local [rotated -1]) simp_all

lemma workers_ok_step:
  assumes step: "cluster_step sha256 pg s s'" and ok: "workers_ok sha256 pg s" and wf: "products_wf (products (cl_db s))"
  shows "workers_ok sha256 pg s'"
  using step
proof (cases rule: cluster_stepE)
  case (begin_tx i job eid at now)
  then have "locks_ok s'" using ok by (fastforce simp: workers_ok_def locks_ok_def held_def open_tx_def split: if_splits)
  moreover have "worker_ok sha256 pg db (open_tx job eid at now)" for db by (simp add: worker_ok_defs open_tx_def)
  ultimately show ?thesis using ok begin_tx by (simp add: workers_ok_def)
next
  case (claim_key i w o1 idem u k n db1)
  note keeps = claim_key_keeps [OF workers_okD [OF ok claim_key(2)] claim_key(4,3,6,7)]
  show ?thesis unfolding claim_key(1) by (rule workers_ok_runs_on [OF ok claim_key(2) keeps(1)]) (use claim_key keeps in blast)
next
  case (write_row i w p c)
  note keeps = write_row_keeps [OF workers_okD [OF ok write_row(2)] write_row(3,5)]
  show ?thesis unfolding write_row(1) by (rule workers_ok_runs_on [OF ok write_row(2) keeps(1)]) (use write_row keeps in blast)
next
  case (insert_order i w o1 idem x c created db1)
  note keeps = insert_order_keeps [OF workers_okD [OF ok insert_order(2)] insert_order(4,3,6) wf insert_order(7)]
  show ?thesis
    unfolding insert_order(1) by (rule workers_ok_runs_on [OF ok insert_order(2) keeps(1)]) (use insert_order keeps in blast)
next
  case (queue_event i w c n db1)
  note keeps = queue_event_keeps [OF workers_okD [OF ok queue_event(2)] queue_event(3,4) refl queue_event(6)]
  have "workers_ok sha256 pg (runs_on s i (Some (w\<lparr>wk_out := Some (last (outbox db1))\<rparr>)))"
    by (rule workers_ok_runs_on [OF ok queue_event(2) keeps(1)]) (use keeps in blast)
  then show ?thesis by (simp add: queue_event(1) workers_ok_def worker_ok_seq locks_ok_def)
next
  case (settle_key i w o1 idem ev n db1)
  note keeps = settle_key_keeps [OF workers_okD [OF ok settle_key(2)] settle_key(3,4,5)]
  show ?thesis unfolding settle_key(1) by (rule workers_ok_runs_on [OF ok settle_key(2) keeps(1)]) (use keeps in blast)
next
  case (commit_tx i w c ev)
  have "worker_ok sha256 pg (seen w (cl_db s)) v" if "j \<noteq> i" "cl_workers s j = Some v" for j v
    using commit_spares [OF workers_okD [OF ok commit_tx(2)] workers_okD [OF ok that(2)]] ok commit_tx(2) that
    by (fastforce simp: workers_ok_def locks_ok_def)
  moreover have "locks_ok s'" using ok locks_ok_ended [of s s' i] by (simp add: workers_ok_def commit_tx(1))
  ultimately show ?thesis by (simp add: workers_ok_def commit_tx(1))
next
  case (roll_back i)
  then show ?thesis using ok locks_ok_ended [of s s' i] by (simp add: workers_ok_def)
qed

text \<open>The run so far is a serial one, up to the numbers.\<close>

definition serialised :: "(string \<Rightarrow> string) \<Rightarrow> postgres \<Rightarrow> database \<Rightarrow> cluster \<Rightarrow> bool" where
  "serialised sha256 pg db0 s \<longleftrightarrow>
     (\<exists>b. (serial_commit sha256 pg ^^ length (cl_log s)) db0 b \<and> in_order sha256 b \<and> same_but_numbers (cl_db s) b)"

lemma serialised_wf: "serialised sha256 pg db0 s \<Longrightarrow> products_wf (products (cl_db s))"
  by (auto simp: serialised_def same_but_numbers_def in_order_def db_wf_def)

lemma cluster_step_db:
  assumes "cluster_step sha256 pg s s'"
  obtains (same) "same_but_numbers (cl_db s') (cl_db s)" "cl_log s' = cl_log s"
  | (commit) i w c ev where "cl_workers s i = Some w" "wk_row w = Some c" "wk_out w = Some ev"
      "\<forall>k. wk_key w = Some k \<longrightarrow> ik_order_id k \<noteq> None" "cl_db s' = seen w (cl_db s)"
      "cl_log s' = cl_log s @ [(ob_id ev, job_event (wk_eid w) (wk_at w) (wk_job w) c)]"
  using assms by (cases rule: cluster_stepE) (auto simp: same_but_numbers_def)

lemma same_but_numbers_trans: "same_but_numbers a b \<Longrightarrow> same_but_numbers b c \<Longrightarrow> same_but_numbers a c"
  by (simp add: same_but_numbers_def)

lemma serialised_step:
  assumes "cluster_step sha256 pg s s'" "workers_ok sha256 pg s" "serialised sha256 pg db0 s"
  shows "serialised sha256 pg db0 s'"
proof -
  obtain b where b: "(serial_commit sha256 pg ^^ length (cl_log s)) db0 b" "in_order sha256 b" "same_but_numbers (cl_db s) b"
    using assms(3) by (auto simp: serialised_def)
  from assms(1) show ?thesis
  proof (cases rule: cluster_step_db)
    case same
    then show ?thesis using b same_but_numbers_trans by (auto simp: serialised_def)
  next
    case (commit i w c ev)
    then obtain b' where b': "serial_commit sha256 pg b b'" "same_but_numbers (seen w (cl_db s)) b'"
      using commit_serial [OF workers_okD [OF assms(2) commit(1)] commit(2-4) b(3,2)] by blast
    then show ?thesis
      using b serial_in_order [OF b'(1) b(2)] commit(5,6) by (auto simp: serialised_def intro: relpowp_Suc_I)
  qed
qed

lemma cluster_invariant:
  assumes "cluster_reach sha256 pg db0 s" "in_order sha256 db0"
  shows "workers_ok sha256 pg s \<and> serialised sha256 pg db0 s"
  using assms(1)
proof induction
  case init
  then show ?case
    using assms(2) by (auto simp: workers_ok_def locks_ok_def serialised_def cluster_start_def same_but_numbers_def)
next
  case (step s s')
  then show ?case using workers_ok_step serialised_step serialised_wf by blast
qed

section \<open>The order of the events\<close>

definition events_of :: "uuid \<Rightarrow> (int \<times> event) list \<Rightarrow> (int \<times> event) list" where
  "events_of p log = filter (\<lambda>(n, e). EventProductID e = p) log"

lemma events_of_append: "events_of p (log @ [(n, e)]) = events_of p log @ (if EventProductID e = p then [(n, e)] else [])"
  by (simp add: events_of_def)

lemma job_event_sel:
  assumes "job_write job now db = Some c"
  shows "EventProductID (job_event eid at job c) = change_id c"
    "EventVersion (job_event eid at job c) = prod_Version (change_product c)"
    "EventType (job_event eid at job c) =
       (case job of Adding p \<Rightarrow> TypeCreated | Changing p \<Rightarrow> TypeUpdated | Removing i \<Rightarrow> TypeDeleted
        | Buying o1 idem \<Rightarrow> TypePurchased)"
proof -
  have "prod_ID (change_product c) = change_id c" by (cases c) simp_all
  then show "EventProductID (job_event eid at job c) = change_id c"
    using job_write_id [OF assms] by (cases job) (simp_all add: event_New_def NewPurchased_def)
  show "EventVersion (job_event eid at job c) = prod_Version (change_product c)"
    by (cases job) (simp_all add: event_New_def NewPurchased_def)
  show "EventType (job_event eid at job c) =
       (case job of Adding p \<Rightarrow> TypeCreated | Changing p \<Rightarrow> TypeUpdated | Removing i \<Rightarrow> TypeDeleted
        | Buying o1 idem \<Rightarrow> TypePurchased)"
    by (cases job) (simp_all add: event_New_def NewPurchased_def)
qed

text \<open>
  The version of a product as its events tell it, none while there is no such product: a creation starts at 1,
  every other event is one above the version before it, and a deletion ends it. None: an event that does not fit.
\<close>

fun version_run :: "int option \<Rightarrow> event list \<Rightarrow> int option option" where
  "version_run v [] = Some v"
| "version_run None (e # es) =
     (if EventType e = TypeCreated \<and> EventVersion e = 1 then version_run (Some 1) es else None)"
| "version_run (Some n) (e # es) =
     (if EventType e \<noteq> TypeCreated \<and> EventVersion e = n + 1
      then version_run (if EventType e = TypeDeleted then None else Some (n + 1)) es else None)"

lemma version_run_append:
  "version_run v (es @ es') = (case version_run v es of None \<Rightarrow> None | Some w \<Rightarrow> version_run w es')"
  by (induction v es rule: version_run.induct) auto

definition version_in :: "database \<Rightarrow> uuid \<Rightarrow> int option" where
  "version_in db p = map_option p_version (find_key p_id p (products db))"

text \<open>The outbox holds the log; what is queued but not committed has a later number than its product's events so far.\<close>

definition logged :: "database \<Rightarrow> cluster \<Rightarrow> bool" where
  "logged db0 s \<longleftrightarrow> (\<exists>rows. outbox (cl_db s) = outbox db0 @ rows
     \<and> map (\<lambda>r. (ob_id r, ob_message_id r, ob_payload r)) rows = map (\<lambda>(n, e). (n, EventID e, event_json e)) (cl_log s))"

definition numbered :: "cluster \<Rightarrow> bool" where
  "numbered s \<longleftrightarrow> (\<forall>(n, e)\<in>set (cl_log s). n < outbox_seq (cl_db s))
     \<and> (\<forall>i w ev c. cl_workers s i = Some w \<longrightarrow> wk_out w = Some ev \<longrightarrow> wk_row w = Some c \<longrightarrow>
          ob_id ev < outbox_seq (cl_db s) \<and> (\<forall>(n, e)\<in>set (events_of (change_id c) (cl_log s)). n < ob_id ev))
     \<and> (\<forall>p. sorted_wrt (<) (map fst (events_of p (cl_log s))))"

definition versioned :: "database \<Rightarrow> cluster \<Rightarrow> bool" where
  "versioned db0 s \<longleftrightarrow>
     (\<forall>p. version_run (version_in db0 p) (map snd (events_of p (cl_log s))) = Some (version_in (cl_db s) p))"

text \<open>What a job's event says of the version is what its row change does.\<close>

lemma job_version_run:
  assumes "job_write job now db = Some c"
  shows "version_run (version_in db (change_id c)) [job_event eid at job c]
    = Some (case c of Put r \<Rightarrow> Some (p_version r) | Drop i v \<Rightarrow> None)"
proof -
  note types = TypeCreated_def TypeUpdated_def TypeDeleted_def TypePurchased_def
  show ?thesis
    using assms
    by (cases rule: job_write_cases)
      (simp_all add: version_in_def sold_row_def scanProduct_def event_New_def NewPurchased_def types)
qed

lemma versioned_step:
  assumes "cluster_step sha256 pg s s'" "workers_ok sha256 pg s" "versioned db0 s"
  shows "versioned db0 s'"
  using assms(1)
proof (cases rule: cluster_step_db)
  case same
  then show ?thesis using assms(3) by (simp add: versioned_def version_in_def same_but_numbers_def)
next
  case (commit i w c ev)
  let ?e = "job_event (wk_eid w) (wk_at w) (wk_job w) c"
  have jw: "job_write (wk_job w) (wk_now w) (cl_db s) = Some c"
    using workers_okD [OF assms(2) commit(1)] commit(2) by (simp add: worker_ok_def row_ok_def)
  have found: "version_in (cl_db s') p =
      (if p = change_id c then (case c of Put r \<Rightarrow> Some (p_version r) | Drop i v \<Rightarrow> None) else version_in (cl_db s) p)" for p
    using commit(2,5) by (simp add: version_in_def seen_def find_install split: row_change.split)
  show ?thesis
    using assms(3) job_version_run [OF jw] job_event_sel(1) [OF jw]
    unfolding versioned_def by (simp add: commit(6) events_of_append version_run_append found)
qed

lemma logged_step:
  assumes "cluster_step sha256 pg s s'" "workers_ok sha256 pg s" "logged db0 s"
  shows "logged db0 s'"
  using assms(1)
proof (cases rule: cluster_stepE)
  case (commit_tx i w c ev)
  let ?e = "job_event (wk_eid w) (wk_at w) (wk_job w) c"
  have "unnumbered ev = \<lparr>ob_id = 0, ob_message_id = EventID ?e, ob_event_type = EventType ?e, ob_payload = event_json ?e,
      ob_attempts = 0, ob_next_attempt_at = wk_now w, ob_created_at = wk_now w\<rparr>"
    using workers_okD [OF assms(2) commit_tx(2)] commit_tx(3,4) by (auto simp: worker_ok_def out_ok_def Let_def)
  then have "ob_message_id ev = EventID ?e" "ob_payload ev = event_json ?e"
    by (cases ev; simp add: unnumbered_def)+
  then show ?thesis using assms(3) commit_tx by (auto simp: logged_def seen_def)
qed (use assms(3) in \<open>auto simp: logged_def\<close>)

lemma numberedD:
  assumes "numbered s"
  shows "(n, e) \<in> set (cl_log s) \<Longrightarrow> n < outbox_seq (cl_db s)"
    "cl_workers s i = Some w \<Longrightarrow> wk_out w = Some ev \<Longrightarrow> wk_row w = Some c \<Longrightarrow> ob_id ev < outbox_seq (cl_db s)"
    "cl_workers s i = Some w \<Longrightarrow> wk_out w = Some ev \<Longrightarrow> wk_row w = Some c \<Longrightarrow> (n, e) \<in> set (cl_log s) \<Longrightarrow>
      EventProductID e = change_id c \<Longrightarrow> n < ob_id ev"
  using assms by (fastforce simp: numbered_def events_of_def)+

text \<open>A step of one worker that neither queues nor commits keeps the numbering.\<close>

lemma numbered_runs_on:
  assumes "numbered s" "w' = None \<or> (\<exists>v. w' = Some v \<and> (wk_out v = None \<or>
      (\<exists>w. cl_workers s i = Some w \<and> wk_out w = wk_out v \<and> wk_row w = wk_row v)))"
  shows "numbered (runs_on s i w')"
  using assms unfolding numbered_def by (fastforce split: if_splits)

lemma numbered_step:
  assumes "cluster_step sha256 pg s s'" "workers_ok sha256 pg s" "numbered s"
  shows "numbered s'"
  using assms(1)
proof (cases rule: cluster_stepE)
  case (begin_tx i job eid at now)
  then show ?thesis using numbered_runs_on [OF assms(3)] by (simp add: open_tx_def)
next
  case (write_row i w p c)
  have "wk_row w = None" using next_lockD(2) [OF write_row(3)] by simp
  then have "wk_out w = None" using worker_ok_ahead(1) [OF workers_okD [OF assms(2) write_row(2)]] by simp
  then show ?thesis using numbered_runs_on [OF assms(3)] write_row(1) by simp
next
  case (queue_event i w c n db1)
  note keeps = queue_event_keeps [OF workers_okD [OF assms(2) queue_event(2)] queue_event(3,4) refl queue_event(6)]
  show ?thesis
    using assms(3) numberedD(1) [OF assms(3)]
    unfolding numbered_def queue_event(1)
    by (auto simp: keeps(3,4) queue_event(4) events_of_def split: if_splits) (fastforce)+
next
  case (commit_tx i w c ev)
  have jw: "job_write (wk_job w) (wk_now w) (cl_db s) = Some c"
    using workers_okD [OF assms(2) commit_tx(2)] commit_tx(3) by (simp add: worker_ok_def row_ok_def)
  note pid = job_event_sel(1) [OF jw, of "wk_eid w" "wk_at w"]
  have other: "change_id d \<noteq> change_id c" if "j \<noteq> i" "cl_workers s j = Some v" "wk_row v = Some d" for j v d
    using assms(2) commit_tx(2,3) that by (fastforce simp: workers_ok_def locks_ok_def held_def)
  have seq: "outbox_seq (cl_db s') = outbox_seq (cl_db s)" by (simp add: commit_tx(1) seen_def)
  have "n < outbox_seq (cl_db s)" if "(n, e) \<in> set (cl_log s')" for n e
    using that numberedD(1,2) [OF assms(3)] commit_tx(1-4) by (auto simp: commit_tx(1))
  moreover have "sorted_wrt (<) (map fst (events_of p (cl_log s')))" for p
    using assms(3) numberedD(3) [OF assms(3) commit_tx(2,4,3)] pid
    by (auto simp: commit_tx(1) numbered_def events_of_def sorted_wrt_append)
  moreover have "ob_id ev' < outbox_seq (cl_db s)" "\<forall>(n, e)\<in>set (events_of (change_id d) (cl_log s')). n < ob_id ev'"
    if "cl_workers s' j = Some v" "wk_out v = Some ev'" "wk_row v = Some d" for j v ev' d
  proof -
    have v: "j \<noteq> i" "cl_workers s j = Some v" using that(1) by (auto simp: commit_tx(1) split: if_splits)
    show "ob_id ev' < outbox_seq (cl_db s)" using numberedD(2) [OF assms(3) v(2) that(2,3)] .
    show "\<forall>(n, e)\<in>set (events_of (change_id d) (cl_log s')). n < ob_id ev'"
      using numberedD(3) [OF assms(3) v(2) that(2,3)] other [OF v that(3)] pid by (auto simp: commit_tx(1) events_of_def)
  qed
  ultimately show ?thesis by (fastforce simp: numbered_def seq)
next
  case (roll_back i)
  then show ?thesis using numbered_runs_on [OF assms(3)] by simp
qed (use numbered_runs_on [OF assms(3)] in auto)

lemma log_invariant:
  assumes "cluster_reach sha256 pg db0 s" "in_order sha256 db0"
  shows "logged db0 s \<and> numbered s \<and> versioned db0 s"
  using assms(1)
proof induction
  case init
  then show ?case by (auto simp: logged_def numbered_def versioned_def events_of_def cluster_start_def)
next
  case (step s s')
  then show ?case
    using cluster_invariant [OF step(1) assms(2)] logged_step numbered_step versioned_step by blast
qed

section \<open>Theorems\<close>

text \<open>
  C5: Whatever transactions run side by side, statement by statement, with any of them rolled back at
  any point: the committed tables are what as many operations of the store, run one after the other, leave, in
  good order, but for the numbers drawn from the outbox's identity column.
\<close>

theorem interleaved_is_serial:
  assumes "cluster_reach sha256 pg db0 s" "in_order sha256 db0"
  shows "\<exists>b. (serial_commit sha256 pg ^^ length (cl_log s)) db0 b \<and> in_order sha256 b \<and> same_but_numbers (cl_db s) b"
  using cluster_invariant [OF assms] by (simp add: serialised_def)

text \<open>Every transaction takes its locks in one order: key, product, order.\<close>

fun stage :: "lock \<Rightarrow> nat" where
  "stage (KeyLock u k) = 0" | "stage (ProductLock p) = 1" | "stage (OrderLock x) = 2"

lemma later_stage:
  assumes "worker_ok sha256 pg db w" "l \<in> held w" "next_lock w = Some l'"
  shows "stage l < stage l'"
proof (cases l')
  case (KeyLock u k)
  then show ?thesis
    using assms next_lockD(1) worker_ok_ahead(1,3) [OF assms(1)] by (fastforce simp: held_def)
next
  case (ProductLock p)
  then show ?thesis
    using assms next_lockD(2) worker_ok_ahead(1) [OF assms(1)] by (fastforce simp: held_def split: option.splits)
next
  case (OrderLock x)
  then show ?thesis
    using assms next_lockD(3) by (fastforce simp: held_def split: option.splits)
qed

lemma waits_up:
  assumes "workers_ok sha256 pg s" "(waits_for s)\<^sup>+\<^sup>+ i j"
  shows "\<exists>w l v. cl_workers s i = Some w \<and> next_lock w = Some l \<and> cl_workers s j = Some v
    \<and> (\<forall>l'. next_lock v = Some l' \<longrightarrow> stage l < stage l')"
  using assms(2)
proof induction
  case (base j)
  then show ?case using later_stage workers_okD [OF assms(1)] unfolding waits_for_def by blast
next
  case (step j k)
  then obtain w l v where wl: "cl_workers s i = Some w" "next_lock w = Some l" "cl_workers s j = Some v"
    "\<And>l'. next_lock v = Some l' \<Longrightarrow> stage l < stage l'" by blast
  obtain l' u where jk: "next_lock v = Some l'" "cl_workers s k = Some u" "l' \<in> held u"
    using step(2) wl(3) by (auto simp: waits_for_def)
  have "stage l < stage l''" if "next_lock u = Some l''" for l''
    using wl(4) [OF jk(1)] later_stage [OF workers_okD [OF assms(1) jk(2)] jk(3) that] by simp
  then show ?case using wl(1,2) jk(2) by blast
qed

text \<open>
  C7: No interleaving of creations, updates, deletions and order placements deadlocks: the transactions that
  wait for each other's rows and keys never form a cycle.
\<close>

theorem no_deadlock:
  assumes "cluster_reach sha256 pg db0 s" "in_order sha256 db0"
  shows "\<not> (waits_for s)\<^sup>+\<^sup>+ i i"
  using waits_up [of sha256 pg s i i] cluster_invariant [OF assms] by fastforce

text \<open>
  C6: The outbox holds one event for each commit, in the order of the commits. Although numbers may become visible
  out of order, those of one product's events increase with every commit, so a relay that goes by the
  number meets them in order. And these events tell the product's history without a gap, from any tables to start
  with: a creation has version 1 and comes when there is no such product, every other event is one version above
  the one before it, a deletion is the last until a new creation, and what they lead to is the version
  the table has.
\<close>

theorem events_in_version_order:
  assumes "cluster_reach sha256 pg db0 s" "in_order sha256 db0"
  shows "(\<exists>rows. outbox (cl_db s) = outbox db0 @ rows
      \<and> map (\<lambda>r. (ob_id r, ob_message_id r, ob_payload r)) rows = map (\<lambda>(n, e). (n, EventID e, event_json e)) (cl_log s))
    \<and> sorted_wrt (<) (map fst (events_of p (cl_log s)))
    \<and> version_run (version_in db0 p) (map snd (events_of p (cl_log s))) = Some (version_in (cl_db s) p)"
  using log_invariant [OF assms] by (simp add: logged_def numbered_def versioned_def)

section \<open>A sample interleaving\<close>

text \<open>
  A buyer and an editor of another product side by side, while a second buyer waits for the first one's product.
  The buyer draws the first number but the editor commits first.
\<close>

definition sample_change :: product where
  "sample_change = \<lparr>prod_ID = 5, prod_Name = ''gadget'', prod_Price = \<lparr>MinorAmount = 250, Currency = ''EUR''\<rparr>,
     prod_Stock = 0, prod_Version = 0\<rparr>"

definition sample_rival :: order where
  "sample_rival = sample_request\<lparr>ord_ID := 41, ord_UserID := 2\<rparr>"

definition sample_buyer :: worker where
  "sample_buyer = open_tx (Buying sample_request ''k1'') 50 0 100"

definition sample_editor :: worker where
  "sample_editor = open_tx (Changing sample_change) 51 0 101"

definition sample_waiter :: worker where
  "sample_waiter = open_tx (Buying sample_rival ''k2'') 52 0 102"

definition sample_key :: "order \<Rightarrow> string \<Rightarrow> timestamp \<Rightarrow> uuid option \<Rightarrow> idempotency_row" where
  "sample_key o1 idem now x = \<lparr>ik_user_id = ord_UserID o1, ik_key = idem, ik_request_hash = hashOrderRequest (\<lambda>x. x) o1,
     ik_order_id = x, ik_expires_at = now + interval_us (idempotencyTTL (NewPostgres 86400000000000))\<rparr>"

definition sample_edited :: products_row where
  "sample_edited = \<lparr>p_id = 5, p_name = ''gadget'', p_price_minor = 250, p_currency = ''EUR'', p_stock = 2, p_version = 2\<rparr>"

definition sample_queued :: "worker \<Rightarrow> row_change \<Rightarrow> int \<Rightarrow> outbox_table_row" where
  "sample_queued w c n = (let e = job_event (wk_eid w) (wk_at w) (wk_job w) c in
     \<lparr>ob_id = n, ob_message_id = EventID e, ob_event_type = EventType e, ob_payload = event_json e, ob_attempts = 0,
      ob_next_attempt_at = wk_now w, ob_created_at = wk_now w\<rparr>)"

definition sample_at :: "worker option \<Rightarrow> worker option \<Rightarrow> worker option \<Rightarrow> int \<Rightarrow> cluster" where
  "sample_at a b c n = \<lparr>cl_db = sample_db\<lparr>outbox_seq := n\<rparr>, cl_workers = (\<lambda>_. None)(0 := a, 2 := b, 3 := c), cl_log = []\<rparr>"

abbreviation sample_reach :: "cluster \<Rightarrow> bool" where
  "sample_reach \<equiv> cluster_reach (\<lambda>x. x) (NewPostgres 86400000000000) sample_db"

lemma sample_at_upd:
  "runs_on (sample_at a b c n) 0 x = sample_at x b c n" "runs_on (sample_at a b c n) 2 x = sample_at a x c n"
  "runs_on (sample_at a b c n) 3 x = sample_at a b x n"
  "runs_on ((sample_at a b c n)\<lparr>cl_db := (cl_db (sample_at a b c n))\<lparr>outbox_seq := m\<rparr>\<rparr>) 0 x = sample_at x b c m"
  "runs_on ((sample_at a b c n)\<lparr>cl_db := (cl_db (sample_at a b c n))\<lparr>outbox_seq := m\<rparr>\<rparr>) 2 x = sample_at a x c m"
  by (auto simp: sample_at_def)

lemma sample_at_sel:
  "cl_workers (sample_at a b c n) 0 = a" "cl_workers (sample_at a b c n) 2 = b" "cl_workers (sample_at a b c n) 3 = c"
  "cl_db (sample_at a b c n) = sample_db\<lparr>outbox_seq := n\<rparr>"
  by (simp_all add: sample_at_def)

lemma sample_waits:
  "waits_for (sample_at a b c n) i j \<longleftrightarrow> i \<noteq> j \<and> (\<exists>w v l. ((\<lambda>_. None)(0 := a, 2 := b, 3 := c)) i = Some w
     \<and> ((\<lambda>_. None)(0 := a, 2 := b, 3 := c)) j = Some v \<and> next_lock w = Some l \<and> l \<in> held v)" for i j :: nat
  by (simp add: waits_for_def sample_at_def)

lemma sample_start: "sample_reach (sample_at None None None 1)"
proof -
  have "cluster_start sample_db = sample_at None None None 1"
    by (simp add: cluster_start_def sample_at_def sample_db_def empty_database_def fun_upd_def)
  then show ?thesis using cluster_reach.init by metis
qed

definition sample_claimed :: "worker \<Rightarrow> order \<Rightarrow> string \<Rightarrow> worker" where
  "sample_claimed w o1 idem = w\<lparr>wk_key := Some (sample_key o1 idem (wk_now w) None)\<rparr>"

lemmas sample_defs = sample_buyer_def sample_editor_def sample_waiter_def sample_claimed_def sample_key_def sample_rival_def
  sample_request_def sample_change_def sample_edited_def open_tx_def

lemma sample_begun: "sample_reach (sample_at (Some sample_buyer) (Some sample_editor) (Some sample_waiter) 1)"
proof -
  let ?step = "cluster_step (\<lambda>x. x) (NewPostgres 86400000000000)"
  have "?step (sample_at None None None 1) (sample_at (Some sample_buyer) None None 1)"
    using cluster_step.begin_tx [of "sample_at None None None 1" 0 "\<lambda>x. x" "NewPostgres 86400000000000" "wk_job sample_buyer" 50 0 100]
    by (simp add: sample_at_sel sample_at_upd sample_buyer_def open_tx_def)
  moreover have "?step (sample_at (Some sample_buyer) None None 1) (sample_at (Some sample_buyer) (Some sample_editor) None 1)"
    using cluster_step.begin_tx [of "sample_at (Some sample_buyer) None None 1" 2 "\<lambda>x. x" "NewPostgres 86400000000000"
        "wk_job sample_editor" 51 0 101]
    by (simp add: sample_at_sel sample_at_upd sample_editor_def open_tx_def)
  moreover have "?step (sample_at (Some sample_buyer) (Some sample_editor) None 1)
      (sample_at (Some sample_buyer) (Some sample_editor) (Some sample_waiter) 1)"
    using cluster_step.begin_tx [of "sample_at (Some sample_buyer) (Some sample_editor) None 1" 3 "\<lambda>x. x"
        "NewPostgres 86400000000000" "wk_job sample_waiter" 52 0 102]
    by (simp add: sample_at_sel sample_at_upd sample_waiter_def open_tx_def)
  ultimately show ?thesis using sample_start cluster_reach.step by blast
qed

lemma claim_sample:
  assumes "wk_job w = Buying o1 idem" "wk_key w = None" "text_ok idem"
  shows "queryInsertIdempotency (ord_UserID o1) idem (hashOrderRequest (\<lambda>x. x) o1)
      (interval_us (idempotencyTTL (NewPostgres 86400000000000))) (wk_now w) (seen w (sample_db\<lparr>outbox_seq := n\<rparr>))
    = Inr (1, (seen w (sample_db\<lparr>outbox_seq := n\<rparr>))\<lparr>idempotency_keys := [sample_key o1 idem (wk_now w) None]\<rparr>)"
  using assms by (simp add: queryInsertIdempotency_def seen_def sample_db_def empty_database_def sample_key_def Let_def)

definition sample_wrote :: "worker \<Rightarrow> row_change \<Rightarrow> worker" where
  "sample_wrote w c = w\<lparr>wk_row := Some c\<rparr>"

definition sample_bought :: row_change where
  "sample_bought = Put (sold_row 4 (sample_row 7 10))"

abbreviation sample_step :: "cluster \<Rightarrow> cluster \<Rightarrow> bool" where
  "sample_step \<equiv> cluster_step (\<lambda>x. x) (NewPostgres 86400000000000)"

definition buyer_claimed :: worker where
  "buyer_claimed = sample_claimed sample_buyer sample_request ''k1''"

definition waiter_claimed :: worker where
  "waiter_claimed = sample_claimed sample_waiter sample_rival ''k2''"

lemmas sample_stage_defs = buyer_claimed_def waiter_claimed_def sample_wrote_def sample_bought_def

lemma sample_text: "text_ok ''k1''" "text_ok ''k2''"
  by (simp_all add: text_ok_def byte_val_def)

lemma sample_claim_buyer:
  "sample_step (sample_at (Some sample_buyer) b c n) (sample_at (Some buyer_claimed) b c n)"
  if "b = Some sample_editor" "c = Some sample_waiter"
proof -
  have free: "\<forall>j. \<not> waits_for (sample_at (Some sample_buyer) b c n) 0 j"
    unfolding that sample_waits by (auto simp: held_def sample_defs)
  have nl: "next_lock sample_buyer = Some (KeyLock 1 ''k1'')" "wk_job sample_buyer = Buying sample_request ''k1''"
    by (simp_all add: next_lock_def sample_defs)
  have q: "queryInsertIdempotency (ord_UserID sample_request) ''k1'' (hashOrderRequest (\<lambda>x. x) sample_request)
      (interval_us (idempotencyTTL (NewPostgres 86400000000000))) (wk_now sample_buyer) (seen sample_buyer (cl_db (sample_at (Some sample_buyer) b c n)))
    = Inr (1, (seen sample_buyer (sample_db\<lparr>outbox_seq := n\<rparr>))\<lparr>idempotency_keys := [sample_key sample_request ''k1'' (wk_now sample_buyer) None]\<rparr>)"
    unfolding sample_at_sel by (rule claim_sample) (simp_all add: nl sample_text sample_buyer_def open_tx_def)
  show ?thesis
    using cluster_step.claim_key [OF sample_at_sel(1) nl(2,1) free q]
    by (simp add: sample_at_upd sample_key_def buyer_claimed_def sample_claimed_def)
qed

lemma sample_claim_waiter:
  "sample_step (sample_at (Some buyer_claimed) (Some sample_editor) (Some sample_waiter) 1)
     (sample_at (Some buyer_claimed) (Some sample_editor) (Some waiter_claimed) 1)" (is "sample_step ?s _")
proof -
  have free: "\<forall>j. \<not> waits_for ?s 3 j"
    unfolding sample_waits by (auto simp: held_def next_lock_def sample_stage_defs sample_defs)
  have nl: "next_lock sample_waiter = Some (KeyLock 2 ''k2'')" "wk_job sample_waiter = Buying sample_rival ''k2''"
    by (simp_all add: next_lock_def sample_defs)
  have q: "queryInsertIdempotency (ord_UserID sample_rival) ''k2'' (hashOrderRequest (\<lambda>x. x) sample_rival)
      (interval_us (idempotencyTTL (NewPostgres 86400000000000))) (wk_now sample_waiter) (seen sample_waiter (cl_db ?s))
    = Inr (1, (seen sample_waiter (sample_db\<lparr>outbox_seq := 1\<rparr>))\<lparr>idempotency_keys := [sample_key sample_rival ''k2'' (wk_now sample_waiter) None]\<rparr>)"
    unfolding sample_at_sel by (rule claim_sample) (simp_all add: nl sample_text sample_waiter_def open_tx_def)
  show ?thesis
    using cluster_step.claim_key [OF sample_at_sel(3) nl(2,1) free q]
    by (simp add: sample_at_upd sample_key_def waiter_claimed_def sample_claimed_def)
qed

lemma sample_write_buyer:
  "sample_step (sample_at (Some buyer_claimed) (Some sample_editor) (Some waiter_claimed) 1)
     (sample_at (Some (sample_wrote buyer_claimed sample_bought)) (Some sample_editor) (Some waiter_claimed) 1)" (is "sample_step ?s _")
proof -
  have free: "\<forall>j. \<not> waits_for ?s 0 j"
    unfolding sample_waits by (auto simp: held_def next_lock_def sample_stage_defs sample_defs)
  have nl: "next_lock buyer_claimed = Some (ProductLock 7)"
    by (simp add: next_lock_def sample_stage_defs sample_defs)
  have w: "job_write (wk_job buyer_claimed) (wk_now buyer_claimed) (seen buyer_claimed (cl_db ?s)) = Some sample_bought"
    by (simp add: sample_at_sel seen_def sample_stage_defs sample_defs queryPurchase_def sample_db_def sample_row_def
        sold_row_def int32_ok_def int64_ok_def Let_def)
  show ?thesis
    using cluster_step.write_row [OF sample_at_sel(1) nl free w] by (simp add: sample_at_upd sample_wrote_def)
qed

definition buyer_wrote :: worker where
  "buyer_wrote = sample_wrote buyer_claimed sample_bought"

definition editor_wrote :: worker where
  "editor_wrote = sample_wrote sample_editor (Put sample_edited)"

definition buyer_ordered :: worker where
  "buyer_ordered = buyer_wrote\<lparr>wk_order := Some (order_row sample_request (sample_row 7 10) 100)\<rparr>"

definition buyer_queued :: worker where
  "buyer_queued = buyer_ordered\<lparr>wk_out := Some (sample_queued sample_buyer sample_bought 1)\<rparr>"

definition editor_queued :: worker where
  "editor_queued = editor_wrote\<lparr>wk_out := Some (sample_queued sample_editor (Put sample_edited) 2)\<rparr>"

lemmas sample_worker_defs = sample_stage_defs sample_defs buyer_wrote_def editor_wrote_def buyer_ordered_def buyer_queued_def
  editor_queued_def sample_queued_def Let_def

lemma sample_waiting: "sample_reach (sample_at (Some buyer_wrote) (Some sample_editor) (Some waiter_claimed) 1)"
  unfolding buyer_wrote_def
  by (rule cluster_reach.step [OF cluster_reach.step [OF cluster_reach.step
        [OF sample_begun sample_claim_buyer [OF refl refl]] sample_claim_waiter] sample_write_buyer])

lemma sample_write_editor:
  "sample_step (sample_at (Some buyer_wrote) (Some sample_editor) (Some waiter_claimed) 1)
     (sample_at (Some buyer_wrote) (Some editor_wrote) (Some waiter_claimed) 1)" (is "sample_step ?s _")
proof -
  have free: "\<forall>j. \<not> waits_for ?s 2 j"
    unfolding sample_waits by (auto simp: held_def next_lock_def sample_worker_defs sold_row_def sample_row_def)
  have nl: "next_lock sample_editor = Some (ProductLock 5)"
    by (simp add: next_lock_def sample_defs)
  have w: "job_write (wk_job sample_editor) (wk_now sample_editor) (seen sample_editor (cl_db ?s)) = Some (Put sample_edited)"
    by (simp add: sample_at_sel seen_def sample_defs queryUpdate_def sample_db_def sample_row_def text_ok_def byte_val_def
        utf8_len_def is_cont_def varchar_fit_def products_check_def int64_ok_def Let_def)
  show ?thesis
    using cluster_step.write_row [OF sample_at_sel(2) nl free w] by (simp add: sample_at_upd editor_wrote_def sample_wrote_def)
qed

lemma sample_order_buyer:
  "sample_step (sample_at (Some buyer_wrote) (Some editor_wrote) (Some waiter_claimed) 1)
     (sample_at (Some buyer_ordered) (Some editor_wrote) (Some waiter_claimed) 1)" (is "sample_step ?s _")
proof -
  have free: "\<forall>j. \<not> waits_for ?s 0 j"
    unfolding sample_waits by (auto simp: held_def next_lock_def sample_worker_defs)
  have nl: "next_lock buyer_wrote = Some (OrderLock 40)" "wk_job buyer_wrote = Buying sample_request ''k1''"
    "wk_row buyer_wrote = Some sample_bought"
    by (simp_all add: next_lock_def sample_worker_defs)
  have q: "queryInsertOrder (ord_ID sample_request) (ord_UserID sample_request) (ord_ProductID sample_request) (ord_Quantity sample_request)
      (MinorAmount (prod_Price (change_product sample_bought))) (Currency (prod_Price (change_product sample_bought)))
      (wk_now buyer_wrote) (seen buyer_wrote (cl_db ?s))
    = Inr ([100], (seen buyer_wrote (cl_db ?s))\<lparr>orders := [order_row sample_request (sample_row 7 10) 100]\<rparr>)"
    by (simp add: sample_at_sel seen_def sample_worker_defs queryInsertOrder_def sample_db_def empty_database_def sample_row_def
        sold_row_def scanProduct_def text_ok_def byte_val_def utf8_len_def is_cont_def varchar_fit_def orders_check_def
        order_row_def update_key_def)
  show ?thesis
    using cluster_step.insert_order [OF sample_at_sel(1) nl(2,1) free nl(3) q] by (simp add: sample_at_upd buyer_ordered_def)
qed

lemma sample_queue_buyer:
  "sample_step (sample_at (Some buyer_ordered) (Some editor_wrote) (Some waiter_claimed) 1)
     (sample_at (Some buyer_queued) (Some editor_wrote) (Some waiter_claimed) 2)" (is "sample_step ?s _")
proof -
  let ?e = "job_event (wk_eid buyer_ordered) (wk_at buyer_ordered) (wk_job buyer_ordered) sample_bought"
  have nl: "next_lock buyer_ordered = None" "wk_row buyer_ordered = Some sample_bought" "wk_out buyer_ordered = None"
    by (simp_all add: next_lock_def sample_worker_defs)
  have q: "queryInsertOutbox (EventID ?e) (EventType ?e) (event_json ?e) (wk_now buyer_ordered) (seen buyer_ordered (cl_db ?s))
    = Inr (1, (seen buyer_ordered (cl_db ?s))\<lparr>outbox := [sample_queued sample_buyer sample_bought 1], outbox_seq := 2\<rparr>)"
    by (simp add: sample_at_sel queryInsertOutbox_def seen_def sample_worker_defs sample_db_def empty_database_def)
  show ?thesis
    using cluster_step.queue_event [OF sample_at_sel(1) nl(1,2,3) refl q]
    by (simp only: sample_at_upd) (simp add: sample_at_upd buyer_queued_def)
qed

lemma sample_queue_editor:
  "sample_step (sample_at (Some buyer_queued) (Some editor_wrote) (Some waiter_claimed) 2)
     (sample_at (Some buyer_queued) (Some editor_queued) (Some waiter_claimed) 3)" (is "sample_step ?s _")
proof -
  let ?e = "job_event (wk_eid editor_wrote) (wk_at editor_wrote) (wk_job editor_wrote) (Put sample_edited)"
  have nl: "next_lock editor_wrote = None" "wk_row editor_wrote = Some (Put sample_edited)" "wk_out editor_wrote = None"
    by (simp_all add: next_lock_def sample_worker_defs)
  have q: "queryInsertOutbox (EventID ?e) (EventType ?e) (event_json ?e) (wk_now editor_wrote) (seen editor_wrote (cl_db ?s))
    = Inr (1, (seen editor_wrote (cl_db ?s))\<lparr>outbox := [sample_queued sample_editor (Put sample_edited) 2], outbox_seq := 3\<rparr>)"
    by (simp add: sample_at_sel queryInsertOutbox_def seen_def sample_worker_defs sample_db_def empty_database_def)
  show ?thesis
    using cluster_step.queue_event [OF sample_at_sel(2) nl(1,2,3) refl q]
    by (simp only: sample_at_upd) (simp add: sample_at_upd editor_queued_def)
qed

lemma sample_both_queued: "sample_reach (sample_at (Some buyer_queued) (Some editor_queued) (Some waiter_claimed) 3)"
  by (rule cluster_reach.step [OF cluster_reach.step [OF cluster_reach.step [OF cluster_reach.step
        [OF sample_waiting sample_write_editor] sample_order_buyer] sample_queue_buyer] sample_queue_editor])

lemma sample_outcome:
  obtains s where "sample_reach s"
    "map (\<lambda>(n, e). (n, EventProductID e, EventType e)) (cl_log s) = [(2, 5, TypeUpdated), (1, 7, TypePurchased)]"
proof -
  let ?s0 = "sample_at (Some buyer_queued) (Some editor_queued) (Some waiter_claimed) 3"
  let ?ee = "job_event (wk_eid editor_queued) (wk_at editor_queued) (wk_job editor_queued) (Put sample_edited)"
  let ?s1 = "runs_on (?s0\<lparr>cl_db := seen editor_queued (cl_db ?s0), cl_log := cl_log ?s0 @ [(2, ?ee)]\<rparr>) 2 None"
  have "\<forall>k. wk_key editor_queued = Some k \<longrightarrow> ik_order_id k \<noteq> None" by (simp add: sample_worker_defs)
  then have 1: "sample_step ?s0 ?s1"
    using cluster_step.commit_tx [OF sample_at_sel(2) [of "Some buyer_queued" "Some editor_queued"], of "Put sample_edited"
        "sample_queued sample_editor (Put sample_edited) 2"]
    by (simp add: editor_queued_def editor_wrote_def sample_wrote_def sample_queued_def Let_def)
  let ?key = "sample_key sample_request ''k1'' 100"
  define db1 where "db1 = seen buyer_queued (cl_db ?s1)"
  have w1: "cl_workers ?s1 0 = Some buyer_queued" "wk_job buyer_queued = Buying sample_request ''k1''"
    "wk_out buyer_queued = Some (sample_queued sample_buyer sample_bought 1)"
    by (simp_all add: sample_at_sel sample_worker_defs)
  have keys: "idempotency_keys db1 = [?key None]" "map o_id (orders db1) = [40]"
    by (simp_all add: db1_def sample_at_sel seen_def sample_worker_defs sample_db_def empty_database_def upsert_key_def order_row_def)
  have q: "queryUpdateIdempotencyResult (ord_UserID sample_request) ''k1'' (ord_ID sample_request) (wk_now buyer_queued) db1
      = Inr (1, db1\<lparr>idempotency_keys := [?key (Some 40)]\<rparr>)"
    using keys by (auto simp: queryUpdateIdempotencyResult_def update_key_def sample_key_def sample_request_def)
  define v where "v = buyer_queued\<lparr>wk_key := Some (?key (Some 40))\<rparr>"
  let ?s2 = "runs_on ?s1 0 (Some v)"
  have 2: "sample_step ?s1 ?s2"
    using cluster_step.settle_key [OF w1 q [unfolded db1_def]] by (simp add: v_def sample_key_def)
  let ?e = "job_event (wk_eid v) (wk_at v) (wk_job v) sample_bought"
  have w2: "cl_workers ?s2 0 = Some v" "wk_row v = Some sample_bought" "wk_out v = Some (sample_queued sample_buyer sample_bought 1)"
    "\<forall>k. wk_key v = Some k \<longrightarrow> ik_order_id k \<noteq> None"
    by (simp_all add: v_def sample_worker_defs)
  note 3 = cluster_step.commit_tx [OF w2]
  have "EventProductID ?ee = 5" "EventProductID ?e = 7" "EventType ?ee = TypeUpdated" "EventType ?e = TypePurchased"
    by (simp_all add: v_def sample_worker_defs event_New_def NewPurchased_def scanProduct_def sold_row_def sample_row_def)
  moreover have "cl_log ?s0 = []" by (simp add: sample_at_def)
  ultimately show ?thesis
    by (intro that [OF cluster_reach.step [OF cluster_reach.step [OF cluster_reach.step [OF sample_both_queued 1] 2] 3]])
      (simp add: sample_queued_def Let_def)
qed

lemma sample_in_order: "in_order (\<lambda>x. x) sample_db"
  using sample_db_wf sample_db_settled by (simp add: in_order_def)

theorem interleaved_is_serial_witness:
  "\<exists>(s::cluster) b. map fst (cl_log s) = [2, 1] \<and> (serial_commit (\<lambda>x. x) (NewPostgres 86400000000000) ^^ 2) sample_db b
     \<and> same_but_numbers (cl_db s) b"
proof -
  obtain s where s: "sample_reach s" "map (\<lambda>(n, e). (n, EventProductID e, EventType e)) (cl_log s) = [(2, 5, TypeUpdated), (1, 7, TypePurchased)]"
    by (rule sample_outcome)
  then have "map fst (cl_log s) = [2, 1]" "length (cl_log s) = 2" by (auto simp: map_eq_Cons_conv)
  moreover obtain b where "(serial_commit (\<lambda>x. x) (NewPostgres 86400000000000) ^^ length (cl_log s)) sample_db b"
    "same_but_numbers (cl_db s) b"
    using interleaved_is_serial [OF s(1) sample_in_order] by (elim exE conjE)
  ultimately show ?thesis by (intro exI [of _ s] exI [of _ b]) simp
qed

theorem no_deadlock_witness:
  "waits_for (sample_at (Some buyer_wrote) (Some sample_editor) (Some waiter_claimed) 1) 3 0
   \<and> \<not> (waits_for (sample_at (Some buyer_wrote) (Some sample_editor) (Some waiter_claimed) 1))\<^sup>+\<^sup>+ 3 3"
  using no_deadlock [OF sample_waiting sample_in_order]
  by (simp add: sample_waits held_def next_lock_def sample_worker_defs sold_row_def sample_row_def)

theorem events_in_version_order_witness:
  "\<exists>(s::cluster) e1 e2. cl_log s = [(2, e2), (1, e1)] \<and> EventVersion e1 = 2"
proof -
  obtain s where s: "sample_reach s" "map (\<lambda>(n, e). (n, EventProductID e, EventType e)) (cl_log s) = [(2, 5, TypeUpdated), (1, 7, TypePurchased)]"
    by (rule sample_outcome)
  then obtain e1 e2 where log: "cl_log s = [(2, e2), (1, e1)]" "EventProductID e2 = 5" "EventProductID e1 = 7"
    "EventType e1 = TypePurchased"
    by (auto simp: map_eq_Cons_conv)
  have "version_in sample_db 7 = Some 1"
    by (simp add: version_in_def sample_db_def sample_row_def)
  then have "EventVersion e1 = 2"
    using events_in_version_order [OF s(1) sample_in_order, of 7] log
    by (simp add: events_of_def TypeCreated_def TypePurchased_def split: if_splits)
  then show ?thesis using log(1) by blast
qed

end
