(* ===== verification/Relays.thy ===== *)
theory Relays
  imports Outbox_Store
begin

text \<open>
  Several relays at once. A round of one relay is a transaction that lasts as long as its calls of the broker; in
  the meantime other relays run rounds of their own and writers commit new events. Here the rounds
  are interleaved call by call: a relay claims rows with \<open>FOR UPDATE SKIP LOCKED\<close>, hands them over one by one,
  and settles what came of them with its commit, or its transaction ends in a rollback at any point.
\<close>

section \<open>Rounds under way\<close>

text \<open>An open round: the start that is its \<open>now()\<close>, the limit of attempts, the rows it holds and the broker's answers so far.\<close>

record round =
  rd_now :: timestamp
  rd_max :: int
  rd_batch :: "outbox_row list"
  rd_answers :: "go_error option list"

text \<open>
  The tables, the open rounds, and as histories the ids of all rows that were ever in the outbox, those the
  broker has accepted and those a committed round deleted as sent.
\<close>

record relays =
  rl_db :: database
  rl_rounds :: "nat \<Rightarrow> round option"
  rl_queued :: "int list"
  rl_accepted :: "int list"
  rl_sent :: "int list"

definition round_ids :: "round \<Rightarrow> int set" where
  "round_ids v = or_id ` set (rd_batch v)"

definition row_locked :: "relays \<Rightarrow> int \<Rightarrow> bool" where
  "row_locked s k \<longleftrightarrow> (\<exists>i v. rl_rounds s i = Some v \<and> k \<in> round_ids v)"

text \<open>The answers of a round as a publish function, for \<open>publishBatch\<close>.\<close>

fun next_answer :: "go_error option list publish" where
  "next_answer rec [] = (None, [])"
| "next_answer rec (a # as) = (a, as)"

abbreviation healthy_at :: "timestamp \<Rightarrow> database \<Rightarrow> conn" where
  "healthy_at now db \<equiv> \<lparr>tables = db, clock = now, script = []\<rparr>"

abbreviation round_on :: "relays \<Rightarrow> nat \<Rightarrow> round option \<Rightarrow> relays" where
  "round_on s i v \<equiv> s\<lparr>rl_rounds := (rl_rounds s)(i := v)\<rparr>"

text \<open>The loop of \<open>publishBatch\<close> has ended: every row has its answer, or one was a transient failure.\<close>

definition all_answered :: "round \<Rightarrow> bool" where
  "all_answered v \<longleftrightarrow> length (rd_answers v) = length (rd_batch v) \<or> list_ex transient (rd_answers v)"

inductive relays_step :: "relays \<Rightarrow> relays \<Rightarrow> bool" where
  claim_batch: "rl_rounds s i = None \<Longrightarrow> claimOutbox (row_locked s) n (healthy_at now (rl_db s)) = (Inr batch, c) \<Longrightarrow>
    batch \<noteq> [] \<Longrightarrow>
    relays_step s (round_on s i (Some \<lparr>rd_now = now, rd_max = m, rd_batch = batch, rd_answers = []\<rparr>))"
| publish_row: "rl_rounds s i = Some v \<Longrightarrow> \<not> all_answered v \<Longrightarrow>
    relays_step s (round_on (s\<lparr>rl_accepted := rl_accepted s @
        (if e = None then [or_id (rd_batch v ! length (rd_answers v))] else [])\<rparr>) i
      (Some (v\<lparr>rd_answers := rd_answers v @ [e]\<rparr>)))"
| settle_batch: "rl_rounds s i = Some v \<Longrightarrow> all_answered v \<Longrightarrow>
    publishBatch next_answer (rd_batch v) (rd_answers v) = ((sent, failed), b) \<Longrightarrow>
    classifyFailures failed (rd_max v) = (bump, dead, tr) \<Longrightarrow>
    settle sent bump dead (healthy_at (rd_now v) (rl_db s)) = (Inr (), c) \<Longrightarrow>
    relays_step s (round_on (s\<lparr>rl_db := tables c, rl_sent := rl_sent s @ sent\<rparr>) i None)"
| give_up: "relays_step s (round_on s i None)"
| new_events: "outbox db = outbox (rl_db s) @ rows \<Longrightarrow> outbox_dead db = outbox_dead (rl_db s) \<Longrightarrow>
    distinct (map ob_id rows) \<Longrightarrow> \<forall>r\<in>set rows. ob_id r \<notin> set (rl_queued s) \<Longrightarrow>
    relays_step s (s\<lparr>rl_db := db, rl_queued := rl_queued s @ map ob_id rows\<rparr>)"

inductive_cases relays_stepE [consumes 1, case_names claim_batch publish_row settle_batch give_up new_events]:
  "relays_step s s'"

definition relays_start :: "database \<Rightarrow> relays" where
  "relays_start db = \<lparr>rl_db = db, rl_rounds = (\<lambda>_. None),
     rl_queued = map ob_id (outbox db) @ map od_id (outbox_dead db), rl_accepted = [], rl_sent = []\<rparr>"

inductive relays_reach :: "database \<Rightarrow> relays \<Rightarrow> bool" for db0 where
  init: "relays_reach db0 (relays_start db0)"
| step: "relays_reach db0 s \<Longrightarrow> relays_step s s' \<Longrightarrow> relays_reach db0 s'"

section \<open>One round after the other\<close>

text \<open>The reference: whole rounds of \<open>DrainBatch\<close> on a healthy connection, and commits of writers in between.\<close>

inductive serial_round :: "database \<Rightarrow> database \<Rightarrow> bool" where
  drained: "DrainBatch locked n m next_answer as (healthy_at now a) = ((k, full, tr), b, c) \<Longrightarrow> serial_round a (tables c)"
| written: "outbox b = outbox a @ rows \<Longrightarrow> outbox_dead b = outbox_dead a \<Longrightarrow> serial_round a b"

section \<open>What an open round knows\<close>

text \<open>The rows it holds are those it would claim now if it were to take just them: nobody else may touch them.\<close>

definition held_rows :: "database \<Rightarrow> round \<Rightarrow> outbox_table_row list" where
  "held_rows db v = sort_key ob_id (filter (\<lambda>r. ob_next_attempt_at r \<le> rd_now v \<and> ob_id r \<in> round_ids v) (outbox db))"

definition round_ok :: "relays \<Rightarrow> round \<Rightarrow> bool" where
  "round_ok s v \<longleftrightarrow> rd_batch v \<noteq> [] \<and> rd_batch v = map scanOutbox (held_rows (rl_db s) v)
     \<and> length (rd_answers v) \<le> length (rd_batch v) \<and> (\<forall>a\<in>set (butlast (rd_answers v)). \<not> transient a)
     \<and> (\<forall>(row, a)\<in>set (zip (rd_batch v) (rd_answers v)). a = None \<longrightarrow> or_id row \<in> set (rl_accepted s))"

definition outbox_ids :: "relays \<Rightarrow> int list" where
  "outbox_ids s = map ob_id (outbox (rl_db s)) @ rl_sent s @ map od_id (outbox_dead (rl_db s))"

definition relays_ok :: "relays \<Rightarrow> bool" where
  "relays_ok s \<longleftrightarrow> distinct (outbox_ids s) \<and> set (rl_queued s) = set (outbox_ids s)
     \<and> set (rl_sent s) \<subseteq> set (rl_accepted s)
     \<and> (\<forall>i v. rl_rounds s i = Some v \<longrightarrow> round_ok s v)
     \<and> (\<forall>i j v u. i \<noteq> j \<longrightarrow> rl_rounds s i = Some v \<longrightarrow> rl_rounds s j = Some u \<longrightarrow> round_ids v \<inter> round_ids u = {})"

lemma distinct_key_sorted_unique:
  fixes f :: "'r \<Rightarrow> int"
  assumes "set xs = set ys" "distinct (map f xs)" "distinct (map f ys)" "sorted (map f xs)" "sorted (map f ys)"
  shows "xs = ys"
proof -
  have "map f xs = map f ys"
    using assms by (intro sorted_distinct_set_unique) auto
  moreover have "inj_on f (set xs \<union> set ys)" using assms(1,2) by (simp add: distinct_map)
  ultimately show ?thesis using map_inj_on by blast
qed

lemma due_held:
  assumes "distinct (map ob_id (outbox db))" "batch = map scanOutbox (due locked n (rd_now v) db)" "rd_batch v = batch"
  shows "due locked n (rd_now v) db = held_rows db v"
proof -
  let ?rows = "due locked n (rd_now v) db"
  have ids: "round_ids v = ob_id ` set ?rows" by (simp add: round_ids_def assms(2,3) image_image)
  have sub: "set ?rows \<subseteq> {r \<in> set (outbox db). ob_next_attempt_at r \<le> rd_now v}"
    unfolding due_def by (auto dest: in_set_takeD)
  have inj: "inj_on ob_id (set (outbox db))" using assms(1) by (simp add: distinct_map)
  have "set (held_rows db v) = {r \<in> set (outbox db). ob_next_attempt_at r \<le> rd_now v \<and> ob_id r \<in> ob_id ` set ?rows}"
    by (simp add: held_rows_def ids)
  also have "\<dots> = set ?rows" using sub inj by (auto simp: inj_on_def)
  finally have "set (held_rows db v) = set ?rows" .
  moreover have "distinct (map ob_id ?rows)" "distinct (map ob_id (held_rows db v))"
    unfolding due_def held_rows_def take_map [symmetric]
    by (intro distinct_take sort_key_distinct distinct_map_filter assms(1))+
  moreover have "sorted (map ob_id ?rows)" "sorted (map ob_id (held_rows db v))"
    unfolding due_def held_rows_def take_map [symmetric] by (simp_all add: sorted_wrt_take)
  ultimately show ?thesis by (intro distinct_key_sorted_unique [of _ _ ob_id]) simp_all
qed

text \<open>Taking just the rows of the round, at its time, claims exactly its batch.\<close>

lemma due_own_rows: "due (\<lambda>k. k \<notin> round_ids v) (int (length (held_rows db v))) (rd_now v) db = held_rows db v"
  by (simp add: due_def held_rows_def)

lemma held_rows_append:
  assumes "\<forall>r\<in>set rows. ob_id r \<notin> round_ids v" "outbox b = outbox a @ rows"
  shows "held_rows b v = held_rows a v"
proof -
  have "filter (\<lambda>r. ob_next_attempt_at r \<le> rd_now v \<and> ob_id r \<in> round_ids v) rows = []"
    using assms(1) by (auto simp: filter_empty_conv)
  then show ?thesis by (simp add: held_rows_def assms(2))
qed

lemma held_rows_settled:
  assumes "\<forall>k\<in>set sent \<union> set bump \<union> or_id ` f_row ` set dead. k \<notin> round_ids v"
  shows "held_rows (settled_db now sent bump dead db) v = held_rows db v"
proof -
  have "filter (\<lambda>r. ob_next_attempt_at r \<le> rd_now v \<and> ob_id r \<in> round_ids v) (settle_rows now sent bump dids ob)
      = filter (\<lambda>r. ob_next_attempt_at r \<le> rd_now v \<and> ob_id r \<in> round_ids v) ob"
    if "\<forall>k\<in>set sent \<union> set bump \<union> set dids. k \<notin> round_ids v" for dids ob
    using that by (induction ob) (auto simp: settle_rows_def)
  then show ?thesis using assms by (simp add: held_rows_def settled_db_def image_image)
qed

lemma publish_answers:
  assumes "length as = length rows \<or> list_ex transient as" "length as \<le> length rows" "\<forall>a\<in>set (butlast as). \<not> transient a"
  shows "publish_calls next_answer rows as = zip rows as"
  using assms
proof (induction rows arbitrary: as)
  case (Cons row rows)
  then obtain a rest where a: "as = a # rest" by (cases as) auto
  show ?case
  proof (cases "transient a")
    case True
    then have "rest = []" using Cons.prems(3) a by (cases rest) auto
    then show ?thesis using a True by simp
  next
    case False
    have "publish_calls next_answer rows rest = zip rows rest"
      by (rule Cons.IH) (use Cons.prems a False in \<open>auto split: if_splits\<close>)
    then show ?thesis using a False by simp
  qed
qed simp

lemma ids_settled: "map ob_id (settle_rows now sent bump dids ob) = filter (\<lambda>k. k \<notin> set sent \<and> k \<notin> set dids) (map ob_id ob)"
  by (induction ob) (auto simp: settle_rows_def)

text \<open>What a finished round settles: disjoint parts of its batch, and what it deletes as sent was accepted.\<close>

lemma settled_parts:
  assumes ok: "round_ok s v" and dist: "distinct (map ob_id (outbox (rl_db s)))" and fin: "all_answered v"
    and pub: "publishBatch next_answer (rd_batch v) (rd_answers v) = ((sent, failed), b)"
    and cl: "classifyFailures failed (rd_max v) = (bump, dead, tr)"
  shows "set sent \<union> set bump \<union> or_id ` f_row ` set dead \<subseteq> round_ids v"
    "distinct (sent @ map (or_id \<circ> f_row) dead)" "set sent \<subseteq> set (rl_accepted s)"
proof -
  let ?conn = "healthy_at (rd_now v) (rl_db s)" and ?lk = "\<lambda>k. k \<notin> round_ids v" and ?n = "int (length (held_rows (rl_db s) v))"
  let ?calls = "zip (rd_batch v) (rd_answers v)"
  have batch: "rd_batch v = map scanOutbox (due ?lk ?n (clock ?conn) (tables ?conn))"
    using ok by (simp add: round_ok_def due_own_rows)
  have calls: "round_calls ?lk ?n next_answer (rd_answers v) ?conn = ?calls"
    unfolding round_calls_def batch [symmetric]
    by (rule publish_answers) (use ok fin in \<open>auto simp: round_ok_def all_answered_def\<close>)
  note parts = round_lists [OF pub [unfolded batch] cl, unfolded calls]
  have d: "distinct (map (or_id \<circ> fst) ?calls)"
  proof -
    have "distinct (map or_id (rd_batch v))"
      using ok dist by (simp add: round_ok_def comp_def held_rows_def sort_key_distinct distinct_map_filter)
    moreover have "map (or_id \<circ> fst) ?calls = take (min (length (rd_batch v)) (length (rd_answers v))) (map or_id (rd_batch v))"
      by (metis map_fst_zip_take map_map take_map)
    ultimately show ?thesis by simp
  qed
  have row: "c \<in> set ?calls \<Longrightarrow> or_id (fst c) \<in> round_ids v" for c
    unfolding round_ids_def by (cases c) (auto dest: set_zip_leftD)
  then show "set sent \<union> set bump \<union> or_id ` f_row ` set dead \<subseteq> round_ids v"
    unfolding parts(1,2,3) round_dead_def by auto
  show "set sent \<subseteq> set (rl_accepted s)"
    using ok unfolding parts(1) round_ok_def by fastforce
  have "map (or_id \<circ> f_row) dead = map (or_id \<circ> fst) (filter (\<lambda>c. snd c \<noteq> None \<and> errors_is (the (snd c)) ErrUndeliverable
      \<and> or_attempts (fst c) + 1 \<ge> rd_max v) ?calls)"
    unfolding parts(3) round_dead_def by (simp add: comp_def)
  moreover have "distinct (map (or_id \<circ> fst) (filter P ?calls) @ map (or_id \<circ> fst) (filter Q ?calls))"
    if "\<And>c. P c \<Longrightarrow> \<not> Q c" for P Q
    using d that by (auto simp: distinct_map inj_on_def)
  ultimately show "distinct (sent @ map (or_id \<circ> f_row) dead)" unfolding parts(1) by simp
qed

lemma relays_okD:
  assumes "relays_ok s"
  shows "distinct (map ob_id (outbox (rl_db s)))" "rl_rounds s i = Some v \<Longrightarrow> round_ok s v"
    "i \<noteq> j \<Longrightarrow> rl_rounds s i = Some v \<Longrightarrow> rl_rounds s j = Some u \<Longrightarrow> round_ids v \<inter> round_ids u = {}"
  using assms by (auto simp: relays_ok_def outbox_ids_def)

lemma claim_keeps:
  assumes ok: "relays_ok s" and claim: "claimOutbox (row_locked s) n (healthy_at now (rl_db s)) = (Inr batch, c)"
    and "batch \<noteq> []" "v = \<lparr>rd_now = now, rd_max = m, rd_batch = batch, rd_answers = []\<rparr>"
  shows "round_ok s v" "k \<in> round_ids v \<Longrightarrow> \<not> row_locked s k"
proof -
  have batch: "batch = map scanOutbox (due (row_locked s) n (rd_now v) (rl_db s))" "rd_batch v = batch"
    using claim assms(4) by (simp_all add: claimOutbox_run split: if_splits)
  then show "round_ok s v"
    using due_held [OF relays_okD(1) [OF ok] batch] assms(3,4) by (simp add: round_ok_def)
  show "\<not> row_locked s k" if "k \<in> round_ids v"
    using that unfolding round_ids_def batch due_def by (auto dest: in_set_takeD)
qed

lemma answers_upd [simp]:
  "round_ids (v\<lparr>rd_answers := as\<rparr>) = round_ids v" "held_rows db (v\<lparr>rd_answers := as\<rparr>) = held_rows db v"
  by (simp_all add: round_ids_def held_rows_def)

lemma round_ok_local:
  assumes "round_ok s v" "held_rows (rl_db s') v = held_rows (rl_db s) v" "set (rl_accepted s) \<subseteq> set (rl_accepted s')"
  shows "round_ok s' v"
  using assms unfolding round_ok_def by (metis (mono_tags, lifting) case_prodI2 case_prodD subsetD)

lemma round_ids_pending:
  assumes "round_ok s v"
  shows "round_ids v \<subseteq> ob_id ` set (outbox (rl_db s))"
proof -
  have "rd_batch v = map scanOutbox (held_rows (rl_db s) v)" using assms by (simp add: round_ok_def)
  then have "round_ids v = ob_id ` set (held_rows (rl_db s) v)"
    using round_ids_def [of v] by (metis (no_types, lifting) image_cong image_image list.set_map or_id_scanOutbox(1))
  then show ?thesis by (auto simp: held_rows_def)
qed

lemma zip_snoc: "length ys < length xs \<Longrightarrow> zip xs (ys @ [e]) = zip xs ys @ [(xs ! length ys, e)]"
proof (induction xs arbitrary: ys)
  case (Cons x xs)
  then show ?case by (cases ys) simp_all
qed simp

lemma round_on_sel [simp]: "round_ok (round_on s i x) v = round_ok s v" "outbox_ids (round_on s i x) = outbox_ids s"
  by (simp_all add: round_ok_def outbox_ids_def)

lemma relays_ok_step:
  assumes "relays_step s s'" "relays_ok s"
  shows "relays_ok s'"
  using assms(1)
proof (cases rule: relays_stepE)
  case (claim_batch i n now batch c m)
  note keeps = claim_keeps [OF assms(2) claim_batch(3,4) refl, where m = m]
  have "round_ids v \<inter> round_ids \<lparr>rd_now = now, rd_max = m, rd_batch = batch, rd_answers = []\<rparr> = {}"
    if "rl_rounds s j = Some v" for j v using keeps(2) that by (auto simp: row_locked_def)
  then show ?thesis
    using assms(2) keeps(1) unfolding relays_ok_def claim_batch(1) by (auto simp: Int_commute split: if_splits)
next
  case (publish_row i v e)
  let ?v = "v\<lparr>rd_answers := rd_answers v @ [e]\<rparr>"
  have v: "round_ok s v" using relays_okD(2) [OF assms(2) publish_row(2)] .
  have len: "length (rd_answers v) < length (rd_batch v)" "\<forall>a\<in>set (rd_answers v). \<not> transient a"
    using v publish_row(3) by (auto simp: round_ok_def all_answered_def list_ex_iff)
  have zip: "zip (rd_batch v) (rd_answers v @ [e]) = zip (rd_batch v) (rd_answers v) @ [(rd_batch v ! length (rd_answers v), e)]"
    using len(1) by (rule zip_snoc)
  have "round_ok s' ?v"
    using v len zip unfolding round_ok_def publish_row(1) by auto
  moreover have "round_ok s' u" if "round_ok s u" for u
    using round_ok_local [OF that] by (auto simp: publish_row(1))
  ultimately show ?thesis
    using assms(2) publish_row(2) unfolding relays_ok_def publish_row(1) outbox_ids_def by auto
next
  case (settle_batch i v sent failed b bump dead tr c)
  note v = relays_okD(2) [OF assms(2) settle_batch(2)]
  note parts = settled_parts [OF v relays_okD(1) [OF assms(2)] settle_batch(3,4,5)]
  have db: "rl_db s' = settled_db (rd_now v) sent bump dead (rl_db s)"
    using settle_ok(2) [OF settle_batch(6)] settle_batch(1) by simp
  have other: "round_ok s' u" if "j \<noteq> i" "rl_rounds s j = Some u" for j u
  proof -
    have "round_ids u \<inter> round_ids v = {}" using relays_okD(3) [OF assms(2) that(1) that(2) settle_batch(2)] .
    then have "held_rows (rl_db s') u = held_rows (rl_db s) u"
      unfolding db using parts(1) by (intro held_rows_settled) blast
    then show ?thesis
      using round_ok_local [OF relays_okD(2) [OF assms(2) that(2)]] by (simp add: settle_batch(1))
  qed
  have batch: "round_ids v \<subseteq> set (map ob_id (outbox (rl_db s)))"
    using round_ids_pending [OF v] by simp
  have dids: "map od_id (outbox_dead (rl_db s')) = map od_id (outbox_dead (rl_db s)) @ map (or_id \<circ> f_row) dead"
    unfolding db by (simp add: settled_db_def dead_row_def comp_def)
  have obids: "map ob_id (outbox (rl_db s')) =
      filter (\<lambda>k. k \<notin> set sent \<and> k \<notin> set (map (or_id \<circ> f_row) dead)) (map ob_id (outbox (rl_db s)))"
    unfolding db settled_db_def by (simp add: ids_settled)
  define pend where "pend = map ob_id (outbox (rl_db s))"
  define gone where "gone = map od_id (outbox_dead (rl_db s))"
  define new where "new = map (or_id \<circ> f_row) dead"
  have old: "distinct (pend @ rl_sent s @ gone)" using assms(2) by (simp add: relays_ok_def outbox_ids_def pend_def gone_def)
  have sub: "set sent \<union> set new \<subseteq> set pend" "distinct (sent @ new)"
    using subset_trans [OF parts(1) batch] parts(2) by (simp_all add: pend_def new_def image_image comp_def)
  have ids: "outbox_ids s' = filter (\<lambda>k. k \<notin> set sent \<and> k \<notin> set new) pend @ (rl_sent s @ sent) @ gone @ new"
    unfolding outbox_ids_def obids dids by (simp add: settle_batch(1) pend_def gone_def new_def)
  have "set (outbox_ids s') = set (pend @ rl_sent s @ gone)" unfolding ids using sub(1) by auto
  moreover have "distinct (outbox_ids s')" unfolding ids using old sub by auto
  ultimately have "distinct (outbox_ids s') \<and> set (rl_queued s') = set (outbox_ids s')"
    using assms(2) by (simp add: relays_ok_def outbox_ids_def pend_def gone_def settle_batch(1))
  then show ?thesis
    using assms(2) other parts(3) unfolding relays_ok_def by (auto simp: settle_batch(1) split: if_splits)
next
  case (give_up i)
  then show ?thesis using assms(2) unfolding relays_ok_def give_up by (auto split: if_splits)
next
  case (new_events db rows)
  have "held_rows db v = held_rows (rl_db s) v" if "rl_rounds s i = Some v" for i v
  proof (rule held_rows_append [OF _ new_events(2)])
    have "round_ids v \<subseteq> set (rl_queued s)"
      using round_ids_pending [OF relays_okD(2) [OF assms(2) that]] assms(2)
      by (auto simp: relays_ok_def outbox_ids_def)
    then show "\<forall>r\<in>set rows. ob_id r \<notin> round_ids v" using new_events(5) by auto
  qed
  then have "round_ok s' v" if "rl_rounds s i = Some v" for i v
    using round_ok_local [OF relays_okD(2) [OF assms(2) that]] that by (simp add: new_events(1))
  moreover have "distinct (outbox_ids s') \<and> set (rl_queued s') = set (outbox_ids s')"
  proof -
    define old where "old = map ob_id (outbox (rl_db s))"
    define rest where "rest = rl_sent s @ map od_id (outbox_dead (rl_db s))"
    define new where "new = map ob_id rows"
    have "distinct (old @ rest)" "set (rl_queued s) = set (old @ rest)"
      using assms(2) by (simp_all add: relays_ok_def outbox_ids_def old_def rest_def)
    moreover have "distinct new" "set new \<inter> set (rl_queued s) = {}"
      using new_events(4,5) by (auto simp: new_def)
    moreover have "outbox_ids s' = (old @ new) @ rest" "rl_queued s' = rl_queued s @ new"
      using new_events(2,3) by (simp_all add: outbox_ids_def new_events(1) old_def rest_def new_def)
    ultimately show ?thesis by auto
  qed
  ultimately show ?thesis
    using assms(2) unfolding relays_ok_def by (auto simp: new_events(1))
qed

lemma relays_invariant:
  assumes "relays_reach db0 s" "db_wf db0"
  shows "relays_ok s"
  using assms(1)
proof induction
  case init
  have "distinct (map ob_id (outbox db0) @ map od_id (outbox_dead db0))"
    using assms(2) by (auto simp: db_wf_def outbox_wf_def)
  then show ?case by (simp add: relays_ok_def relays_start_def outbox_ids_def)
qed (rule relays_ok_step)

text \<open>A round that settles did what \<open>DrainBatch\<close> does in one go at the time of its commit.\<close>

lemma settle_is_drain:
  assumes ok: "round_ok s v" and pub: "publishBatch next_answer (rd_batch v) (rd_answers v) = ((sent, failed), b)"
    and cl: "classifyFailures failed (rd_max v) = (bump, dead, tr)"
    and settled: "settle sent bump dead (healthy_at (rd_now v) (rl_db s)) = (Inr (), c)"
  shows "DrainBatch (\<lambda>k. k \<notin> round_ids v) (int (length (rd_batch v))) (rd_max v) next_answer (rd_answers v)
      (healthy_at (rd_now v) (rl_db s)) = ((length sent, True, tr), b, c)"
proof -
  let ?conn = "healthy_at (rd_now v) (rl_db s)"
  have n: "length (rd_batch v) = length (held_rows (rl_db s) v)" and ne: "rd_batch v \<noteq> []"
    using ok unfolding round_ok_def by (metis length_map)+
  have "claimOutbox (\<lambda>k. k \<notin> round_ids v) (int (length (rd_batch v))) ?conn = (Inr (rd_batch v), ?conn)"
    using ok by (simp add: claimOutbox_run n due_own_rows) (simp add: round_ok_def)
  moreover have "script c = []" using tx_frameD [OF settle_frame settled] by simp
  ultimately show ?thesis
    using pub cl settled ne
    by (simp add: DrainBatch_def tx_begin_def tx_tick_nil tx_commit_def next_fault_nil Let_def)
qed

lemma relays_step_serial:
  assumes "relays_step s s'" "relays_ok s"
  shows "rl_db s' = rl_db s \<or> serial_round (rl_db s) (rl_db s')"
  using assms(1)
proof (cases rule: relays_stepE)
  case (settle_batch i v sent failed b bump dead tr c)
  note drain = settle_is_drain [OF relays_okD(2) [OF assms(2) settle_batch(2)] settle_batch(4-6)]
  show ?thesis using serial_round.drained [OF drain] by (simp add: settle_batch(1))
next
  case (new_events db rows)
  then show ?thesis using serial_round.written by simp
qed simp_all

section \<open>Theorems\<close>

text \<open>
  C9: Any number of relays may run at once. However their rounds interleave with each other and with writers, call
  by call, and whichever of them are rolled back, the tables go through states that whole rounds of \<open>DrainBatch\<close>,
  one after the other on a healthy connection, and commits of writers lead to.
\<close>

theorem relays_are_serial:
  assumes "relays_reach db0 s" "db_wf db0"
  shows "serial_round\<^sup>*\<^sup>* db0 (rl_db s)"
  using assms(1)
proof induction
  case init
  then show ?case by (simp add: relays_start_def)
next
  case (step s s')
  then show ?case
    using relays_step_serial [OF step(2) relays_invariant [OF step(1) assms(2)]] by (auto intro: rtranclp.rtrancl_into_rtrancl)
qed

text \<open>
  C8: Relays share the work without a leader. No event is in the hands of two relays at once; every event
  that was ever in the outbox is there still, was deleted as sent by one committed round, which the broker had
  accepted it in, or is a dead letter, and only one of these; so that nothing is lost, and what a committed round sent
  is not sent again.
\<close>

theorem relays_share_the_work:
  assumes "relays_reach db0 s" "db_wf db0"
  shows "(\<forall>i j v u. i \<noteq> j \<longrightarrow> rl_rounds s i = Some v \<longrightarrow> rl_rounds s j = Some u \<longrightarrow> round_ids v \<inter> round_ids u = {})
    \<and> distinct (map ob_id (outbox (rl_db s)) @ rl_sent s @ map od_id (outbox_dead (rl_db s)))
    \<and> set (rl_queued s) = ob_id ` set (outbox (rl_db s)) \<union> set (rl_sent s) \<union> od_id ` set (outbox_dead (rl_db s))
    \<and> set (rl_sent s) \<subseteq> set (rl_accepted s)
    \<and> (\<forall>i v. rl_rounds s i = Some v \<longrightarrow> round_ids v \<subseteq> ob_id ` set (outbox (rl_db s)))"
  using relays_invariant [OF assms] round_ids_pending by (auto simp: relays_ok_def outbox_ids_def)

section \<open>Two relays\<close>

text \<open>
  Each claims one row, the second skipping the first one's; the second's is refused for good and becomes a dead
  letter while the first is still waiting for the broker, which then takes its event.
\<close>

definition sample_taken :: "int \<Rightarrow> string \<Rightarrow> int \<Rightarrow> go_error option list \<Rightarrow> round" where
  "sample_taken k t att as = \<lparr>rd_now = 0, rd_max = 5, rd_batch = [scanOutbox (sample_pending k t att)], rd_answers = as\<rparr>"

definition sample_relays :: "database \<Rightarrow> round option \<Rightarrow> round option \<Rightarrow> int list \<Rightarrow> int list \<Rightarrow> relays" where
  "sample_relays db a b acc sent = \<lparr>rl_db = db, rl_rounds = (\<lambda>_. None)(0 := a, 2 := b), rl_queued = [1, 2, 3],
     rl_accepted = acc, rl_sent = sent\<rparr>"

definition sample_refused :: database where
  "sample_refused = settled_db 0 [] [] [\<lparr>f_row = scanOutbox (sample_pending 2 TypeDeleted 4), f_err = ErrUndeliverable\<rparr>] sample_outbox"

lemma sample_relays_sel:
  "rl_db (sample_relays db a b acc sent) = db" "rl_rounds (sample_relays db a b acc sent) 0 = a"
  "rl_rounds (sample_relays db a b acc sent) 2 = b" "rl_accepted (sample_relays db a b acc sent) = acc"
  "rl_sent (sample_relays db a b acc sent) = sent"
  by (simp_all add: sample_relays_def)

lemma sample_relays_upd:
  "round_on (sample_relays db a b acc sent) 0 x = sample_relays db x b acc sent"
  "round_on (sample_relays db a b acc sent) 2 x = sample_relays db a x acc sent"
  "(sample_relays db a b acc sent)\<lparr>rl_accepted := acc'\<rparr> = sample_relays db a b acc' sent"
  "(sample_relays db a b acc sent)\<lparr>rl_db := db', rl_sent := sent'\<rparr> = sample_relays db' a b acc sent'"
  by (auto simp: sample_relays_def)

lemma sample_locked:
  "row_locked (sample_relays db a b acc sent) k \<longleftrightarrow> (\<exists>v. a = Some v \<and> k \<in> round_ids v) \<or> (\<exists>v. b = Some v \<and> k \<in> round_ids v)"
proof
  assume "row_locked (sample_relays db a b acc sent) k"
  then obtain i v where "rl_rounds (sample_relays db a b acc sent) i = Some v" "k \<in> round_ids v"
    by (auto simp: row_locked_def)
  then show "(\<exists>v. a = Some v \<and> k \<in> round_ids v) \<or> (\<exists>v. b = Some v \<and> k \<in> round_ids v)"
    by (auto simp: sample_relays_def split: if_splits)
next
  assume "(\<exists>v. a = Some v \<and> k \<in> round_ids v) \<or> (\<exists>v. b = Some v \<and> k \<in> round_ids v)"
  then show "row_locked (sample_relays db a b acc sent) k"
    unfolding row_locked_def using sample_relays_sel(2,3) by metis
qed

lemma sample_taken_ids [simp]: "round_ids (sample_taken k t att as) = {k}"
  by (simp add: round_ids_def sample_taken_def scanOutbox_def sample_pending_def)

lemma sample_relays_start: "relays_start sample_outbox = sample_relays sample_outbox None None [] []"
  by (simp add: relays_start_def sample_relays_def sample_outbox_def empty_database_def sample_pending_def fun_upd_def)

lemma sample_claims:
  "relays_step (sample_relays sample_outbox None None [] [])
     (sample_relays sample_outbox (Some (sample_taken 1 TypeCreated 0 [])) None [] [])"
  "relays_step (sample_relays sample_outbox (Some (sample_taken 1 TypeCreated 0 [])) None [] [])
     (sample_relays sample_outbox (Some (sample_taken 1 TypeCreated 0 [])) (Some (sample_taken 2 TypeDeleted 4 [])) [] [])"
proof -
  have rows: "due (row_locked (sample_relays sample_outbox None None [] [])) 1 0 sample_outbox = [sample_pending 1 TypeCreated 0]"
    "due (row_locked (sample_relays sample_outbox (Some (sample_taken 1 TypeCreated 0 [])) None [] [])) 1 0 sample_outbox
      = [sample_pending 2 TypeDeleted 4]"
    unfolding due_def sample_locked by (simp_all add: sample_outbox_def sample_pending_def)
  have claim: "claimOutbox lk 1 (healthy_at 0 sample_outbox) = (Inr (map scanOutbox (due lk 1 0 sample_outbox)), healthy_at 0 sample_outbox)" for lk
    by (simp add: claimOutbox_run)
  show "relays_step (sample_relays sample_outbox None None [] [])
     (sample_relays sample_outbox (Some (sample_taken 1 TypeCreated 0 [])) None [] [])"
    using relays_step.claim_batch [of "sample_relays sample_outbox None None [] []" 0 1 0, where m = 5]
      claim [of "row_locked (sample_relays sample_outbox None None [] [])"]
    by (simp add: sample_relays_sel sample_relays_upd rows sample_taken_def)
  show "relays_step (sample_relays sample_outbox (Some (sample_taken 1 TypeCreated 0 [])) None [] [])
     (sample_relays sample_outbox (Some (sample_taken 1 TypeCreated 0 [])) (Some (sample_taken 2 TypeDeleted 4 [])) [] [])"
    using relays_step.claim_batch [of "sample_relays sample_outbox (Some (sample_taken 1 TypeCreated 0 [])) None [] []" 2 1 0, where m = 5]
      claim [of "row_locked (sample_relays sample_outbox (Some (sample_taken 1 TypeCreated 0 [])) None [] [])"]
    by (simp add: sample_relays_sel sample_relays_upd rows) (simp add: sample_taken_def)
qed

lemma sample_answers:
  "relays_step (sample_relays db a (Some (sample_taken k t att [])) acc sent)
     (sample_relays db a (Some (sample_taken k t att [Some err])) acc sent)"
  "relays_step (sample_relays db (Some (sample_taken k t att [])) b acc sent)
     (sample_relays db (Some (sample_taken k t att [None])) b (acc @ [k]) sent)"
proof -
  have open_round: "\<not> all_answered (sample_taken k t att [])" by (simp add: all_answered_def sample_taken_def)
  show "relays_step (sample_relays db a (Some (sample_taken k t att [])) acc sent)
     (sample_relays db a (Some (sample_taken k t att [Some err])) acc sent)"
    using relays_step.publish_row [OF sample_relays_sel(3) open_round, of db a acc sent "Some err"]
    by (simp add: sample_relays_sel sample_relays_upd sample_taken_def)
  show "relays_step (sample_relays db (Some (sample_taken k t att [])) b acc sent)
     (sample_relays db (Some (sample_taken k t att [None])) b (acc @ [k]) sent)"
    using relays_step.publish_row [OF sample_relays_sel(2) open_round, of db b acc sent None]
    by (simp add: sample_relays_sel sample_relays_upd sample_taken_def sample_pending_def)
qed

lemma sample_settles:
  "relays_step (sample_relays sample_outbox a (Some (sample_taken 2 TypeDeleted 4 [Some ErrUndeliverable])) [] [])
     (sample_relays sample_refused a None [] [])"
  "relays_step (sample_relays sample_refused (Some (sample_taken 1 TypeCreated 0 [None])) None [1] [])
     (sample_relays (settled_db 0 [1] [] [] sample_refused) None None [1] [1])"
proof -
  let ?d = "sample_taken 2 TypeDeleted 4 [Some ErrUndeliverable]" and ?c = "sample_taken 1 TypeCreated 0 [None]"
  let ?dead = "[\<lparr>f_row = scanOutbox (sample_pending 2 TypeDeleted 4), f_err = ErrUndeliverable\<rparr>]"
  have fin: "all_answered ?d" "all_answered ?c" by (simp_all add: all_answered_def sample_taken_def)
  have pub: "publishBatch next_answer (rd_batch ?d) (rd_answers ?d) = (([], ?dead), [])"
    "publishBatch next_answer (rd_batch ?c) (rd_answers ?c) = (([1], []), [])"
    by (simp_all add: sample_taken_def sample_pending_def)
  have cl: "classifyFailures ?dead (rd_max ?d) = ([], ?dead, None)" "classifyFailures [] (rd_max ?c) = ([], [], None)"
    by (simp_all add: classifyFailures_def sample_taken_def sample_pending_def)
  have "settle [] [] ?dead (healthy_at (rd_now ?d) sample_outbox) = (Inr (), healthy_at 0 sample_refused)"
    by (simp add: settle_run can_settle_def sample_taken_def sample_refused_def sample_outbox_def empty_database_def)
  then show "relays_step (sample_relays sample_outbox a (Some ?d) [] []) (sample_relays sample_refused a None [] [])"
    using relays_step.settle_batch [OF sample_relays_sel(3) fin(1) pub(1) cl(1), of sample_outbox a "[]" "[]" "healthy_at 0 sample_refused"]
    by (simp add: sample_relays_sel sample_relays_upd)
  have "settle [1] [] [] (healthy_at (rd_now ?c) sample_refused) = (Inr (), healthy_at 0 (settled_db 0 [1] [] [] sample_refused))"
    by (simp add: settle_run can_settle_def sample_taken_def)
  then show "relays_step (sample_relays sample_refused (Some ?c) None [1] [])
     (sample_relays (settled_db 0 [1] [] [] sample_refused) None None [1] [1])"
    using relays_step.settle_batch [OF sample_relays_sel(2) fin(2) pub(2) cl(2), of sample_refused None "[1]" "[]"
        "healthy_at 0 (settled_db 0 [1] [] [] sample_refused)"]
    by (simp add: sample_relays_sel sample_relays_upd)
qed

lemma sample_relays_reached:
  "relays_reach sample_outbox (sample_relays sample_outbox (Some (sample_taken 1 TypeCreated 0 [])) (Some (sample_taken 2 TypeDeleted 4 [])) [] [])"
  "relays_reach sample_outbox (sample_relays (settled_db 0 [1] [] [] sample_refused) None None [1] [1])"
proof -
  show both: "relays_reach sample_outbox
      (sample_relays sample_outbox (Some (sample_taken 1 TypeCreated 0 [])) (Some (sample_taken 2 TypeDeleted 4 [])) [] [])"
    by (rule relays_reach.step [OF relays_reach.step [OF relays_reach.init [of sample_outbox, unfolded sample_relays_start]
          sample_claims(1)] sample_claims(2)])
  show "relays_reach sample_outbox (sample_relays (settled_db 0 [1] [] [] sample_refused) None None [1] [1])"
    using relays_reach.step [OF relays_reach.step [OF relays_reach.step [OF relays_reach.step [OF both sample_answers(1)]
            sample_settles(1)] sample_answers(2)]] sample_settles(2) by simp
qed

theorem relays_are_serial_witness:
  "serial_round\<^sup>*\<^sup>* sample_outbox (settled_db 0 [1] [] [] sample_refused)
   \<and> map ob_id (outbox (settled_db 0 [1] [] [] sample_refused)) = [3]"
  using relays_are_serial [OF sample_relays_reached(2) sample_outbox_wf(1)]
  by (simp add: sample_relays_sel settled_db_def settle_rows_def sample_refused_def sample_outbox_def sample_pending_def)

theorem relays_share_the_work_witness:
  "\<exists>(s::relays) v u. rl_rounds s 0 = Some v \<and> rl_rounds s 2 = Some u \<and> round_ids v \<noteq> {} \<and> round_ids v \<inter> round_ids u = {}"
proof -
  let ?s = "sample_relays sample_outbox (Some (sample_taken 1 TypeCreated 0 [])) (Some (sample_taken 2 TypeDeleted 4 [])) [] []"
  have "round_ids (sample_taken 1 TypeCreated 0 []) \<inter> round_ids (sample_taken 2 TypeDeleted 4 []) = {}"
    using relays_share_the_work [OF sample_relays_reached(1) sample_outbox_wf(1), THEN conjunct1, rule_format, of 0 2]
    by (simp only: sample_relays_sel)
  then show ?thesis using sample_relays_sel(2,3) by (intro exI [of _ ?s]) simp
qed

end
