(* ===== verification/Coherence.thy ===== *)
theory Coherence
  imports Changes Processor
begin

text \<open>
  Reads and writes of the service one after the other (\<open>internal/service/service.go\<close>): the cache starts empty, and
  what a read answers is compared with the table. Interleavings on one key are the subject of
  \<open>Cache_Protocol\<close>.
\<close>

section \<open>Histories of calls\<close>

text \<open>The calls that read products or write them, with the ids, times and random texts they draw.\<close>

datatype svc_call =
    Reading uuid
  | Creating uuid uuid timestamp product
  | Updating string uuid timestamp product
  | Deleting string uuid timestamp uuid
  | Ordering string uuid uuid timestamp uuid uuid int idempotency_key

fun run_call :: "(string \<Rightarrow> string) \<Rightarrow> postgres \<Rightarrow> service \<Rightarrow> svc_call \<Rightarrow> svc \<Rightarrow> svc" where
  "run_call sha256 pg srv (Reading i) sv = snd (service_FindByID srv i sv)"
| "run_call sha256 pg srv (Creating newV7 eid at p) sv = snd (service_Create newV7 eid at p sv)"
| "run_call sha256 pg srv (Updating rnd eid at p) sv = snd (service_Update srv rnd eid at p sv)"
| "run_call sha256 pg srv (Deleting rnd eid at i) sv = snd (service_Delete srv rnd eid at i sv)"
| "run_call sha256 pg srv (Ordering rnd newV7 eid at u i q k) sv =
     snd (service_CreateOrder sha256 pg srv rnd newV7 eid at u i q k sv)"

text \<open>
  What must not go wrong. A read may meet any fault. A creation draws an id nobody has asked for. A write that
  invalidates gets its tombstone to the cache server, and knows whether its commit went through.
\<close>

fun call_safe :: "svc_call \<Rightarrow> svc \<Rightarrow> bool" where
  "call_safe (Reading i) sv \<longleftrightarrow> foreign_faults (script (sv_conn sv))"
| "call_safe (Creating newV7 eid at p) sv \<longleftrightarrow> sv_vk sv (uuid_string newV7) = None"
| "call_safe _ sv \<longleftrightarrow> (\<forall>x. AckLost x \<notin> set (script (sv_conn sv))) \<and> (\<forall>e. fst (next_cache_fault sv) \<noteq> Failed e)"

text \<open>
  Between the calls time passes, connections break and recover, clocks go on, the relay and the janitor do their
  work, and the cache loses entries. Nothing else writes products.
\<close>

inductive served_so_far :: "(string \<Rightarrow> string) \<Rightarrow> postgres \<Rightarrow> service \<Rightarrow> svc \<Rightarrow> bool" for sha256 pg srv where
  start: "in_order sha256 (tables (sv_conn sv)) \<Longrightarrow> sv_vk sv = (\<lambda>_. None) \<Longrightarrow> served_so_far sha256 pg srv sv"
| call: "served_so_far sha256 pg srv sv \<Longrightarrow> call_safe c sv \<Longrightarrow> served_so_far sha256 pg srv (run_call sha256 pg srv c sv)"
| around: "served_so_far sha256 pg srv sv \<Longrightarrow> products (tables c) = products (tables (sv_conn sv)) \<Longrightarrow>
    in_order sha256 (tables c) \<Longrightarrow> \<forall>k. vk k = None \<or> vk k = sv_vk sv k \<Longrightarrow>
    served_so_far sha256 pg srv (sv\<lparr>sv_conn := c, sv_vk := vk, sv_time := t, sv_faults := fs\<rparr>)"

section \<open>The cache stays coherent\<close>

lemma coherent_shrinks:
  assumes "coherent sv" "products (tables c) = products (tables (sv_conn sv))" "\<forall>k. vk k = None \<or> vk k = sv_vk sv k"
  shows "coherent (sv\<lparr>sv_conn := c, sv_vk := vk, sv_time := t, sv_faults := fs\<rparr>)"
  using assms unfolding coherent_def row_of_def by (simp, metis option.distinct(1))

lemma store_Save_others: "tx_rel (keeps_others (prod_ID p)) (store_Save eid at p)"
proof -
  have "sql_rel (keeps_others (prod_ID p)) (queryInsert (prod_ID p) name price cur stock)" for name price cur stock
    by (auto simp: sql_rel_def queryInsert_def keeps_others_def Let_def find_key_append split: option.splits if_splits)
  then show ?thesis
    unfolding store_Save_def Let_def by (intro others_rel.rel_intros insertOutbox_others)
qed

lemma Create_coherent:
  assumes co: "coherent sv" and fresh: "sv_vk sv (uuid_string newV7) = None"
  shows "coherent (snd (service_Create newV7 eid at p sv))"
proof -
  let ?p = "p\<lparr>prod_ID := newV7\<rparr>"
  obtain r c where r: "store_Save eid at ?p (sv_conn sv) = (r, c)" by fastforce
  then have "keeps_others newV7 (tables (sv_conn sv)) (tables c)"
    using store_Save_others [of ?p eid at] unfolding tx_rel_def by (metis product.select_convs(1) product.surjective product.update_convs(1) snd_conv)
  then have "coherent (sv\<lparr>sv_conn := c\<rparr>)"
    using co fresh unfolding coherent_def row_of_def keeps_others_def by (simp, metis option.distinct(1))
  then show ?thesis using r by (simp add: service_Create_def on_store_def)
qed

lemma call_in_order:
  assumes "in_order sha256 (tables (sv_conn sv))" "call_safe c sv" "coherent sv"
  shows "in_order sha256 (tables (sv_conn (run_call sha256 pg srv c sv)))"
proof (cases c)
  case (Reading i)
  then show ?thesis
    using FindByID_coherent [OF assms(3) _ surjective_pairing, of srv i] assms(1,2) by simp
next
  case (Creating newV7 eid at p)
  then show ?thesis
    using store_Save_effect [OF surjective_pairing, of sha256 "sv_conn sv" eid at "p\<lparr>prod_ID := newV7\<rparr>"] assms(1)
    by (simp add: service_Create_def on_store_def op_effect_def split_beta)
next
  case (Updating rnd eid at p)
  then show ?thesis
    using store_Update_effect [OF surjective_pairing, of sha256 "sv_conn sv" eid at p] assms(1)
    by (auto simp: service_Update_def on_store_def op_effect_def split_beta split: sum.splits)
next
  case (Deleting rnd eid at i)
  then show ?thesis
    using store_Delete_effect [OF surjective_pairing, of sha256 "sv_conn sv" eid at i] assms(1)
    by (auto simp: service_Delete_def on_store_def op_effect_def split_beta split: sum.splits)
next
  case (Ordering rnd newV7 eid at u i q k)
  then show ?thesis
    using store_CreateOrder_effect [OF surjective_pairing, of sha256 "sv_conn sv" pg eid at "new_order newV7 u i q" k] assms(1)
    by (auto simp: service_CreateOrder_def on_store_def op_effect_def split_beta split: sum.splits)
qed

lemma call_coherent:
  assumes "in_order sha256 (tables (sv_conn sv))" "call_safe c sv" "coherent sv" "0 < milliseconds (vk_ttl (srv_cache srv))"
  shows "coherent (run_call sha256 pg srv c sv)"
proof -
  have wf: "db_wf (tables (sv_conn sv))" "keys_settled sha256 (tables (sv_conn sv))"
    using assms(1) by (simp_all add: in_order_def)
  note writes = service_writes_coherent [OF assms(3) wf _ _ assms(4)]
  show ?thesis
  proof (cases c)
    case (Reading i)
    then show ?thesis using FindByID_coherent [OF assms(3) _ surjective_pairing, of srv i] assms(2) by simp
  next
    case (Creating newV7 eid at p)
    then show ?thesis using Create_coherent [OF assms(3)] assms(2) by simp
  qed (use writes assms(2) in auto)
qed

lemma served_coherent:
  assumes "served_so_far sha256 pg srv sv" "0 < milliseconds (vk_ttl (srv_cache srv))"
  shows "coherent sv \<and> in_order sha256 (tables (sv_conn sv))"
  using assms(1)
proof induction
  case (start sv)
  then show ?case by (simp add: coherent_def)
next
  case (call sv c)
  then show ?case using call_coherent [OF _ _ _ assms(2)] call_in_order by blast
next
  case (around sv c vk t fs)
  then show ?case using coherent_shrinks by simp
qed

text \<open>
  C33: reads answer what the table holds. Start with an empty cache and let the service read, create, update, delete and
  sell products in any order, its calls one after the other, while connections fail, time passes and the cache
  forgets. As long as every tombstone of a write reaches the cache server, no write is left in doubt about its
  commit, and new products get ids nobody asked for, a read answers a product only if the table
  has exactly that row, and \<open>ErrNotFound\<close> only if it has none, whatever faults the cache and the database meet
  during it; and it does answer one of the two when the database is well. It changes no row.
\<close>

theorem reads_answer_the_table:
  assumes hist: "served_so_far sha256 pg srv sv" and ttl: "0 < milliseconds (vk_ttl (srv_cache srv))"
    and f: "foreign_faults (script (sv_conn sv))"
    and run: "service_FindByID srv i sv = (r, sv')"
  shows "tables (sv_conn sv') = tables (sv_conn sv)
    \<and> (\<forall>p. r = Inr p \<longrightarrow> map_option scanProduct (find_key p_id i (products (tables (sv_conn sv)))) = Some p)
    \<and> (\<forall>e. r = Inl e \<and> errors_is e ErrNotFound \<longrightarrow> find_key p_id i (products (tables (sv_conn sv))) = None)
    \<and> (script (sv_conn sv) = [] \<longrightarrow> (\<forall>e. r = Inl e \<longrightarrow> errors_is e ErrNotFound))"
proof -
  have "coherent sv" using served_coherent [OF hist ttl] by simp
  from FindByID_coherent [OF this f run] show ?thesis by (auto simp: answer_of_def row_of_def)
qed

text \<open>Product 5 is read, which caches it, then deleted: the next read does not find it.\<close>

theorem reads_answer_the_table_witness:
  "\<exists>sv e. served_so_far (\<lambda>x. x) (NewPostgres 86400000000000) sample_service sv
     \<and> fst (service_FindByID sample_service 5 sv) = Inl e \<and> errors_is e ErrNotFound"
proof -
  let ?run = "run_call (\<lambda>x. x) (NewPostgres 86400000000000) sample_service"
  let ?ok = "served_so_far (\<lambda>x. x) (NewPostgres 86400000000000) sample_service"
  have ord: "in_order (\<lambda>x. x) sample_db" using sample_db_wf sample_db_settled by (simp add: in_order_def)
  have co: "coherent sample_svc" using sample_svc_facts(1) [of "[]"] by (simp add: sample_svc_def)
  have f: "foreign_faults []" by (simp add: foreign_faults_def)
  have 0: "?ok sample_svc" by (rule served_so_far.start) (simp_all add: sample_svc_facts ord, simp add: sample_svc_def)
  have 1: "?ok (?run (Reading 5) sample_svc)" by (rule served_so_far.call [OF 0]) (simp add: sample_svc_facts f)
  have t1: "tables (sv_conn (?run (Reading 5) sample_svc)) = sample_db"
    using FindByID_coherent [OF co _ surjective_pairing] f by (simp add: sample_svc_facts)
  define sv2 where "sv2 = (?run (Reading 5) sample_svc)\<lparr>sv_conn := healthy sample_db,
      sv_vk := sv_vk (?run (Reading 5) sample_svc), sv_time := 10, sv_faults := []\<rparr>"
  have 2: "?ok sv2" unfolding sv2_def by (rule served_so_far.around [OF 1]) (use t1 ord in \<open>simp_all add: healthy_def\<close>)
  define sv3 where "sv3 = ?run (Deleting ''r'' 50 0 5) sv2"
  have "?ok sv3" unfolding sv3_def
    by (rule served_so_far.call [OF 2]) (simp add: sv2_def healthy_def next_cache_fault_def)
  moreover have "script (sv_conn sv3) = []" "find_key p_id 5 (products (tables (sv_conn sv3))) = None"
    by (simp_all add: sv3_def service_Delete_def on_store_def store_Delete_run sv2_def healthy_def sample_db_def
        sample_row_def empty_database_def int64_ok_def delete_key_def enqueue_def)
  moreover obtain r sv4 where run: "service_FindByID sample_service 5 sv3 = (r, sv4)" by fastforce
  ultimately have "\<exists>e. r = Inl e \<and> errors_is e ErrNotFound"
    using reads_answer_the_table [OF _ sample_svc_facts(4) _ run] f by (cases r) auto
  then show ?thesis using \<open>?ok sv3\<close> run by auto
qed

section \<open>A retried order after a lost commit\<close>

lemma live_read:
  assumes "sv_vk sv (uuid_string i) = Some (raw, ex)" "sv_time sv \<le> ex" "sv_faults sv = []" "en_Hit (classify raw)"
  shows "fst (service_FindByID srv i sv) = productFrom (classify raw)"
  using assms
  by (simp add: service_FindByID_def svc_Get_def next_cache_fault_def cache_Get_def live_value_def)

lemma expired_read:
  assumes "sv_vk sv (uuid_string i) = Some (raw, ex)" "ex < sv_time sv" "sv_faults sv = []"
    and "script (sv_conn sv) = []" "row_of i (tables (sv_conn sv)) = Some p"
  shows "fst (service_FindByID srv i sv) = Inr p"
proof -
  have "svc_Get (uuid_string i) sv = (Inr zero_entry, sv)"
    using assms(1-3) by (simp add: svc_Get_def next_cache_fault_def cache_Get_def live_value_def)
  moreover have "store_FindByID i (sv_conn sv) = (Inr p, sv_conn sv)"
    using FindByID_sound [OF surjective_pairing, of "sv_conn sv" i] assms(4,5) by (simp add: foreign_faults_def prod_eq_iff)
  ultimately show ?thesis
    by (simp add: service_FindByID_def service_loadProduct_def callGroup_Do_def Let_def on_store_def zero_entry_def)
qed

text \<open>
  C35: a replay skips the invalidation its first attempt never made. Whenever the commit of an order goes through but the
  service reports an error (the answer to the commit was lost), it leaves the cache alone; the client's retry
  within the retention time is answered as a replay, and the service skips the invalidation because a replay changes
  nothing. If the product was cached, the purchase is then acknowledged while every read of it that reaches the cache before the
  entry expires answers the product from before the sale, though the table has a newer version with the ordered quantity
  less in stock; only after the entry has expired a read sees the sale.
\<close>

theorem lost_commit_replay_leaves_stale:
  assumes first: "service_CreateOrder sha256 pg srv rnd n1 eid at u i q k sv = (Inl e, sv')"
    and wf: "in_order sha256 (tables (sv_conn sv))"
    and stored: "orders (tables (sv_conn sv')) \<noteq> orders (tables (sv_conn sv))"
    and cached: "sv_vk sv (uuid_string i) = Some (raw, ex)" "en_Hit (classify raw)"
      "agrees (classify raw) (row_of i (tables (sv_conn sv)))"
    and retry: "script (sv_conn tv) = []" "tables (sv_conn tv) = tables (sv_conn sv')" "sv_vk tv = sv_vk sv'"
      "clock (sv_conn tv) \<le> clock (sv_conn sv) + interval_us (idempotencyTTL pg)"
  shows "\<exists>o3 old new. service_CreateOrder sha256 pg srv rnd2 n2 eid2 at2 u i q k tv = (Inr (o3, True), tv)
    \<and> row_of i (tables (sv_conn sv)) = Some old \<and> row_of i (tables (sv_conn tv)) = Some new
    \<and> 0 < q \<and> prod_Stock new = prod_Stock old - q \<and> prod_Version new = prod_Version old + 1
    \<and> (\<forall>t\<le>ex. fst (service_FindByID srv i (tv\<lparr>sv_time := t, sv_faults := []\<rparr>)) = Inr old)
    \<and> (\<forall>t>ex. fst (service_FindByID srv i (tv\<lparr>sv_time := t, sv_faults := []\<rparr>)) = Inr new)"
proof -
  let ?o = "new_order n1 u i q"
  obtain c where run: "store_CreateOrder sha256 pg eid at ?o k (sv_conn sv) = (Inl e, c)" and sv': "sv' = sv\<lparr>sv_conn := c\<rparr>"
    using first by (auto simp: service_CreateOrder_def on_store_def split: prod.splits sum.splits)
  have dbs: "db_wf (tables (sv_conn sv))" "keys_settled sha256 (tables (sv_conn sv))" using wf by (simp_all add: in_order_def)
  from run dbs obtain r where r: "can_buy ?o r (tables (sv_conn sv))"
    "tables c = placed sha256 pg eid at ?o k r (clock (sv_conn sv)) (tables (sv_conn sv))" "db_wf (tables c)" "keys_settled sha256 (tables c)"
  proof (cases rule: create_order_effect_cases)
    case none
    then show thesis using stored same_rows_sel(2) sv' by fastforce
  qed (use that in blast)
  have keeps: "keeps_orders sha256 (clock (sv_conn tv)) (tables (sv_conn sv')) (tables (sv_conn tv))"
    unfolding retry(2) using r(3,4) sv' by (simp add: keeps_orders_refl)
  obtain o3 where o3: "service_CreateOrder sha256 pg srv rnd2 n2 eid2 at2 u i q k tv = (Inr (o3, True), tv)"
    using service_order_replays [OF first dbs stored retry(1) keeps retry(4)] by blast
  have buy: "find_key p_id i (products (tables (sv_conn sv))) = Some r" "0 < q" "p_id r = i"
    using r(1) find_key_SomeD by (fastforce simp: can_buy_def new_order_def)+
  then have "products (tables (sv_conn tv)) = update_key p_id i (\<lambda>_. sold_row q r) (products (tables (sv_conn sv)))"
    unfolding retry(2) sv' by (simp add: r(2) placed_def settled_def purchased_def claimed_def new_order_def enqueue_def Let_def split: option.split)
  then have new: "row_of i (tables (sv_conn tv)) = Some (scanProduct (sold_row q r))"
    using buy by (simp add: row_of_def find_key_replace sold_row_sel)
  have old: "row_of i (tables (sv_conn sv)) = Some (scanProduct r)" using buy(1) by (simp add: row_of_def)
  have vk: "sv_vk tv (uuid_string i) = Some (raw, ex)" using cached(1) retry(3) sv' by simp
  have "fst (service_FindByID srv i (tv\<lparr>sv_time := t, sv_faults := []\<rparr>)) = Inr (scanProduct r)" if "t \<le> ex" for t
    using live_read [of "tv\<lparr>sv_time := t, sv_faults := []\<rparr>" i raw ex srv] vk that cached(2)
      productFrom_agrees [OF cached(3)] old by simp
  moreover have "fst (service_FindByID srv i (tv\<lparr>sv_time := t, sv_faults := []\<rparr>)) = Inr (scanProduct (sold_row q r))"
    if "ex < t" for t
    using expired_read [of "tv\<lparr>sv_time := t, sv_faults := []\<rparr>" i raw ex "scanProduct (sold_row q r)" srv] vk that retry(1) new
    by simp
  moreover have "prod_Stock (scanProduct (sold_row q r)) = prod_Stock (scanProduct r) - q"
    "prod_Version (scanProduct (sold_row q r)) = prod_Version (scanProduct r) + 1"
    by (simp_all add: scanProduct_def sold_row_def)
  ultimately show ?thesis using o3 old new buy(2) by blast
qed

text \<open>
  The product is cached. The first order commits, but the answer to its commit is lost, so the service
  reports an error and writes no tombstone; then the order is tried again.
\<close>

definition cached_svc :: svc where
  "cached_svc = \<lparr>sv_conn = lost_commit,
     sv_vk = snd (cache_Set (srv_cache sample_service) NoFault 0 (uuid_string 7) (scanProduct (sample_row 7 10))
       zero_entry (\<lambda>_. None)),
     sv_time = 0, sv_faults = []\<rparr>"

definition first_try :: "(go_error + order \<times> bool) \<times> svc" where
  "first_try = service_CreateOrder (\<lambda>x. x) (NewPostgres 86400000000000) sample_service ''r1'' 40 50 0 1 7 4 ''k1'' cached_svc"

definition second_try :: "(go_error + order \<times> bool) \<times> svc" where
  "second_try = service_CreateOrder (\<lambda>x. x) (NewPostgres 86400000000000) sample_service ''r2'' 41 51 1 1 7 4 ''k1''
     ((snd first_try)\<lparr>sv_conn := (sv_conn (snd first_try))\<lparr>script := []\<rparr>\<rparr>)"


lemma cacheable_row: "cacheable (scanProduct (sample_row 7 10))"
  by (simp add: cacheable_def scanProduct_def sample_row_def int64_ok_def byte_val_def)

lemma tries_conn:
  "sv_vk (snd first_try) = sv_vk cached_svc" "sv_faults (snd first_try) = []" "sv_time (snd first_try) = 0"
  "\<not> is_ok (fst first_try)"
  "map p_stock (products (tables (sv_conn (snd first_try)))) = [6, 0, 2]"
  by (simp_all add: first_try_def service_CreateOrder_def on_store_def new_order_def cached_svc_def run_defs
      lost_commit_def sample_db_def sample_row_def empty_database_def NewPostgres_def interval_us_def)

lemma cached_row:
  obtains raw ex where "sv_vk cached_svc (uuid_string 7) = Some (raw, ex)" "0 \<le> ex" "en_Hit (classify raw)"
    "agrees (classify raw) (row_of 7 sample_db)"
proof -
  have ttl: "0 < milliseconds (vk_ttl (srv_cache sample_service))" by (rule sample_svc_facts(4))
  have g: "if en_exists zero_entry then live_value 0 (uuid_string 7) (\<lambda>_. None) = Some (en_token zero_entry)
      else live_value 0 (uuid_string 7) (\<lambda>_. None) = None"
    by (simp add: zero_entry_def live_value_def)
  have get: "cache_Get NoFault 0 (uuid_string 7) (sv_vk cached_svc) = Inr \<lparr>en_Product = scanProduct (sample_row 7 10),
      en_Hit = True, en_Found = True, en_exists = True, en_token = []\<rparr>"
    using cache_set_get_at [OF cacheable_row ttl g, of 0 "uuid_string 7"] ttl by (simp add: cached_svc_def)
  then obtain raw ex where raw: "sv_vk cached_svc (uuid_string 7) = Some (raw, ex)" "0 \<le> ex"
    "classify raw = \<lparr>en_Product = scanProduct (sample_row 7 10), en_Hit = True, en_Found = True, en_exists = True, en_token = []\<rparr>"
    by (auto simp: cache_Get_def live_value_def zero_entry_def split: option.splits if_splits)
  moreover have "row_of 7 sample_db = Some (scanProduct (sample_row 7 10))"
    by (simp add: row_of_def sample_db_def sample_row_def)
  ultimately show thesis by (intro that [OF raw(1,2)]) (simp_all add: agrees_def)
qed

theorem lost_commit_replay_leaves_stale_witness:
  "(\<exists>o3. fst second_try = Inr (o3, True))
   \<and> (\<exists>p. fst (service_FindByID sample_service 7
         ((snd first_try)\<lparr>sv_conn := (sv_conn (snd first_try))\<lparr>script := []\<rparr>, sv_time := 0, sv_faults := []\<rparr>)) = Inr p
       \<and> prod_Stock p = 10)
   \<and> map p_stock (products (tables (sv_conn (snd first_try)))) = [6, 0, 2]"
proof -
  obtain raw ex where c: "sv_vk cached_svc (uuid_string 7) = Some (raw, ex)" "0 \<le> ex" "en_Hit (classify raw)"
    "agrees (classify raw) (row_of 7 sample_db)" by (rule cached_row)
  obtain e where "first_try = (Inl e, snd first_try)" using tries_conn(4) by (cases "fst first_try") (auto simp: prod_eq_iff)
  then have first: "service_CreateOrder (\<lambda>x. x) (NewPostgres 86400000000000) sample_service ''r1'' 40 50 0 1 7 4 ''k1'' cached_svc
      = (Inl e, snd first_try)" by (simp add: first_try_def)
  let ?tv = "(snd first_try)\<lparr>sv_conn := (sv_conn (snd first_try))\<lparr>script := []\<rparr>\<rparr>"
  have db: "tables (sv_conn cached_svc) = sample_db" by (simp add: cached_svc_def lost_commit_def)
  have ord: "in_order (\<lambda>x. x) sample_db" using sample_db_wf sample_db_settled by (simp add: in_order_def)
  have clk: "clock (sv_conn ?tv) \<le> clock (sv_conn cached_svc) + interval_us (idempotencyTTL (NewPostgres 86400000000000))"
    "orders (tables (sv_conn (snd first_try))) \<noteq> orders (tables (sv_conn cached_svc))"
    by (simp_all add: first_try_def service_CreateOrder_def on_store_def new_order_def cached_svc_def run_defs
        lost_commit_def sample_db_def sample_row_def empty_database_def NewPostgres_def interval_us_def)
  have row: "row_of 7 sample_db = Some (scanProduct (sample_row 7 10))"
    by (simp add: row_of_def sample_db_def sample_row_def)
  have "prod_Stock (scanProduct (sample_row 7 10)) = 10" by (simp add: scanProduct_def sample_row_def)
  then show ?thesis
    using lost_commit_replay_leaves_stale [OF first _ clk(2) c(1,3), of ?tv "''r2''" 41 51 1] db ord c(2,4) clk(1) row tries_conn
    by (auto simp: second_try_def)
qed

end
