(* ===== verification/Http_Decode.thy ===== *)
theory Http_Decode
  imports Http_Codec "HOL-Library.Multiset"
begin

text \<open>
  Reading request bodies: the decoder reads back what a client printed, whatever the order of the
  members, every reader shortens its input, so that the length tests of the member loop never
  decide, and an unknown member is reported by its name.
\<close>

section \<open>Readers shorten their input\<close>

definition shrinks :: "'a reader \<Rightarrow> bool" where
  "shrinks rd \<longleftrightarrow> (\<forall>s v r. rd s = Inr (v, r) \<longrightarrow> length r < length s)"

lemma prepend_SomeE: "prepend p x = Some (t, r) \<Longrightarrow> \<exists>t'. x = Some (t', r)"
  by (auto simp: prepend_def)

lemma str_body_shrinks: "str_body s = Some (t, r) \<Longrightarrow> length r < length s"
proof (induction s arbitrary: t rule: length_induct)
  case (1 s)
  have IH: "length r < length x" if "str_body x = Some (t', r)" "length x < length s" for x t'
    using 1(1) that by fastforce
  show ?case
  proof (cases s)
    case Nil
    then show ?thesis using 1(2) by (simp add: str_body.simps)
  next
    case (Cons c cs)
    show ?thesis
      using 1(2) unfolding Cons str_body.simps(2)
      by (auto dest!: prepend_SomeE split: if_splits list.splits option.splits) (drule IH; simp add: Cons)+
  qed
qed

lemma str_token_shrinks: "str_token s = Some (t, r) \<Longrightarrow> length r < length s"
  by (auto simp: str_token_def dest: str_body_shrinks split: option.splits if_splits)

lemma frac_part_le: "frac_part s = Some (f, r) \<Longrightarrow> length r \<le> length s"
  using length_dropWhile_le [of is_digit "tl s"]
  by (auto simp: frac_part_def split: list.splits if_splits)

lemma exp_part_le: "exp_part s = Some (x, r) \<Longrightarrow> length r \<le> length s"
proof -
  have "length (dropWhile is_digit (drop k t)) \<le> Suc (length t)" for k t
    using length_dropWhile_le [of is_digit "drop k t"] by simp
  then show "exp_part s = Some (x, r) \<Longrightarrow> length r \<le> length s"
    by (auto simp: exp_part_def Let_def split: list.splits if_splits)
qed

lemma parse_number_shrinks: "parse_number s = Some (v, r) \<Longrightarrow> length r < length s"
proof -
  assume p: "parse_number s = Some (v, r)"
  define t where "t = (if (case s of c # _ \<Rightarrow> c = CHR ''-'' | [] \<Rightarrow> False) then drop 1 s else s)"
  obtain f x r2 where ds: "takeWhile is_digit t \<noteq> []" and fx: "frac_part (dropWhile is_digit t) = Some (f, r2)"
    "exp_part r2 = Some (x, r)"
    using p by (auto simp: parse_number_def Let_def t_def [symmetric] split: if_splits option.splits prod.splits)
  have "length (dropWhile is_digit t) < length t"
    using ds by (metis append_take_drop_id length_append add.commute less_add_same_cancel1 length_greater_0_conv takeWhile_dropWhile_id)
  moreover have "length t \<le> length s" by (simp add: t_def)
  ultimately show "length r < length s" using frac_part_le [OF fx(1)] exp_part_le [OF fx(2)] by simp
qed

lemma literal_shrinks: "literal t j s = Some (v, r) \<Longrightarrow> t \<noteq> [] \<Longrightarrow> length r < length s"
  by (auto simp: literal_def split: if_splits) (metis length_drop diff_less length_greater_0_conv take_eq_Nil)

lemma parse_shrinks:
  "parse_value s = Some (v, r) \<Longrightarrow> length r < length s"
  "parse_elems s = Some (vs, r) \<Longrightarrow> length r < length s"
  "parse_members s = Some (ms, r) \<Longrightarrow> length r < length s"
proof (induction s and s and s arbitrary: v r and vs r and ms r rule: parse_value_parse_elems_parse_members.induct)
  case (1 s)
  obtain c t where t: "skip_ws s = c # t"
    using 1(3) by (cases "skip_ws s") (simp_all add: parse_value.simps [of s])
  have le: "Suc (length t) \<le> length s" using length_skip_ws [of s] t by simp
  have dr: "length (drop 1 (skip_ws t)) \<le> length t" using length_skip_ws [of t] by simp
  show ?case
    using 1(3) 1(1,2) [OF t] le dr unfolding parse_value.simps [of s] t list.case
    by (auto dest: str_token_shrinks literal_shrinks parse_number_shrinks split: if_splits option.splits)
next
  case (2 s)
  obtain v t where v: "parse_value s = Some (v, t)"
    using 2(3) by (cases "parse_value s") (auto simp: parse_elems.simps [of s])
  obtain c u where u: "skip_ws t = c # u"
    using 2(3) v by (cases "skip_ws t") (simp_all add: parse_elems.simps [of s])
  have "Suc (length u) \<le> length t" "length t < length s"
    using length_skip_ws [of t] u 2(1) [OF v] by simp_all
  then show ?case
    using 2(3) 2(2) [OF v refl u] unfolding parse_elems.simps [of s] v u option.case prod.case list.case
    by (fastforce split: if_splits)
next
  case (3 s)
  obtain q t where t: "skip_ws s = q # t" "q = CHR 0x22"
    using 3(3) by (cases "skip_ws s") (auto simp: parse_members.simps [of s] split: if_splits)
  obtain k t1 where k: "str_token t = Some (k, t1)"
    using 3(3) t by (cases "str_token t") (auto simp: parse_members.simps [of s])
  obtain c t2 where c: "skip_ws t1 = c # t2" "c = CHR '':''"
    using 3(3) t k by (cases "skip_ws t1") (auto simp: parse_members.simps [of s] split: if_splits)
  have l: "length t2 < length s"
    using length_skip_ws [of s] length_skip_ws [of t1] t c str_token_shrinks [OF k] by simp
  obtain v t3 where v: "parse_value t2 = Some (v, t3)"
    using 3(3) t k c l by (cases "parse_value t2") (auto simp: parse_members.simps [of s])
  obtain d t4 where d: "skip_ws t3 = d # t4"
    using 3(3) t k c l v by (cases "skip_ws t3") (auto simp: parse_members.simps [of s])
  have "Suc (length t4) \<le> length t3" "length t3 < length t2"
    using length_skip_ws [of t3] d 3(1) [OF t(1) _ k refl c(1) _ v] t(2) c(2) l by auto
  then show ?case
    using 3(3) 3(2) [OF t(1) _ k refl c(1) _ v refl d] t(2) c(2) l
    unfolding parse_members.simps [of s] t(1) k c(1) v d option.case prod.case list.case
    by (fastforce split: if_splits)
qed

lemma scalar_readers_shrink: "shrinks (read_string k)" "shrinks (read_int64 k)"
  unfolding shrinks_def read_string_def read_int64_def
  by (auto dest: parse_shrinks(1) split: option.splits json.splits if_splits)

definition field_readers_shrink :: "(string \<Rightarrow> json reader option) \<Rightarrow> bool" where
  "field_readers_shrink field \<longleftrightarrow> (\<forall>k rd. field k = Some rd \<longrightarrow> shrinks rd)"

text \<open>One member of the loop: what its name, colon, value and following character say.\<close>

definition read_member ::
  "(string \<Rightarrow> json reader option) \<Rightarrow> string list \<Rightarrow> string \<Rightarrow> decode_error + (string \<times> json \<times> char \<times> string)" where
  "read_member field seen s =
     (case skip_ws s of
        [] \<Rightarrow> Inl SyntacticError
      | q # r \<Rightarrow>
          if q \<noteq> CHR 0x22 then Inl SyntacticError
          else case str_token r of
            None \<Rightarrow> Inl SyntacticError
          | Some (k, r1) \<Rightarrow>
              (case field k of
                 None \<Rightarrow> Inl (UnknownName k)
               | Some rd \<Rightarrow>
                   if k \<in> set seen then Inl SyntacticError
                   else (case skip_ws r1 of
                      [] \<Rightarrow> Inl SyntacticError
                    | c # r2 \<Rightarrow>
                        if c \<noteq> CHR '':'' then Inl SyntacticError
                        else (case rd r2 of
                           Inl e \<Rightarrow> Inl e
                         | Inr (v, r3) \<Rightarrow>
                             (case skip_ws r3 of
                                [] \<Rightarrow> Inl SyntacticError
                              | d # r4 \<Rightarrow> Inr (k, v, d, r4))))))"

lemma read_member_shrinks:
  assumes "field_readers_shrink field" "read_member field seen s = Inr (k, v, d, r4)"
  shows "length r4 < length s"
proof -
  obtain q r r1 rd c r2 r3 where
    st: "skip_ws s = q # r" "str_token r = Some (k, r1)" "field k = Some rd" "skip_ws r1 = c # r2" "rd r2 = Inr (v, r3)"
      "skip_ws r3 = d # r4"
    using assms(2) by (auto simp: read_member_def split: list.splits if_splits option.splits sum.splits prod.splits)
  have "length r3 < length r2" using assms(1) st(3,5) by (auto simp: field_readers_shrink_def shrinks_def)
  then show ?thesis
    using length_skip_ws [of s] length_skip_ws [of r1] length_skip_ws [of r3] st str_token_shrinks [OF st(2)] by simp
qed

lemma read_members_step:
  "read_members field seen s =
    (case read_member field seen s of
       Inl e \<Rightarrow> Inl e
     | Inr (k, v, d, r) \<Rightarrow>
         if d = CHR ''}'' then Inr ([(k, v)], r)
         else if d = CHR '','' \<and> length r < length s then
           (case read_members field (k # seen) r of Inl e \<Rightarrow> Inl e | Inr (ms, r') \<Rightarrow> Inr ((k, v) # ms, r'))
         else Inl SyntacticError)"
  by (subst read_members.simps)
    (simp add: read_member_def split: list.split option.split sum.split prod.split)

text \<open>The member loop without its length test.\<close>

lemma read_members_loop:
  assumes "field_readers_shrink field"
  shows "read_members field seen s =
    (case read_member field seen s of
       Inl e \<Rightarrow> Inl e
     | Inr (k, v, d, r) \<Rightarrow>
         if d = CHR ''}'' then Inr ([(k, v)], r)
         else if d = CHR '','' then
           (case read_members field (k # seen) r of Inl e \<Rightarrow> Inl e | Inr (ms, r') \<Rightarrow> Inr ((k, v) # ms, r'))
         else Inl SyntacticError)"
  using read_member_shrinks [OF assms, of seen s]
  by (auto simp: read_members_step [of field seen s] split: sum.split prod.split)

lemma read_members_shrinks:
  assumes "field_readers_shrink field"
  shows "read_members field seen s = Inr (ms, r) \<Longrightarrow> length r < length s"
proof (induction s arbitrary: seen ms rule: length_induct)
  case (1 s)
  then show ?case
    unfolding read_members_loop [OF assms, of seen s]
    by (auto dest!: read_member_shrinks [OF assms] split: sum.splits prod.splits if_splits)
qed

lemma read_struct_shrinks:
  assumes "field_readers_shrink field"
  shows "shrinks (read_struct k field)"
  unfolding shrinks_def
proof (intro allI impI)
  fix s v r assume run: "read_struct k field s = Inr (v, r)"
  obtain c t where t: "skip_ws s = c # t"
    using run by (cases "skip_ws s") (simp_all add: read_struct_def)
  have "Suc (length t) \<le> length s" using length_skip_ws [of s] t by simp
  moreover have "length (drop 1 (skip_ws t)) \<le> length t" using length_skip_ws [of t] by simp
  ultimately show "length r < length s"
    using run t parse_shrinks(1) [of s] read_members_shrinks [OF assms, of "[]" t]
    by (fastforce simp: read_struct_def split: if_splits sum.splits option.splits json.splits)
qed

lemma body_fields_shrink:
  "field_readers_shrink money_fields" "field_readers_shrink add_fields" "field_readers_shrink update_fields"
  "field_readers_shrink order_fields"
proof -
  show m: "field_readers_shrink money_fields"
    by (simp add: field_readers_shrink_def money_fields_def scalar_readers_shrink)
  show "field_readers_shrink add_fields" "field_readers_shrink update_fields" "field_readers_shrink order_fields"
    by (simp_all add: field_readers_shrink_def add_fields_def update_fields_def order_fields_def scalar_readers_shrink
        read_struct_shrinks [OF m])
qed

section \<open>Reading what a client printed\<close>

definition reads_back :: "json reader \<Rightarrow> json \<Rightarrow> bool" where
  "reads_back rd v \<longleftrightarrow> json_ok v \<and> (\<forall>rest. ends_value rest \<longrightarrow> rd (json_print v @ rest) = Inr (v, rest))"

lemma scalars_read_back:
  "utf8_valid t \<Longrightarrow> reads_back (read_string k) (JStr t)"
  "int64_ok n \<Longrightarrow> reads_back (read_int64 k) (JInt n)"
  by (simp_all add: reads_back_def read_string_def read_int64_def parse_str parse_int)

definition members_read_back :: "(string \<Rightarrow> json reader option) \<Rightarrow> (string \<times> json) list \<Rightarrow> bool" where
  "members_read_back field ms \<longleftrightarrow>
     distinct (map fst ms) \<and> (\<forall>(k, v)\<in>set ms. utf8_valid k \<and> (\<exists>rd. field k = Some rd \<and> reads_back rd v))"

lemma read_member_print:
  assumes "utf8_valid k" "field k = Some rd" "reads_back rd v" "k \<notin> set seen" "d = CHR '','' \<or> d = CHR ''}''"
  shows "read_member field seen (json_quote k @ '':'' @ json_print v @ d # r) = Inr (k, v, d, r)"
proof -
  have 1: "skip_ws (json_quote k @ '':'' @ json_print v @ d # r)
      = CHR 0x22 # (concat (map quote_byte k) @ CHR 0x22 # CHR '':'' # json_print v @ d # r)"
    by (simp add: json_quote_def skip_ws_def is_ws_def)
  have 2: "str_token (concat (map quote_byte k) @ CHR 0x22 # CHR '':'' # json_print v @ d # r)
      = Some (k, CHR '':'' # json_print v @ d # r)"
    by (rule str_token_quote [OF assms(1)])
  have 3: "skip_ws (CHR '':'' # json_print v @ d # r) = CHR '':'' # json_print v @ d # r" "skip_ws (d # r) = d # r"
    using assms(5) by (auto simp: skip_ws_def is_ws_def)
  have "rd (json_print v @ d # r) = Inr (v, d # r)"
    using assms(3,5) by (auto simp: reads_back_def)
  then show ?thesis unfolding read_member_def 1 list.case 2 using assms(2,4) 3 by simp
qed

lemma read_members_print:
  assumes "field_readers_shrink field" "members_read_back field ms" "ms \<noteq> []" "set (map fst ms) \<inter> set seen = {}"
  shows "read_members field seen (print_members ms @ CHR ''}'' # rest) = Inr (ms, rest)"
  using assms(2-4)
proof (induction ms arbitrary: seen rule: induct_list012)
  case (2 m)
  obtain k v where m: "m = (k, v)" by fastforce
  then obtain rd where "utf8_valid k" "field k = Some rd" "reads_back rd v" "k \<notin> set seen"
    using 2 by (auto simp: members_read_back_def)
  from read_member_print [where field = field and d = "CHR ''}''" and r = rest, OF this] show ?case
    by (simp add: m read_members_loop [OF assms(1), of seen])
next
  case (3 m m' ms)
  obtain k v where m: "m = (k, v)" by fastforce
  then obtain rd where "utf8_valid k" "field k = Some rd" "reads_back rd v" "k \<notin> set seen"
    using 3 by (auto simp: members_read_back_def)
  note one = read_member_print [where field = field and d = "CHR '',''" and r = "print_members (m' # ms) @ CHR ''}'' # rest", OF this]
  have "read_members field (k # seen) (print_members (m' # ms) @ CHR ''}'' # rest) = Inr (m' # ms, rest)"
    using 3(3-5) by (intro 3(2)) (auto simp: members_read_back_def m)
  then show ?case
    using one by (simp add: m read_members_loop [OF assms(1), of seen])
qed simp

lemma members_ok: "members_read_back field ms \<Longrightarrow> json_ok (JObj ms)"
  by (auto simp: members_read_back_def reads_back_def list_all_iff)

lemma print_members_starts:
  assumes "ms \<noteq> []"
  shows "\<exists>t. print_members ms = CHR 0x22 # t"
  using assms by (cases ms rule: print_members.cases) (simp_all add: json_quote_def)

lemma read_struct_print:
  assumes "field_readers_shrink field" "members_read_back field ms"
  shows "reads_back (read_struct k field) (JObj ms)"
proof (cases "ms = []")
  case True
  then show ?thesis
    by (simp add: reads_back_def read_struct_def skip_ws_def is_ws_def)
next
  case False
  have "read_struct k field (json_print (JObj ms) @ rest) = Inr (JObj ms, rest)" for rest
    using read_members_print [OF assms False, of "[]" rest] print_members_starts [OF False]
    by (auto simp: read_struct_def skip_ws_def is_ws_def)
  then show ?thesis using members_ok [OF assms(2)] by (simp add: reads_back_def)
qed

lemma unmarshal_print:
  assumes "field_readers_shrink field" "members_read_back field ms"
  shows "unmarshal field (json_print (JObj ms)) = Inr (JObj ms)"
proof -
  have "read_struct '''' field (json_print (JObj ms) @ []) = Inr (JObj ms, [])"
    using read_struct_print [OF assms, of "''''"] ends_value_simps(1) unfolding reads_back_def by blast
  then show ?thesis by (simp add: unmarshal_def skip_ws_def del: json_print.simps)
qed

text \<open>Members in any order are found by their names.\<close>

lemma map_of_any_order:
  assumes "mset ms = mset ms'" "distinct (map fst ms')"
  shows "map_of ms = map_of ms'" "distinct (map fst ms)"
proof -
  have "mset (map fst ms) = mset (map fst ms')" using assms(1) by simp
  then show d: "distinct (map fst ms)" using assms(2) by (metis mset_eq_imp_distinct_iff)
  show "map_of ms = map_of ms'"
    using map_of_inject_set [OF d assms(2)] assms(1) mset_eq_setD by blast
qed

lemma members_any_order:
  assumes "mset ms = mset ms'" "members_read_back field ms'"
  shows "members_read_back field ms"
  using assms map_of_any_order(2) [OF assms(1)] mset_eq_setD [OF assms(1)]
  by (simp add: members_read_back_def)

lemma ascii_names:
  "utf8_valid ''name''" "utf8_valid ''stock''" "utf8_valid ''price''" "utf8_valid ''minorAmount''" "utf8_valid ''currency''"
  "utf8_valid ''productId''" "utf8_valid ''quantity''"
  by (rule utf8_valid_ascii, simp add: byte_val_def)+

text \<open>
  C40: request bodies are read as they were written. The JSON text of a product or of an order, with its
  members, and those of the price, in any order, decodes to exactly the values it was printed from,
  provided the texts are valid UTF-8, the numbers fit 64 bits and the body is within the limit.
\<close>

theorem http_bodies_read_back:
  assumes texts: "utf8_valid nm" "utf8_valid cur" "utf8_valid pid" and ints: "int64_ok st" "int64_ok ma" "int64_ok q"
    and price: "mset pm = mset [(''minorAmount'', JInt ma), (''currency'', JStr cur)]"
    and add: "mset ms = mset [(''name'', JStr nm), (''stock'', JInt st), (''price'', JObj pm)]"
    and order: "mset oms = mset [(''productId'', JStr pid), (''quantity'', JInt q)]"
    and fits: "int (length (json_print (JObj ms))) \<le> limit" "int (length (json_print (JObj oms))) \<le> limit"
  shows "decode_add \<lparr>rb_bytes = json_print (JObj ms), rb_limit = Some limit, rb_fault = None\<rparr>
      = Inr \<lparr>ai_Name = nm, ai_Stock = st, ai_Price = \<lparr>mi_MinorAmount = ma, mi_Currency = cur\<rparr>\<rparr>
    \<and> decode_order \<lparr>rb_bytes = json_print (JObj oms), rb_limit = Some limit, rb_fault = None\<rparr>
      = Inr \<lparr>ci_ProductID = pid, ci_Quantity = q\<rparr>"
proof -
  have pm: "members_read_back money_fields pm"
    by (rule members_any_order [OF price])
      (simp add: members_read_back_def money_fields_def ascii_names scalars_read_back texts ints del: utf8_valid.simps)
  have "members_read_back add_fields ms"
    by (rule members_any_order [OF add])
      (simp add: members_read_back_def add_fields_def ascii_names scalars_read_back texts ints
        read_struct_print [OF body_fields_shrink(1) pm] del: utf8_valid.simps)
  then have 1: "unmarshal add_fields (json_print (JObj ms)) = Inr (JObj ms)"
    by (rule unmarshal_print [OF body_fields_shrink(2)])
  have "members_read_back order_fields oms"
    by (rule members_any_order [OF order])
      (simp add: members_read_back_def order_fields_def ascii_names scalars_read_back texts ints del: utf8_valid.simps)
  then have 2: "unmarshal order_fields (json_print (JObj oms)) = Inr (JObj oms)"
    by (rule unmarshal_print [OF body_fields_shrink(4)])
  have m: "map_of ms = map_of [(''name'', JStr nm), (''stock'', JInt st), (''price'', JObj pm)]"
    "map_of pm = map_of [(''minorAmount'', JInt ma), (''currency'', JStr cur)]"
    "map_of oms = map_of [(''productId'', JStr pid), (''quantity'', JInt q)]"
    using map_of_any_order(1) [OF add] map_of_any_order(1) [OF price] map_of_any_order(1) [OF order] by simp_all
  show ?thesis
    using fits 1 2
    by (simp add: decode_add_def decode_order_def decodeBody_def str_member_def int_member_def obj_member_def
        money_of_json_def m del: json_print.simps)
qed

theorem http_bodies_read_back_witness:
  "decode_order \<lparr>rb_bytes = json_print (JObj [(''quantity'', JInt 2), (''productId'', JStr ''p'')]), rb_limit = Some 100, rb_fault = None\<rparr>
     = Inr \<lparr>ci_ProductID = ''p'', ci_Quantity = 2\<rparr>"
proof -
  let ?pm = "[(''minorAmount'', JInt 0), (''currency'', JStr ''p'')]"
  let ?ms = "[(''name'', JStr ''p''), (''stock'', JInt 0), (''price'', JObj ?pm)]"
  let ?oms = "[(''quantity'', JInt 2), (''productId'', JStr ''p'')]"
  have u: "utf8_valid ''p''" by (rule utf8_valid_ascii) (simp add: byte_val_def)
  have a: "int (length (json_print (JObj ?ms))) \<le> 100" by code_simp
  have b: "int (length (json_print (JObj ?oms))) \<le> 100" by code_simp
  have i: "int64_ok 0" "int64_ok 2" by (simp_all add: int64_ok_def)
  have m: "mset ?oms = mset [(''productId'', JStr ''p''), (''quantity'', JInt 2)]" by simp
  show ?thesis
    using http_bodies_read_back [OF u u u i(1) i(1) i(2) refl refl m a b] by (rule conjunct2)
qed

end
