(* ===== verification/Servers.thy ===== *)
theory Servers
  imports Go_Error
begin

text \<open>
  The \<open>Run\<close> methods of \<open>internal/transport/http/server.go\<close> and \<open>internal/transport/grpc/server.go\<close>. Each
  starts two goroutines in an error group: one serves, one waits for the group's context and then
  stops the server. What the goroutines meet arrives as events, in any order the guards allow; an
  event that cannot happen gives None. The guards on the servers' own answers are what their packages
  document: \<open>ListenAndServe\<close> answers \<open>ErrServerClosed\<close> only after \<open>Shutdown\<close>, \<open>Serve\<close> answers nil or
  \<open>ErrServerStopped\<close> only after a stop, and \<open>GracefulStop\<close> blocks until no call is pending or \<open>Stop\<close>
  cuts them off.
\<close>

section \<open>Error groups\<close>

text \<open>
  \<open>errgroup.WithContext\<close>: the members still running and the first error one returned. The derived
  context is done when its parent is, or on that error; \<open>Wait\<close> answers it when no member is left.
\<close>

record group =
  eg_left :: "nat list"
  eg_err :: "go_error option"

definition group_Go :: "nat \<Rightarrow> group" where
  "group_Go n = \<lparr>eg_left = [0..<n], eg_err = None\<rparr>"

definition group_Return :: "nat \<Rightarrow> go_error option \<Rightarrow> group \<Rightarrow> group" where
  "group_Return i r g =
     g\<lparr>eg_left := remove1 i (eg_left g), eg_err := (case eg_err g of None \<Rightarrow> r | Some e \<Rightarrow> Some e)\<rparr>"

definition group_Done :: "bool \<Rightarrow> group \<Rightarrow> bool" where
  "group_Done ctx g \<longleftrightarrow> ctx \<or> eg_err g \<noteq> None"

definition group_Wait :: "group \<Rightarrow> go_error option option" where
  "group_Wait g = (if eg_left g = [] then Some (eg_err g) else None)"

lemma group_Return_sel [simp]:
  "eg_left (group_Return i r g) = remove1 i (eg_left g)"
  "eg_err (group_Return i r g) = (case eg_err g of None \<Rightarrow> r | Some e \<Rightarrow> Some e)"
  by (simp_all add: group_Return_def)

lemma group_Go_sel [simp]: "eg_left (group_Go n) = [0..<n]" "eg_err (group_Go n) = None"
  by (simp_all add: group_Go_def)

lemma group_Wait_iff [simp]: "group_Wait g = Some r \<longleftrightarrow> eg_left g = [] \<and> eg_err g = r"
  "group_Wait g = None \<longleftrightarrow> eg_left g \<noteq> []"
  by (auto simp: group_Wait_def)

section \<open>The HTTP server (server.go)\<close>

definition ErrServerClosed :: go_error where
  "ErrServerClosed = ErrText ''http: Server closed''"

record http_server =
  hs_group :: group
  hs_shutdown :: bool

datatype http_event = ListenReturns go_error | ShutdownCalled | ShutdownReturns "go_error option"

definition http_start :: http_server where
  "http_start = \<lparr>hs_group = group_Go 2, hs_shutdown = False\<rparr>"

text \<open>The serving goroutine is member 0 of the group, the stopping one member 1; \<open>ctx\<close> is the caller's context.\<close>

fun http_Run :: "string \<Rightarrow> bool \<Rightarrow> http_event \<Rightarrow> http_server \<Rightarrow> http_server option" where
  "http_Run addr ctx (ListenReturns err) s =
     (if 0 \<notin> set (eg_left (hs_group s)) \<or> errors_is err ErrServerClosed \<and> \<not> hs_shutdown s then None
      else Some (s\<lparr>hs_group := group_Return 0
        (if \<not> errors_is err ErrServerClosed
         then Some (errorf_w (''server '' @ addr @ '' listen failed: '') err) else None) (hs_group s)\<rparr>))"
| "http_Run addr ctx ShutdownCalled s =
     (if 1 \<notin> set (eg_left (hs_group s)) \<or> \<not> group_Done ctx (hs_group s) \<or> hs_shutdown s then None
      else Some (s\<lparr>hs_shutdown := True\<rparr>))"
| "http_Run addr ctx (ShutdownReturns r) s =
     (if 1 \<notin> set (eg_left (hs_group s)) \<or> \<not> hs_shutdown s then None
      else Some (s\<lparr>hs_group := group_Return 1
        (case r of Some err \<Rightarrow> Some (errorf_w (''server '' @ addr @ '' shutdown failed: '') err) | None \<Rightarrow> None)
        (hs_group s)\<rparr>))"

section \<open>The gRPC server (server.go)\<close>

definition ErrServerStopped :: go_error where
  "ErrServerStopped = ErrText ''grpc: the server has been stopped''"

datatype grpc_phase = Starting | Started | ListenFailed go_error

record grpc_server =
  gs_phase :: grpc_phase
  gs_group :: group
  gs_stopping :: bool
  gs_forced :: bool

datatype grpc_event =
    GrpcListen "go_error option"
  | ServeReturns "go_error option"
  | GracefulStopCalled
  | ForceStop
  | GracefulStopReturns bool

definition grpc_start :: grpc_server where
  "grpc_start = \<lparr>gs_phase = Starting, gs_group = group_Go 2, gs_stopping = False, gs_forced = False\<rparr>"

fun grpc_Run :: "bool \<Rightarrow> grpc_event \<Rightarrow> grpc_server \<Rightarrow> grpc_server option" where
  "grpc_Run ctx (GrpcListen r) s =
     (if gs_phase s \<noteq> Starting then None
      else Some (s\<lparr>gs_phase := (case r of Some err \<Rightarrow> ListenFailed (errorf_w ''grpc listen: '' err) | None \<Rightarrow> Started)\<rparr>))"
| "grpc_Run ctx (ServeReturns r) s =
     (if gs_phase s \<noteq> Started \<or> 0 \<notin> set (eg_left (gs_group s))
        \<or> (case r of None \<Rightarrow> True | Some err \<Rightarrow> errors_is err ErrServerStopped) \<and> \<not> gs_stopping s then None
      else Some (s\<lparr>gs_group := group_Return 0
        (case r of None \<Rightarrow> None
         | Some err \<Rightarrow> if \<not> errors_is err ErrServerStopped then Some (errorf_w ''grpc serve failed: '' err) else None)
        (gs_group s)\<rparr>))"
| "grpc_Run ctx GracefulStopCalled s =
     (if gs_phase s \<noteq> Started \<or> 1 \<notin> set (eg_left (gs_group s)) \<or> \<not> group_Done ctx (gs_group s) \<or> gs_stopping s then None
      else Some (s\<lparr>gs_stopping := True\<rparr>))"
| "grpc_Run ctx ForceStop s =
     (if gs_phase s \<noteq> Started \<or> 1 \<notin> set (eg_left (gs_group s)) \<or> \<not> gs_stopping s \<or> gs_forced s then None
      else Some (s\<lparr>gs_forced := True\<rparr>))"
| "grpc_Run ctx (GracefulStopReturns drained) s =
     (if gs_phase s \<noteq> Started \<or> 1 \<notin> set (eg_left (gs_group s)) \<or> \<not> gs_stopping s \<or> \<not> (drained \<or> gs_forced s) then None
      else Some (s\<lparr>gs_group := group_Return 1 None (gs_group s)\<rparr>))"

definition grpc_result :: "grpc_server \<Rightarrow> go_error option option" where
  "grpc_result s =
     (case gs_phase s of Starting \<Rightarrow> None | Started \<Rightarrow> group_Wait (gs_group s) | ListenFailed err \<Rightarrow> Some (Some err))"

definition http_result :: "http_server \<Rightarrow> go_error option option" where
  "http_result s = group_Wait (hs_group s)"

section \<open>What a runner promises\<close>

text \<open>
  The contract of \<open>Run\<close>, over a runner's events: an invariant from the start; nil is an answer only when
  the caller's context was done; each event brings the end nearer, and after the end there is none;
  and with the context done, or once one of its own goroutines failed, some event can always happen,
  one that waits for no client.
\<close>

locale runner =
  fixes start :: 's
    and step :: "bool \<Rightarrow> 'e \<Rightarrow> 's \<Rightarrow> 's option"
    and result :: "'s \<Rightarrow> go_error option option"
    and inv :: "bool \<Rightarrow> 's \<Rightarrow> bool"
    and left :: "'s \<Rightarrow> nat"
    and sure :: "'e \<Rightarrow> bool"
    and failed :: "'s \<Rightarrow> bool"
  assumes inv_start: "inv False start"
    and inv_step: "inv ctx s \<Longrightarrow> step ctx e s = Some s' \<Longrightarrow> inv ctx s'"
    and inv_mono: "inv False s \<Longrightarrow> inv True s"
    and running_start: "result start = None"
    and nil_asked: "inv ctx s \<Longrightarrow> result s = Some None \<Longrightarrow> ctx"
    and ended: "result s \<noteq> None \<Longrightarrow> step ctx e s = None"
    and shrinks: "step ctx e s = Some s' \<Longrightarrow> left s' < left s"
    and failed_stays: "failed s \<Longrightarrow> step ctx e s = Some s' \<Longrightarrow> failed s'"
    and live: "inv ctx s \<Longrightarrow> result s = None \<Longrightarrow> ctx \<or> failed s \<Longrightarrow> \<exists>e s'. sure e \<and> step ctx e s = Some s'"
begin

lemma inv_any: "inv False s \<Longrightarrow> inv ctx s"
  by (cases ctx) (simp_all add: inv_mono)

lemma step_keeps:
  assumes "inv ctx s" "step ctx e s = Some s'"
  shows "inv ctx s'" "result s = None" "result s' = Some None \<Longrightarrow> ctx"
proof -
  show inv': "inv ctx s'" using assms by (rule inv_step)
  show "result s = None" using ended [of s ctx e] assms(2) by (cases "result s") auto
  show "result s' = Some None \<Longrightarrow> ctx" using inv' by (rule nil_asked)
qed

lemma inv_ctx: "inv ctx s \<Longrightarrow> (ctx \<Longrightarrow> ctx') \<Longrightarrow> inv ctx' s"
  by (cases ctx; cases ctx') (simp_all add: inv_mono)

end

text \<open>The members left are duplicate-free, and a stopped or failed server was asked to stop or has an error.\<close>

definition http_inv :: "bool \<Rightarrow> http_server \<Rightarrow> bool" where
  "http_inv ctx s \<longleftrightarrow>
     eg_left (hs_group s) \<in> {[0, 1], [0], [1], []}
     \<and> (hs_shutdown s \<longrightarrow> group_Done ctx (hs_group s))
     \<and> (0 \<notin> set (eg_left (hs_group s)) \<longrightarrow> hs_shutdown s \<or> eg_err (hs_group s) \<noteq> None)
     \<and> (1 \<notin> set (eg_left (hs_group s)) \<longrightarrow> hs_shutdown s)"

definition http_left :: "http_server \<Rightarrow> nat" where
  "http_left s = length (eg_left (hs_group s)) + (if hs_shutdown s then 0 else 1)"

text \<open>Clients may keep \<open>Shutdown\<close> busy until its timeout, and calls \<open>GracefulStop\<close> until the forced stop.\<close>

definition http_sure :: "http_event \<Rightarrow> bool" where
  "http_sure e \<longleftrightarrow> e \<noteq> ShutdownReturns None"

definition grpc_sure :: "grpc_event \<Rightarrow> bool" where
  "grpc_sure e \<longleftrightarrow> e \<noteq> GracefulStopReturns True"

definition http_failed :: "http_server \<Rightarrow> bool" where
  "http_failed s \<longleftrightarrow> eg_err (hs_group s) \<noteq> None"

definition grpc_failed :: "grpc_server \<Rightarrow> bool" where
  "grpc_failed s \<longleftrightarrow> eg_err (gs_group s) \<noteq> None"

definition grpc_inv :: "bool \<Rightarrow> grpc_server \<Rightarrow> bool" where
  "grpc_inv ctx s \<longleftrightarrow>
     eg_left (gs_group s) \<in> {[0, 1], [0], [1], []}
     \<and> (gs_phase s \<noteq> Started \<longrightarrow> eg_left (gs_group s) = [0, 1])
     \<and> (gs_stopping s \<longrightarrow> group_Done ctx (gs_group s))
     \<and> (0 \<notin> set (eg_left (gs_group s)) \<longrightarrow> gs_stopping s \<or> eg_err (gs_group s) \<noteq> None)
     \<and> (1 \<notin> set (eg_left (gs_group s)) \<longrightarrow> gs_stopping s)"

definition grpc_left :: "grpc_server \<Rightarrow> nat" where
  "grpc_left s = (if gs_phase s = Starting then 1 else 0) + length (eg_left (gs_group s))
     + (if gs_stopping s then 0 else 1) + (if gs_forced s then 0 else 1)"

lemma length_remove1_less: "x \<in> set xs \<Longrightarrow> length (remove1 x xs) < length xs"
  by (metis Suc_pred diff_Suc_1 length_pos_if_in_set length_remove1 lessI)

interpretation httpr: runner http_start "http_Run addr" http_result http_inv http_left http_sure http_failed for addr
proof
  show "http_inv False http_start" by (simp add: http_inv_def http_start_def eval_nat_numeral)
  show "http_result http_start = None" by (simp add: http_result_def http_start_def)
  fix ctx s e s'
  show "http_inv ctx s'" if "http_inv ctx s" "http_Run addr ctx e s = Some s'"
    using that by (cases e) (auto simp: http_inv_def group_Done_def split: if_splits option.splits)
  show "http_inv True s" if "http_inv False s" using that by (auto simp: http_inv_def group_Done_def)
  show ctx if "http_inv ctx s" "http_result s = Some None"
    using that by (auto simp: http_inv_def http_result_def group_Done_def)
  show "http_Run addr ctx e s = None" if "http_result s \<noteq> None"
    using that by (cases e) (auto simp: http_result_def)
  show "http_left s' < http_left s" if "http_Run addr ctx e s = Some s'"
    using that length_remove1_less [of 0 "eg_left (hs_group s)"] length_remove1_less [of 1 "eg_left (hs_group s)"]
    by (cases e) (auto simp: http_left_def split: if_splits)
  show "http_failed s'" if "http_failed s" "http_Run addr ctx e s = Some s'"
    using that by (cases e) (auto simp: http_failed_def split: if_splits option.splits)
  show "\<exists>e s'. http_sure e \<and> http_Run addr ctx e s = Some s'"
    if "http_inv ctx s" "http_result s = None" "ctx \<or> http_failed s"
  proof (cases "1 \<in> set (eg_left (hs_group s))")
    case True
    then show ?thesis
      using that(3)
      by (intro exI [of _ "if hs_shutdown s then ShutdownReturns (Some CtxDeadlineExceeded) else ShutdownCalled"])
        (simp add: group_Done_def http_sure_def http_failed_def)
  next
    case False
    then have "0 \<in> set (eg_left (hs_group s))" "hs_shutdown s"
      using that by (auto simp: http_inv_def http_result_def)
    then show ?thesis by (intro exI [of _ "ListenReturns ErrServerClosed"]) (simp add: http_sure_def)
  qed
qed

interpretation grpcr: runner grpc_start grpc_Run grpc_result grpc_inv grpc_left grpc_sure grpc_failed
proof
  show "grpc_inv False grpc_start" by (simp add: grpc_inv_def grpc_start_def eval_nat_numeral)
  show "grpc_result grpc_start = None" by (simp add: grpc_result_def grpc_start_def)
  fix ctx s e s'
  show "grpc_inv ctx s'" if "grpc_inv ctx s" "grpc_Run ctx e s = Some s'"
    using that by (cases e) (auto simp: grpc_inv_def group_Done_def split: if_splits option.splits)
  show "grpc_inv True s" if "grpc_inv False s" using that by (auto simp: grpc_inv_def group_Done_def)
  show ctx if "grpc_inv ctx s" "grpc_result s = Some None"
    using that by (auto simp: grpc_inv_def grpc_result_def group_Done_def split: grpc_phase.splits)
  show "grpc_Run ctx e s = None" if "grpc_result s \<noteq> None"
    using that by (cases e) (auto simp: grpc_result_def split: grpc_phase.splits)
  show "grpc_left s' < grpc_left s" if "grpc_Run ctx e s = Some s'"
    using that length_remove1_less [of 0 "eg_left (gs_group s)"] length_remove1_less [of 1 "eg_left (gs_group s)"]
    by (cases e) (auto simp: grpc_left_def split: if_splits option.splits)
  show "grpc_failed s'" if "grpc_failed s" "grpc_Run ctx e s = Some s'"
    using that by (cases e) (auto simp: grpc_failed_def split: if_splits option.splits)
  show "\<exists>e s'. grpc_sure e \<and> grpc_Run ctx e s = Some s'"
    if "grpc_inv ctx s" "grpc_result s = None" "ctx \<or> grpc_failed s"
  proof (cases "gs_phase s = Starting")
    case True
    then show ?thesis by (intro exI [of _ "GrpcListen None"]) (simp add: grpc_sure_def)
  next
    case False
    then have p: "gs_phase s = Started" using that(2) by (cases "gs_phase s") (auto simp: grpc_result_def)
    show ?thesis
    proof (cases "1 \<in> set (eg_left (gs_group s))")
      case True
      then show ?thesis
        using p that(3)
        by (intro exI [of _ "if \<not> gs_stopping s then GracefulStopCalled else if gs_forced s then GracefulStopReturns False
            else ForceStop"]) (simp add: group_Done_def grpc_sure_def grpc_failed_def)
    next
      case False
      then have "0 \<in> set (eg_left (gs_group s))" "gs_stopping s"
        using that p by (auto simp: grpc_inv_def grpc_result_def)
      then show ?thesis using p by (intro exI [of _ "ServeReturns None"]) (simp add: grpc_sure_def)
    qed
  qed
qed

end
