(* ===== verification/Config.thy ===== *)
theory Config
  imports Relay Cache_Protocol Idempotency_Store
begin

text \<open>
  \<open>internal/config\<close>: the settings, the listen addresses and the validation that \<open>Load\<close> runs on what the
  environment library parsed. Durations are nanoseconds. Parsing the environment is the library's
  (\<open>caarlos0/env\<close>), a parameter of \<open>Load\<close>. Connection URLs are rendered in \<open>Urls\<close>; the logger is not
  modelled.
\<close>

section \<open>Settings (config.go, secret.go)\<close>

type_synonym secret = string

definition redacted :: string where "redacted = ''***''"

definition secret_Reveal :: "secret \<Rightarrow> string" where "secret_Reveal s = s"
definition secret_String :: "secret \<Rightarrow> string" where "secret_String s = redacted"
definition secret_Format :: "secret \<Rightarrow> string" where "secret_Format s = redacted"
definition secret_MarshalText :: "secret \<Rightarrow> string" where "secret_MarshalText s = redacted"
definition secret_MarshalJSON :: "secret \<Rightarrow> string" where
  "secret_MarshalJSON s = [CHR 0x22] @ redacted @ [CHR 0x22]"

record http_config =
  http_Host :: string
  http_Port :: int
  http_InternalPort :: int
  http_ReadTimeout :: int
  http_WriteTimeout :: int
  http_IdleTimeout :: int
  http_RequestTimeout :: int
  http_MaxBodyBytes :: int
  http_CompressMinBytes :: int
  http_CORSAllowedOrigins :: "string list"
  http_CORSMaxAge :: int
  http_HSTSEnabled :: bool
  http_HSTSMaxAge :: int

record grpc_config =
  grpc_Host :: string
  grpc_Port :: int
  grpc_RequestTimeout :: int
  grpc_MaxRequestBytes :: int
  grpc_Reflection :: bool

record postgres_config =
  pg_Host :: string
  pg_Port :: int
  pg_User :: string
  pg_Password :: secret
  pg_Database :: string
  pg_SSLMode :: string
  pg_MaxOpenConns :: int
  pg_MaxIdleConns :: int
  pg_ConnMaxLifetime :: int

record valkey_config =
  vkc_Host :: string
  vkc_Port :: int
  vkc_Password :: secret
  vkc_DB :: int
  vkc_TTL :: int
  vkc_NegTTL :: int

record rabbitmq_config =
  rmq_Host :: string
  rmq_Port :: int
  rmq_User :: string
  rmq_Password :: secret

record service_config =
  svc_LoadTimeout :: int

record idempotency_config =
  idem_TTL :: int
  idem_PurgeInterval :: int

record auth_config =
  auth_JWTSecret :: secret

record config =
  cfg_HTTP :: http_config
  cfg_GRPC :: grpc_config
  cfg_Postgres :: postgres_config
  cfg_Valkey :: valkey_config
  cfg_RabbitMQ :: rabbitmq_config
  cfg_Outbox :: relay_config
  cfg_Service :: service_config
  cfg_Idempotency :: idempotency_config
  cfg_LogLevel :: int
  cfg_Auth :: auth_config
  cfg_ShutdownTimeout :: int

text \<open>\<open>net.JoinHostPort\<close> brackets a host that contains a colon.\<close>

definition JoinHostPort :: "string \<Rightarrow> string \<Rightarrow> string" where
  "JoinHostPort host port =
     (if CHR '':'' \<in> set host then ''['' @ host @ '']:'' @ port else host @ '':'' @ port)"

definition http_Address :: "http_config \<Rightarrow> string" where
  "http_Address h = JoinHostPort (http_Host h) (itoa (http_Port h))"

definition http_InternalAddress :: "http_config \<Rightarrow> string" where
  "http_InternalAddress h = JoinHostPort (http_Host h) (itoa (http_InternalPort h))"

definition grpc_Address :: "grpc_config \<Rightarrow> string" where
  "grpc_Address g = JoinHostPort (grpc_Host g) (itoa (grpc_Port g))"

definition valkey_Address :: "valkey_config \<Rightarrow> string" where
  "valkey_Address v = JoinHostPort (vkc_Host v) (itoa (vkc_Port v))"

section \<open>Validation (validate.go)\<close>

definition maxPort :: int where "maxPort = 65535"
definition minJWTSecretBytes :: nat where "minJWTSecretBytes = 32"

text \<open>\<open>errors.Join\<close>: nil when every argument is nil, else the errors that are not.\<close>

definition errors_Join :: "go_error option list \<Rightarrow> go_error option" where
  "errors_Join es =
     (case List.map_filter (\<lambda>e. e) es of [] \<Rightarrow> None | x # xs \<Rightarrow> Some (Wrapped ''join'' (x # xs)))"

definition positive :: "string \<Rightarrow> int \<Rightarrow> go_error option" where
  "positive name v = (if v \<le> 0 then Some (ErrText (name @ '' must be greater than zero'')) else None)"

definition notNegative :: "string \<Rightarrow> int \<Rightarrow> go_error option" where
  "notNegative name v = (if v < 0 then Some (ErrText (name @ '' must not be negative'')) else None)"

definition atLeast :: "string \<Rightarrow> int \<Rightarrow> int \<Rightarrow> go_error option" where
  "atLeast name v floor' = (if v < floor' then Some (ErrText (name @ '' must be at least its floor'')) else None)"

definition listenPort :: "string \<Rightarrow> int \<Rightarrow> go_error option" where
  "listenPort name v =
     (if v < 1 \<or> v > maxPort then Some (ErrText (name @ '' must be a port number'')) else None)"

definition validateResponseDeadline :: "http_config \<Rightarrow> go_error option" where
  "validateResponseDeadline h =
     (if http_WriteTimeout h \<le> http_RequestTimeout h
      then Some (ErrText ''HTTP_WRITE_TIMEOUT must exceed HTTP_REQUEST_TIMEOUT'') else None)"

definition http_validate :: "http_config \<Rightarrow> go_error option" where
  "http_validate h = errors_Join
     [listenPort ''HTTP_PORT'' (http_Port h),
      listenPort ''HTTP_INTERNAL_PORT'' (http_InternalPort h),
      positive ''HTTP_READ_TIMEOUT'' (http_ReadTimeout h),
      positive ''HTTP_WRITE_TIMEOUT'' (http_WriteTimeout h),
      positive ''HTTP_IDLE_TIMEOUT'' (http_IdleTimeout h),
      positive ''HTTP_REQUEST_TIMEOUT'' (http_RequestTimeout h),
      positive ''HTTP_MAX_BODY_BYTES'' (http_MaxBodyBytes h),
      notNegative ''HTTP_COMPRESS_MIN_BYTES'' (http_CompressMinBytes h),
      notNegative ''HSTS_MAX_AGE'' (http_HSTSMaxAge h),
      validateResponseDeadline h]"

definition grpc_validate :: "grpc_config \<Rightarrow> go_error option" where
  "grpc_validate g = errors_Join
     [listenPort ''GRPC_PORT'' (grpc_Port g),
      positive ''GRPC_REQUEST_TIMEOUT'' (grpc_RequestTimeout g),
      positive ''GRPC_MAX_REQUEST_BYTES'' (grpc_MaxRequestBytes g)]"

definition validateConnLimits :: "postgres_config \<Rightarrow> go_error option" where
  "validateConnLimits p =
     (if pg_MaxIdleConns p > pg_MaxOpenConns p
      then Some (ErrText ''PG_MAX_IDLE_CONNS must not exceed PG_MAX_OPEN_CONNS'') else None)"

definition postgres_validate :: "postgres_config \<Rightarrow> go_error option" where
  "postgres_validate p = errors_Join
     [positive ''PG_MAX_OPEN_CONNS'' (pg_MaxOpenConns p),
      notNegative ''PG_MAX_IDLE_CONNS'' (pg_MaxIdleConns p),
      positive ''PG_CONN_MAX_LIFETIME'' (pg_ConnMaxLifetime p),
      validateConnLimits p]"

definition valkey_validate :: "valkey_config \<Rightarrow> go_error option" where
  "valkey_validate v = errors_Join
     [atLeast ''VALKEY_CACHE_TTL'' (vkc_TTL v) 1000000,
      atLeast ''VALKEY_CACHE_NEG_TTL'' (vkc_NegTTL v) 1000000]"

definition outbox_validate :: "relay_config \<Rightarrow> go_error option" where
  "outbox_validate c = errors_Join
     [positive ''OUTBOX_BATCH_SIZE'' (BatchSize c),
      positive ''OUTBOX_POLL_INTERVAL'' (PollInterval c),
      positive ''OUTBOX_PUBLISH_TIMEOUT'' (PublishTimeout c),
      positive ''OUTBOX_MAX_ATTEMPTS'' (MaxAttempts c)]"

definition service_validate :: "service_config \<Rightarrow> go_error option" where
  "service_validate s = positive ''SERVICE_LOAD_TIMEOUT'' (svc_LoadTimeout s)"

definition idempotency_validate :: "idempotency_config \<Rightarrow> go_error option" where
  "idempotency_validate i = errors_Join
     [positive ''IDEMPOTENCY_TTL'' (idem_TTL i),
      positive ''IDEMPOTENCY_PURGE_INTERVAL'' (idem_PurgeInterval i)]"

definition auth_validate :: "auth_config \<Rightarrow> go_error option" where
  "auth_validate a =
     (if length (secret_Reveal (auth_JWTSecret a)) < minJWTSecretBytes
      then Some (ErrText ''AUTH_JWT_SECRET must be at least 32 bytes'') else None)"

fun first_repeat :: "string list \<Rightarrow> string list \<Rightarrow> go_error option" where
  "first_repeat seen [] = None"
| "first_repeat seen (addr # rest) =
     (if addr \<in> set seen
      then Some (ErrQuoted ''HTTP_PORT, HTTP_INTERNAL_PORT and GRPC_PORT must resolve to distinct listen addresses'' addr)
      else first_repeat (addr # seen) rest)"

definition validateListenAddresses :: "config \<Rightarrow> go_error option" where
  "validateListenAddresses c =
     first_repeat [] [http_Address (cfg_HTTP c), http_InternalAddress (cfg_HTTP c), grpc_Address (cfg_GRPC c)]"

definition config_validate :: "config \<Rightarrow> go_error option" where
  "config_validate c = errors_Join
     [http_validate (cfg_HTTP c), grpc_validate (cfg_GRPC c), postgres_validate (cfg_Postgres c),
      valkey_validate (cfg_Valkey c), outbox_validate (cfg_Outbox c), service_validate (cfg_Service c),
      idempotency_validate (cfg_Idempotency c), auth_validate (cfg_Auth c),
      positive ''SHUTDOWN_TIMEOUT'' (cfg_ShutdownTimeout c), validateListenAddresses c]"

text \<open>\<open>Load\<close>, \<open>LoadPostgres\<close> and \<open>LoadAuth\<close>: \<open>parsed\<close> is what the environment library answered.\<close>

definition load_checked :: "('c \<Rightarrow> go_error option) \<Rightarrow> go_error + 'c \<Rightarrow> go_error + 'c" where
  "load_checked validate parsed =
     (case parsed of
        Inl err \<Rightarrow> Inl err
      | Inr cfg \<Rightarrow> (case validate cfg of Some err \<Rightarrow> Inl err | None \<Rightarrow> Inr cfg))"

definition config_Load :: "go_error + config \<Rightarrow> go_error + config" where
  "config_Load = load_checked config_validate"

definition LoadPostgres :: "go_error + postgres_config \<Rightarrow> go_error + postgres_config" where
  "LoadPostgres = load_checked postgres_validate"

definition LoadAuth :: "go_error + auth_config \<Rightarrow> go_error + auth_config" where
  "LoadAuth = load_checked auth_validate"

section \<open>What validation lets through\<close>

lemma errors_Join_None: "errors_Join es = None \<longleftrightarrow> (\<forall>e\<in>set es. e = None)"
proof -
  have "List.map_filter (\<lambda>e. e) es = [] \<longleftrightarrow> (\<forall>e\<in>set es. e = None)"
    by (induction es) (auto split: option.split)
  then show ?thesis by (auto simp: errors_Join_def split: list.splits)
qed

lemma check_None [simp]:
  "positive n v = None \<longleftrightarrow> 0 < v" "notNegative n v = None \<longleftrightarrow> 0 \<le> v" "atLeast n v b = None \<longleftrightarrow> b \<le> v"
  "listenPort n v = None \<longleftrightarrow> 1 \<le> v \<and> v \<le> 65535"
  by (auto simp: positive_def notNegative_def atLeast_def listenPort_def maxPort_def)

lemma itoa_no_colon: "CHR '':'' \<notin> set (itoa n)"
proof -
  have "CHR '':'' \<notin> set (map digit_char (nat_digits m))" for m
  proof
    assume "CHR '':'' \<in> set (map digit_char (nat_digits m))"
    then have "is_digit (CHR '':'')"
      using list_all_digit_nat_digits [of m] unfolding list_all_iff by blast
    then show False by (simp add: is_digit_def)
  qed
  then show ?thesis by (simp add: itoa_def)
qed

lemma last_split_unique:
  assumes "a @ c # p = b @ c # q" "c \<notin> set p" "c \<notin> set q"
  shows "a = b \<and> p = q"
proof -
  have "takeWhile (\<lambda>x. x \<noteq> c) (rev (a @ c # p)) = rev p" "takeWhile (\<lambda>x. x \<noteq> c) (rev (b @ c # q)) = rev q"
    using assms(2,3) takeWhile_until [of c "rev p"] takeWhile_until [of c "rev q"] by simp_all
  then have "p = q" using assms(1) by simp
  then show ?thesis using assms(1) by simp
qed

lemma JoinHostPort_inject:
  "JoinHostPort h (itoa p) = JoinHostPort h' (itoa p') \<longleftrightarrow> h = h' \<and> p = p'"
proof
  define w where "w x = (if CHR '':'' \<in> set x then ''['' @ x @ '']'' else x)" for x :: string
  have eq: "JoinHostPort x (itoa n) = w x @ CHR '':'' # itoa n" for x n
    by (simp add: JoinHostPort_def w_def)
  assume "JoinHostPort h (itoa p) = JoinHostPort h' (itoa p')"
  then have "w h = w h' \<and> itoa p = itoa p'"
    unfolding eq by (rule last_split_unique) (rule itoa_no_colon)+
  then have w: "w h = w h'" and p: "p = p'" by (simp_all add: itoa_inject)
  have colon: "CHR '':'' \<in> set (w x) \<longleftrightarrow> CHR '':'' \<in> set x" for x by (simp add: w_def)
  then have "CHR '':'' \<in> set h \<longleftrightarrow> CHR '':'' \<in> set h'" using w by metis
  then have "h = h'" using w unfolding w_def by (cases "CHR '':'' \<in> set h") simp_all
  then show "h = h' \<and> p = p'" using p by simp
qed simp


text \<open>
  the configuration the process accepts, exactly. Every port is one, every timeout, limit and interval
  is positive (the two that may be zero are not negative), the write timeout exceeds the request
  timeout, idle connections do not exceed open ones, both cache TTLs reach a millisecond, the signing
  key has 32 bytes, and no two of the three listeners share host and port.
\<close>

theorem config_accepted_iff:
  "config_validate c = None \<longleftrightarrow>
     (\<forall>p\<in>{http_Port (cfg_HTTP c), http_InternalPort (cfg_HTTP c), grpc_Port (cfg_GRPC c)}. 1 \<le> p \<and> p \<le> 65535)
     \<and> (\<forall>v\<in>{http_ReadTimeout (cfg_HTTP c), http_WriteTimeout (cfg_HTTP c), http_IdleTimeout (cfg_HTTP c),
          http_RequestTimeout (cfg_HTTP c), http_MaxBodyBytes (cfg_HTTP c), grpc_RequestTimeout (cfg_GRPC c),
          grpc_MaxRequestBytes (cfg_GRPC c), pg_MaxOpenConns (cfg_Postgres c), pg_ConnMaxLifetime (cfg_Postgres c),
          BatchSize (cfg_Outbox c), PollInterval (cfg_Outbox c), PublishTimeout (cfg_Outbox c), MaxAttempts (cfg_Outbox c),
          svc_LoadTimeout (cfg_Service c), idem_TTL (cfg_Idempotency c), idem_PurgeInterval (cfg_Idempotency c),
          cfg_ShutdownTimeout c}. 0 < v)
     \<and> 0 \<le> http_CompressMinBytes (cfg_HTTP c) \<and> 0 \<le> http_HSTSMaxAge (cfg_HTTP c)
     \<and> http_RequestTimeout (cfg_HTTP c) < http_WriteTimeout (cfg_HTTP c)
     \<and> 0 \<le> pg_MaxIdleConns (cfg_Postgres c) \<and> pg_MaxIdleConns (cfg_Postgres c) \<le> pg_MaxOpenConns (cfg_Postgres c)
     \<and> 0 < milliseconds (vkc_TTL (cfg_Valkey c)) \<and> 0 < milliseconds (vkc_NegTTL (cfg_Valkey c))
     \<and> 32 \<le> length (auth_JWTSecret (cfg_Auth c))
     \<and> distinct [(http_Host (cfg_HTTP c), http_Port (cfg_HTTP c)), (http_Host (cfg_HTTP c), http_InternalPort (cfg_HTTP c)),
          (grpc_Host (cfg_GRPC c), grpc_Port (cfg_GRPC c))]"
proof -
  have ms: "0 < milliseconds d \<longleftrightarrow> 1000000 \<le> d" for d
    by (auto simp: milliseconds_def)
  have rep: "first_repeat [] [a, b, d] = None \<longleftrightarrow> distinct [a, b, d]" for a b d by auto
  show ?thesis
    unfolding config_validate_def http_validate_def grpc_validate_def postgres_validate_def valkey_validate_def
      outbox_validate_def service_validate_def idempotency_validate_def validateListenAddresses_def rep
      errors_Join_None
    by (simp add: errors_Join_None ms validateResponseDeadline_def validateConnLimits_def auth_validate_def
        secret_Reveal_def minJWTSecretBytes_def http_Address_def http_InternalAddress_def grpc_Address_def
        JoinHostPort_inject not_le not_less conj_ac)
       (auto simp: linorder_not_less)
qed


text \<open>The defaults of \<open>config.go\<close>, with the required settings filled in.\<close>

definition default_config :: config where
  "default_config =
     \<lparr>cfg_HTTP = \<lparr>http_Host = '''', http_Port = 8080, http_InternalPort = 8081, http_ReadTimeout = 5000000000,
        http_WriteTimeout = 10000000000, http_IdleTimeout = 120000000000, http_RequestTimeout = 2000000000,
        http_MaxBodyBytes = 1048576, http_CompressMinBytes = 1024, http_CORSAllowedOrigins = [],
        http_CORSMaxAge = 600, http_HSTSEnabled = False, http_HSTSMaxAge = 31536000\<rparr>,
      cfg_GRPC = \<lparr>grpc_Host = '''', grpc_Port = 9090, grpc_RequestTimeout = 2000000000,
        grpc_MaxRequestBytes = 1048576, grpc_Reflection = False\<rparr>,
      cfg_Postgres = \<lparr>pg_Host = ''db'', pg_Port = 5432, pg_User = ''u'', pg_Password = ''p'', pg_Database = ''d'',
        pg_SSLMode = ''disable'', pg_MaxOpenConns = 25, pg_MaxIdleConns = 5, pg_ConnMaxLifetime = 1800000000000\<rparr>,
      cfg_Valkey = \<lparr>vkc_Host = ''cache'', vkc_Port = 6379, vkc_Password = ''p'', vkc_DB = 0,
        vkc_TTL = 300000000000, vkc_NegTTL = 60000000000\<rparr>,
      cfg_RabbitMQ = \<lparr>rmq_Host = ''mq'', rmq_Port = 5672, rmq_User = ''u'', rmq_Password = ''p''\<rparr>,
      cfg_Outbox = \<lparr>BatchSize = 25, PollInterval = 5000000000, PublishTimeout = 2000000000, MaxAttempts = 10\<rparr>,
      cfg_Service = \<lparr>svc_LoadTimeout = 1000000000\<rparr>,
      cfg_Idempotency = \<lparr>idem_TTL = 86400000000000, idem_PurgeInterval = 3600000000000\<rparr>,
      cfg_LogLevel = 0,
      cfg_Auth = \<lparr>auth_JWTSecret = ''0123456789abcdef0123456789abcdef''\<rparr>,
      cfg_ShutdownTimeout = 10000000000\<rparr>"

definition tuned_config :: "int \<Rightarrow> int \<Rightarrow> config" where
  "tuned_config ttl lt = default_config\<lparr>
     cfg_Valkey := (cfg_Valkey default_config)\<lparr>vkc_TTL := ttl, vkc_NegTTL := ttl\<rparr>,
     cfg_Service := \<lparr>svc_LoadTimeout = lt\<rparr>\<rparr>"

lemma load_accepts: "config_validate c = None \<Longrightarrow> config_Load (Inr c) = Inr c"
  by (simp add: config_Load_def load_checked_def)

lemma tuned_accepted:
  assumes "1000000 \<le> ttl" "0 < lt"
  shows "config_validate (tuned_config ttl lt) = None"
proof -
  have "validateListenAddresses (tuned_config ttl lt) = None"
    by (simp add: validateListenAddresses_def http_Address_def http_InternalAddress_def grpc_Address_def
        JoinHostPort_inject tuned_config_def default_config_def)
  then show ?thesis
    using assms
    by (simp add: config_validate_def errors_Join_None http_validate_def grpc_validate_def postgres_validate_def
        valkey_validate_def outbox_validate_def service_validate_def idempotency_validate_def auth_validate_def
        validateResponseDeadline_def validateConnLimits_def secret_Reveal_def minJWTSecretBytes_def)
      (simp add: tuned_config_def default_config_def)
qed

theorem config_accepted_iff_witness:
  "config_validate default_config = None"
  unfolding config_accepted_iff by (simp add: default_config_def milliseconds_def)

lemma positive_settings:
  "config_validate c = None \<Longrightarrow> 0 < PollInterval (cfg_Outbox c) \<and> 0 < milliseconds (vkc_TTL (cfg_Valkey c))"
  by (auto simp: config_validate_def errors_Join_None outbox_validate_def valkey_validate_def milliseconds_def)

text \<open>
  An accepted configuration cannot make a failing relay spin: with the poll interval it lets through (below
  the 146 years at which doubling would overflow), every pause the relay takes while draining
  fails lasts a positive time and at most thirty seconds.
\<close>

theorem accepted_relay_never_spins:
  assumes "config_Load parsed = Inr c" "PollInterval (cfg_Outbox c) < 2 ^ 62"
    and "\<forall>env\<in>set fails. drain_failed env"
  shows "\<forall>a\<in>set (fst (relay_Run (cfg_Outbox c) fails l)). \<forall>d. a = Pause d \<longrightarrow> 0 < d \<and> d \<le> 30 * 10 ^ 9"
proof -
  have "config_validate c = None"
    using assms(1) by (auto simp: config_Load_def load_checked_def split: sum.splits option.splits)
  then have p: "0 < PollInterval (cfg_Outbox c)" using positive_settings by blast
  have "0 < min (PollInterval (cfg_Outbox c) * 2 ^ Suc k) maxBackoff
      \<and> min (PollInterval (cfg_Outbox c) * 2 ^ Suc k) maxBackoff \<le> 30 * 10 ^ 9" for k
    using p by (simp add: maxBackoff_def)
  then show ?thesis
    unfolding relay_Run_def failing_loop [OF assms(3) p assms(2)] by auto
qed

theorem accepted_relay_never_spins_witness:
  "filter (\<lambda>a. case a of Pause d \<Rightarrow> d \<le> 0 \<or> 30 * 10 ^ 9 < d | _ \<Rightarrow> False)
     (fst (relay_Run (cfg_Outbox default_config)
       (replicate 3 (sample_env (0, False, Some ErrUnavailable) False))
       (NewListener \<lparr>checked_out = [], hijacked = [], next_conn = 0\<rparr> ''c''))) = []"
proof -
  have "cfg_Outbox (tuned_config 1000000 1) = cfg_Outbox default_config" by (simp add: tuned_config_def)
  moreover have "\<forall>env\<in>set (replicate 3 (sample_env (0, False, Some ErrUnavailable) False)). drain_failed env"
    by (simp add: drain_failed_def sample_env_def)
  moreover have "PollInterval (cfg_Outbox default_config) < 2 ^ 62" by (simp add: default_config_def)
  ultimately have "\<forall>a\<in>set (fst (relay_Run (cfg_Outbox default_config)
       (replicate 3 (sample_env (0, False, Some ErrUnavailable) False))
       (NewListener \<lparr>checked_out = [], hijacked = [], next_conn = 0\<rparr> ''c''))).
      \<forall>d. a = Pause d \<longrightarrow> 0 < d \<and> d \<le> 30 * 10 ^ 9"
    using accepted_relay_never_spins [OF load_accepts [OF tuned_accepted [of 1000000 1]],
        of "replicate 3 (sample_env (0, False, Some ErrUnavailable) False)"
          "NewListener \<lparr>checked_out = [], hijacked = [], next_conn = 0\<rparr> ''c''"] by simp
  then show ?thesis by (auto simp: filter_empty_conv split: relay_action.split)
qed

text \<open>
  C36: nothing relates the load timeout to the cache TTLs. There is a configuration the process accepts, a cache TTL
  of one second and a load timeout of five, and a run of the cache protocol under it, after which
  the cache answers an old product although the writer has committed and tombstoned the key.
\<close>

theorem accepted_config_restores_stale:
  "\<exists>c s e. config_Load (Inr c) = Inr c
     \<and> protocol_reach (NewCache (vkc_TTL (cfg_Valkey c)) (vkc_NegTTL (cfg_Valkey c))) ''k''
         (milliseconds (svc_LoadTimeout (cfg_Service c))) s
     \<and> cp_pending s = 0 \<and> cache_Get NoFault (cp_now s) ''k'' (cp_vk s) = Inr e \<and> en_Hit e
     \<and> cp_row s \<noteq> Some (en_Product e)"
proof -
  let ?c = "tuned_config 1000000000 5000000000"
  obtain s e where s: "protocol_reach (NewCache 1000000000 1000000000) ''k'' 5000 s" "cp_pending s = 0"
    "cache_Get NoFault (cp_now s) ''k'' (cp_vk s) = Inr e" "en_Hit e"
    "cp_row s = Some (sample_cached\<lparr>prod_Stock := 0\<rparr>)" "en_Product e = sample_cached"
    using short_ttl_restores_stale by blast
  have "config_Load (Inr ?c) = Inr ?c" by (intro load_accepts tuned_accepted) simp_all
  moreover have "cp_row s \<noteq> Some (en_Product e)" using s(5,6) by (simp add: sample_cached_def)
  moreover have "milliseconds (svc_LoadTimeout (cfg_Service ?c)) = 5000"
    "vkc_TTL (cfg_Valkey ?c) = 1000000000" "vkc_NegTTL (cfg_Valkey ?c) = 1000000000"
    by (simp_all add: milliseconds_def tuned_config_def)
  ultimately show ?thesis using s by (intro exI [of _ ?c] exI [of _ s] exI [of _ e]) simp
qed

end
