(* ===== verification/Migrations.thy ===== *)
theory Migrations
  imports Config
begin

text \<open>
  \<open>migrations/migrations.go\<close> and \<open>cmd/migrate/main.go\<close>: the checks and commands around the schema
  migrations. The migration library is a parameter: whether a locker and a provider can be made of
  the embedded files, and what its operations do to a database of any type. The tables themselves are
  in \<open>Database\<close>. What the command prints is a list of records; the alignment of the status table is
  \<open>text/tabwriter\<close>'s, whose \<open>Flush\<close> is a parameter.
\<close>

section \<open>Migrations (migrations.go)\<close>

record migration_result =
  mr_Version :: int
  mr_Direction :: string
  mr_Duration :: int

text \<open>\<open>ms_AppliedAt\<close>: the time of application as RFC 3339 text in UTC, none for the zero time.\<close>

record migration_status =
  ms_Version :: int
  ms_State :: string
  ms_AppliedAt :: "string option"
  ms_Path :: string

record 'd goose =
  gz_locker :: "go_error option"
  gz_provider :: "bool \<Rightarrow> go_error option"
  gz_Up :: "'d \<Rightarrow> (go_error + migration_result list) \<times> 'd"
  gz_Down :: "'d \<Rightarrow> (go_error + migration_result) \<times> 'd"
  gz_Status :: "'d \<Rightarrow> go_error + migration_status list"
  gz_HasPending :: "'d \<Rightarrow> go_error + bool"

text \<open>A provider with or without the session locker: the error of making it.\<close>

definition newProvider :: "'d goose \<Rightarrow> bool \<Rightarrow> go_error option" where
  "newProvider g locking = gz_provider g locking"

definition newLockingProvider :: "'d goose \<Rightarrow> go_error option" where
  "newLockingProvider g =
     (case gz_locker g of
        Some err \<Rightarrow> Some (errorf_w ''create session locker: '' err)
      | None \<Rightarrow> newProvider g True)"

definition migrations_Up :: "'d goose \<Rightarrow> 'd \<Rightarrow> (go_error + migration_result list) \<times> 'd" where
  "migrations_Up g db =
     (case newLockingProvider g of
        Some err \<Rightarrow> (Inl err, db)
      | None \<Rightarrow>
          (case gz_Up g db of
             (Inl err, db1) \<Rightarrow> (Inl (errorf_w ''apply migrations: '' err), db1)
           | (Inr results, db1) \<Rightarrow> (Inr results, db1)))"

definition migrations_Down :: "'d goose \<Rightarrow> 'd \<Rightarrow> (go_error + migration_result) \<times> 'd" where
  "migrations_Down g db =
     (case newLockingProvider g of
        Some err \<Rightarrow> (Inl err, db)
      | None \<Rightarrow>
          (case gz_Down g db of
             (Inl err, db1) \<Rightarrow> (Inl (errorf_w ''roll back migration: '' err), db1)
           | (Inr result, db1) \<Rightarrow> (Inr result, db1)))"

definition migrations_Status :: "'d goose \<Rightarrow> 'd \<Rightarrow> go_error + migration_status list" where
  "migrations_Status g db = (case newProvider g False of Some err \<Rightarrow> Inl err | None \<Rightarrow> gz_Status g db)"

record connect_env =
  ce_parse :: "go_error option"
  ce_ping :: "go_error option"

definition migrations_Verify :: "'d goose \<Rightarrow> connect_env \<Rightarrow> 'd \<Rightarrow> go_error option" where
  "migrations_Verify g env db =
     (case ce_parse env of
        Some err \<Rightarrow> Some (errorf_w ''parse pg config: '' err)
      | None \<Rightarrow>
          (case ce_ping env of
             Some err \<Rightarrow> Some (errorf_w ''ping db: '' err)
           | None \<Rightarrow>
               (case newProvider g False of
                  Some err \<Rightarrow> Some err
                | None \<Rightarrow>
                    (case gz_HasPending g db of
                       Inl err \<Rightarrow> Some (errorf_w ''check pending migrations: '' err)
                     | Inr pending \<Rightarrow> if pending then Some (ErrText ''schema outdated: run migrations'') else None))))"

section \<open>The migrate command (cmd/migrate/main.go)\<close>

definition validCommands :: "string list" where
  "validCommands = [''up'', ''status'', ''down'']"

definition parseCommand :: "string list \<Rightarrow> go_error + string" where
  "parseCommand args =
     (case args of
        [_, cmd] \<Rightarrow> if cmd \<in> set validCommands then Inr cmd else Inl (ErrQuoted ''unknown command '' cmd)
      | _ \<Rightarrow> Inl (ErrText ''expected exactly one command''))"

definition openDB :: "connect_env \<Rightarrow> go_error option" where
  "openDB env =
     (case ce_parse env of
        Some err \<Rightarrow> Some (errorf_w ''parse pg config: '' err)
      | None \<Rightarrow> (case ce_ping env of Some err \<Rightarrow> Some (errorf_w ''ping postgres: '' err) | None \<Rightarrow> None))"

text \<open>What the command writes: log lines to standard error, the usage text, and the status table to standard output.\<close>

datatype migrate_line =
    Running string
  | RanMigration int string int
  | MigrationsApplied
  | MigrationRolledBack
  | StatusTable string
  | InvalidArguments go_error
  | Usage string
  | CommandFailed go_error

definition migrate_usage :: string where
  "migrate_usage =
     ''usage: migrate <up|status|down>'' @ [CHR 0x0A, CHR 0x0A] @
     ''  up      apply all pending migrations'' @ [CHR 0x0A] @
     ''  status  show applied and pending migrations'' @ [CHR 0x0A] @
     ''  down    roll back the most recent migration (local dev only)'' @ [CHR 0x0A]"

definition logMigrations :: "migration_result list \<Rightarrow> migrate_line list" where
  "logMigrations results = map (\<lambda>r. RanMigration (mr_Version r) (mr_Direction r) (mr_Duration r)) results"

text \<open>The cells of a line are separated by tabs; a migration not applied shows an em dash, in UTF-8.\<close>

definition em_dash :: string where
  "em_dash = [CHR 0xE2, CHR 0x80, CHR 0x94]"

definition status_line :: "migration_status \<Rightarrow> string" where
  "status_line r =
     (let applied = (case ms_AppliedAt r of None \<Rightarrow> em_dash | Some t \<Rightarrow> t) in
      itoa (ms_Version r) @ [CHR 0x09] @ ms_State r @ [CHR 0x09] @ applied @ [CHR 0x09] @ ms_Path r @ [CHR 0x0A])"

definition status_header :: string where
  "status_header = ''VERSION'' @ [CHR 0x09] @ ''STATE'' @ [CHR 0x09] @ ''APPLIED AT'' @ [CHR 0x09] @ ''SOURCE'' @ [CHR 0x0A]"

definition printStatus ::
  "(string \<Rightarrow> go_error option) \<Rightarrow> migration_status list \<Rightarrow> go_error option \<times> migrate_line list" where
  "printStatus tw_Flush rows =
     (let written = status_header @ concat (map status_line rows) in
      (tw_Flush written, [StatusTable written]))"

definition execCommand ::
  "'d goose \<Rightarrow> (string \<Rightarrow> go_error option) \<Rightarrow> string \<Rightarrow> 'd \<Rightarrow> go_error option \<times> migrate_line list \<times> 'd" where
  "execCommand g tw_Flush cmd db =
     (if cmd = ''up'' then
        (case migrations_Up g db of
           (Inl err, db1) \<Rightarrow> (Some err, [], db1)
         | (Inr results, db1) \<Rightarrow> (None, logMigrations results @ [MigrationsApplied], db1))
      else if cmd = ''status'' then
        (case migrations_Status g db of
           Inl err \<Rightarrow> (Some err, [], db)
         | Inr rows \<Rightarrow> (case printStatus tw_Flush rows of (err, out) \<Rightarrow> (err, out, db)))
      else if cmd = ''down'' then
        (case migrations_Down g db of
           (Inl err, db1) \<Rightarrow> (Some err, [], db1)
         | (Inr result, db1) \<Rightarrow> (None, logMigrations [result] @ [MigrationRolledBack], db1))
      else (Some (ErrText (''unknown command: '' @ cmd)), [], db))"

definition migrate_run ::
  "'d goose \<Rightarrow> (string \<Rightarrow> go_error option) \<Rightarrow> go_error + postgres_config \<Rightarrow> connect_env \<Rightarrow> string \<Rightarrow> 'd
    \<Rightarrow> go_error option \<times> migrate_line list \<times> 'd" where
  "migrate_run g tw_Flush parsed env cmd db =
     (case LoadPostgres parsed of
        Inl err \<Rightarrow> (Some (errorf_w ''load postgres config: '' err), [], db)
      | Inr pgCfg \<Rightarrow>
          (case openDB env of
             Some err \<Rightarrow> (Some err, [], db)
           | None \<Rightarrow> (case execCommand g tw_Flush cmd db of (err, out, db1) \<Rightarrow> (err, Running cmd # out, db1))))"

text \<open>The exit code and everything written.\<close>

definition migrate_main ::
  "'d goose \<Rightarrow> (string \<Rightarrow> go_error option) \<Rightarrow> go_error + postgres_config \<Rightarrow> connect_env \<Rightarrow> string list \<Rightarrow> 'd
    \<Rightarrow> nat \<times> migrate_line list \<times> 'd" where
  "migrate_main g tw_Flush parsed env args db =
     (case parseCommand args of
        Inl err \<Rightarrow> (2, [InvalidArguments err, Usage migrate_usage], db)
      | Inr cmd \<Rightarrow>
          (case migrate_run g tw_Flush parsed env cmd db of
             (Some err, out, db1) \<Rightarrow> (1, out @ [CommandFailed err], db1)
           | (None, out, db1) \<Rightarrow> (0, out, db1)))"

section \<open>Migrating, then starting\<close>

lemma migrations_Verify_None_iff:
  "migrations_Verify g env db = None \<longleftrightarrow>
     ce_parse env = None \<and> ce_ping env = None \<and> gz_provider g False = None \<and> gz_HasPending g db = Inr False"
  by (auto simp: migrations_Verify_def newProvider_def split: option.split sum.split)

lemma migrate_main_0:
  assumes "migrate_main g tw parsed env args db = (0, out, db')"
  obtains prog cmd where "args = [prog, cmd]" "cmd \<in> {''up'', ''status'', ''down''}"
    "cmd = ''up'' \<Longrightarrow> \<exists>vs. gz_Up g db = (Inr vs, db') \<and> out = [Running ''up''] @ logMigrations vs @ [MigrationsApplied]"
    "cmd = ''status'' \<Longrightarrow> db' = db"
proof -
  obtain cmd where cmd: "parseCommand args = Inr cmd" "migrate_run g tw parsed env cmd db = (None, out, db')"
    using assms by (auto simp: migrate_main_def split: sum.splits prod.splits option.splits)
  then obtain prog where "args = [prog, cmd]" "cmd \<in> {''up'', ''status'', ''down''}"
    by (auto simp: parseCommand_def validCommands_def split: list.splits if_splits)
  moreover obtain rest where "execCommand g tw cmd db = (None, rest, db')" "out = Running cmd # rest"
    using cmd(2) by (auto simp: migrate_run_def split: sum.splits option.splits prod.splits)
  ultimately show thesis
    by (intro that [of prog cmd])
      (auto simp: execCommand_def migrations_Up_def printStatus_def split: sum.splits prod.splits option.splits)
qed

text \<open>
  The command and the service agree on the schema. When the migration library keeps its word,
  that after a successful \<open>Up\<close> nothing is pending, then once \<open>migrate up\<close> has exited with 0 the
  service's check accepts the schema on any working connection; while the check refuses every
  database with a pending migration; and \<open>migrate status\<close>, and a call the command refuses,
  leave the database as it was. A failure is reported last, and a refused call prints the usage.
\<close>

lemma migrate_then_verify:
  assumes goose_up: "\<forall>d vs d'. gz_Up g d = (Inr vs, d') \<longrightarrow> gz_HasPending g d' = Inr False"
    and run: "migrate_main g tw parsed env args db = (code, out, db')"
  shows "(code = 0 \<and> args = [prog, ''up''] \<and> ce_parse env' = None \<and> ce_ping env' = None \<and> gz_provider g False = None
      \<longrightarrow> migrations_Verify g env' db' = None)
    \<and> (gz_HasPending g db' = Inr True \<longrightarrow> migrations_Verify g env' db' \<noteq> None)
    \<and> (code = 2 \<or> args = [prog, ''status''] \<longrightarrow> db' = db)
    \<and> (code = 2 \<longrightarrow> Usage migrate_usage \<in> set out) \<and> (code = 1 \<longrightarrow> (\<exists>err. last out = CommandFailed err))"
proof (intro conjI impI)
  show "migrations_Verify g env' db' = None"
    if "code = 0 \<and> args = [prog, ''up''] \<and> ce_parse env' = None \<and> ce_ping env' = None \<and> gz_provider g False = None"
  proof -
    have "migrate_main g tw parsed env args db = (0, out, db')" using run that by simp
    then show ?thesis using that goose_up by (cases rule: migrate_main_0) (auto simp: migrations_Verify_None_iff)
  qed
  show "migrations_Verify g env' db' \<noteq> None" if "gz_HasPending g db' = Inr True" using that by (simp add: migrations_Verify_None_iff)
  show "Usage migrate_usage \<in> set out" if "code = 2"
    using that run by (auto simp: migrate_main_def split: sum.splits prod.splits option.splits)
  show "\<exists>err. last out = CommandFailed err" if "code = 1"
    using that run by (auto simp: migrate_main_def split: sum.splits prod.splits option.splits)
  show "db' = db" if "code = 2 \<or> args = [prog, ''status'']"
    using that run
    by (auto simp: migrate_main_def migrate_run_def execCommand_def parseCommand_def validCommands_def printStatus_def
        split: sum.splits prod.splits option.splits list.splits if_splits)
qed

end
