(* ===== verification/App.thy ===== *)
theory App
  imports Servers Migrations Janitor Http
begin

text \<open>
  \<open>cmd/storefront/main.go\<close>: the start of the process, its
  five runners in one error group, and the end. The relay and the janitor answer nil, and only when
  their context is done; the servers run as in \<open>Servers\<close>. Everything a library answers while the
  process starts is its \<open>app_env\<close>.
\<close>

section \<open>The runners (run, from errgroup.WithContext on)\<close>

record app_group =
  ag_signal :: bool
  ag_group :: group
  ag_api :: http_server
  ag_internal :: http_server
  ag_grpc :: grpc_server

datatype app_event =
    Signal
  | ApiEv http_event
  | InternalEv http_event
  | GrpcEv grpc_event
  | RelayReturns
  | JanitorReturns

definition app_start :: app_group where
  "app_start = \<lparr>ag_signal = False, ag_group = group_Go 5, ag_api = http_start, ag_internal = http_start,
     ag_grpc = grpc_start\<rparr>"

definition app_done :: "app_group \<Rightarrow> bool" where
  "app_done s = group_Done (ag_signal s) (ag_group s)"

definition app_report :: "nat \<Rightarrow> go_error option option \<Rightarrow> app_group \<Rightarrow> app_group" where
  "app_report i res s =
     (case res of None \<Rightarrow> s | Some r \<Rightarrow> s\<lparr>ag_group := group_Return i r (ag_group s)\<rparr>)"

fun app_step :: "config \<Rightarrow> app_event \<Rightarrow> app_group \<Rightarrow> app_group option" where
  "app_step cfg Signal s = Some (s\<lparr>ag_signal := True\<rparr>)"
| "app_step cfg (ApiEv e) s =
     (case http_Run (http_Address (cfg_HTTP cfg)) (app_done s) e (ag_api s) of
        None \<Rightarrow> None | Some a \<Rightarrow> Some (app_report 0 (http_result a) (s\<lparr>ag_api := a\<rparr>)))"
| "app_step cfg (InternalEv e) s =
     (case http_Run (http_InternalAddress (cfg_HTTP cfg)) (app_done s) e (ag_internal s) of
        None \<Rightarrow> None | Some a \<Rightarrow> Some (app_report 1 (http_result a) (s\<lparr>ag_internal := a\<rparr>)))"
| "app_step cfg (GrpcEv e) s =
     (case grpc_Run (app_done s) e (ag_grpc s) of
        None \<Rightarrow> None | Some g \<Rightarrow> Some (app_report 2 (grpc_result g) (s\<lparr>ag_grpc := g\<rparr>)))"
| "app_step cfg RelayReturns s =
     (if 3 \<in> set (eg_left (ag_group s)) \<and> app_done s then Some (app_report 3 (Some None) s) else None)"
| "app_step cfg JanitorReturns s =
     (if 4 \<in> set (eg_left (ag_group s)) \<and> app_done s then Some (app_report 4 (Some None) s) else None)"

fun app_events :: "config \<Rightarrow> app_event list \<Rightarrow> app_group \<Rightarrow> app_group option" where
  "app_events cfg [] s = Some s"
| "app_events cfg (e # es) s = (case app_step cfg e s of None \<Rightarrow> None | Some s' \<Rightarrow> app_events cfg es s')"

lemma relay_returns_cancelled:
  "fst (snd (relay_Run cfg envs l)) \<Longrightarrow> \<exists>env\<in>set envs. re_ctx_drain env \<or> re_ctx_await env \<or> re_pause_cut env"
proof -
  have round: "re_ctx_drain env \<or> re_ctx_await env \<or> re_pause_cut env"
    if "relay_round cfg bo env l = (acts, None, l1)" for bo env l acts l1
    using that by (auto simp: relay_round_def relay_wait_def relay_pause_def Let_def split: prod.splits if_splits)
  have "fst (snd (relay_loop cfg bo envs l)) \<Longrightarrow> \<exists>env\<in>set envs. re_ctx_drain env \<or> re_ctx_await env \<or> re_pause_cut env" for bo
  proof (induction envs arbitrary: bo l)
    case (Cons env envs)
    obtain acts nb l1 where r: "relay_round cfg bo env l = (acts, nb, l1)" by (metis prod.exhaust)
    show ?case
    proof (cases nb)
      case None
      then show ?thesis using round r by auto
    next
      case (Some bo')
      then show ?thesis using Cons.IH [of bo' l1] Cons.prems r by (auto split: prod.splits)
    qed
  qed simp
  then show "fst (snd (relay_Run cfg envs l)) \<Longrightarrow> ?thesis" by (simp add: relay_Run_def)
qed

lemma janitor_returns_cancelled:
  "fst (janitor_Run envs db) \<Longrightarrow> \<exists>env\<in>set envs. je_done env \<or> je_ctx env"
  unfolding janitor_Run_def by (induction envs arbitrary: db) (auto split: prod.splits sum.splits if_splits)

section \<open>The group ends, and why\<close>

definition app_inv :: "app_group \<Rightarrow> bool" where
  "app_inv s \<longleftrightarrow>
     distinct (eg_left (ag_group s)) \<and> set (eg_left (ag_group s)) \<subseteq> {0..<5}
     \<and> http_inv (app_done s) (ag_api s) \<and> http_inv (app_done s) (ag_internal s) \<and> grpc_inv (app_done s) (ag_grpc s)
     \<and> (0 \<in> set (eg_left (ag_group s)) \<longleftrightarrow> http_result (ag_api s) = None)
     \<and> (1 \<in> set (eg_left (ag_group s)) \<longleftrightarrow> http_result (ag_internal s) = None)
     \<and> (2 \<in> set (eg_left (ag_group s)) \<longleftrightarrow> grpc_result (ag_grpc s) = None)
     \<and> (set (eg_left (ag_group s)) \<noteq> {0..<5} \<longrightarrow> app_done s)"

lemma app_report_sel [simp]:
  "ag_signal (app_report i res s) = ag_signal s" "ag_api (app_report i res s) = ag_api s"
  "ag_internal (app_report i res s) = ag_internal s" "ag_grpc (app_report i res s) = ag_grpc s"
  "ag_group (app_report i res s) = (case res of None \<Rightarrow> ag_group s | Some r \<Rightarrow> group_Return i r (ag_group s))"
  by (simp_all add: app_report_def split: option.split)

lemma app_done_upd [simp]:
  "app_done (s\<lparr>ag_api := a\<rparr>) = app_done s" "app_done (s\<lparr>ag_internal := a\<rparr>) = app_done s" "app_done (s\<lparr>ag_grpc := g\<rparr>) = app_done s"
  by (simp_all add: app_done_def)

lemma app_done_report: "app_done s \<Longrightarrow> app_done (app_report i res s)"
  "app_done (app_report i res s) \<longleftrightarrow> app_done s \<or> (\<exists>e. res = Some (Some e))"
  by (auto simp: app_done_def group_Done_def split: option.splits)

lemma app_inv_start: "app_inv app_start"
  by (simp add: app_inv_def app_start_def httpr.inv_any [OF httpr.inv_start] grpcr.inv_any [OF grpcr.inv_start]
      httpr.running_start grpcr.running_start)

lemma app_inv_done: "app_inv s \<Longrightarrow> app_inv (s\<lparr>ag_signal := True\<rparr>)"
  unfolding app_inv_def
  by (auto simp: app_done_def group_Done_def intro: httpr.inv_ctx grpcr.inv_ctx)

text \<open>A member that returns: what stays true of the others.\<close>

lemma app_inv_returned:
  assumes "app_inv s" "i \<in> set (eg_left (ag_group s))" "i \<in> {3, 4}" "app_done s"
  shows "app_inv (app_report i (Some None) s)"
proof -
  have "app_done (app_report i (Some None) s)" using assms(4) by (rule app_done_report)
  then show ?thesis using assms by (auto simp: app_inv_def)
qed

lemma app_done_after:
  assumes "s' = app_report i res t" "res = Some None \<Longrightarrow> app_done s" "app_done t = app_done s"
  shows "res \<noteq> None \<Longrightarrow> app_done s'" "res = None \<Longrightarrow> app_done s' = app_done s"
  using assms by (auto simp: app_done_report(2))

lemma app_inv_step:
  assumes inv: "app_inv s" and step: "app_step cfg e s = Some s'"
  shows "app_inv s'"
proof (cases e)
  case Signal
  then show ?thesis using step app_inv_done [OF inv] by simp
next
  case (ApiEv x)
  then obtain a where a: "http_Run (http_Address (cfg_HTTP cfg)) (app_done s) x (ag_api s) = Some a"
    and s': "s' = app_report 0 (http_result a) (s\<lparr>ag_api := a\<rparr>)"
    using step by (auto split: option.splits)
  have "http_inv (app_done s) (ag_api s)" using inv by (simp add: app_inv_def)
  note k = httpr.step_keeps [OF this a]
  then show ?thesis
    using inv app_done_after [OF s' k(3) app_done_upd(1)] unfolding s'
    by (cases "http_result a") (auto simp: app_inv_def intro: httpr.inv_ctx grpcr.inv_ctx)
next
  case (InternalEv x)
  then obtain a where a: "http_Run (http_InternalAddress (cfg_HTTP cfg)) (app_done s) x (ag_internal s) = Some a"
    and s': "s' = app_report 1 (http_result a) (s\<lparr>ag_internal := a\<rparr>)"
    using step by (auto split: option.splits)
  have "http_inv (app_done s) (ag_internal s)" using inv by (simp add: app_inv_def)
  note k = httpr.step_keeps [OF this a]
  then show ?thesis
    using inv app_done_after [OF s' k(3) app_done_upd(2)] unfolding s'
    by (cases "http_result a") (auto simp: app_inv_def intro: httpr.inv_ctx grpcr.inv_ctx)
next
  case (GrpcEv x)
  then obtain g where g: "grpc_Run (app_done s) x (ag_grpc s) = Some g"
    and s': "s' = app_report 2 (grpc_result g) (s\<lparr>ag_grpc := g\<rparr>)"
    using step by (auto split: option.splits)
  have "grpc_inv (app_done s) (ag_grpc s)" using inv by (simp add: app_inv_def)
  note k = grpcr.step_keeps [OF this g]
  then show ?thesis
    using inv app_done_after [OF s' k(3) app_done_upd(3)] unfolding s'
    by (cases "grpc_result g") (auto simp: app_inv_def intro: httpr.inv_ctx grpcr.inv_ctx)
qed (insert app_inv_returned [OF inv] step, auto split: if_splits)

lemma app_inv_events: "app_events cfg evs s = Some s' \<Longrightarrow> app_inv s \<Longrightarrow> app_inv s'"
  by (induction evs arbitrary: s) (auto split: option.splits dest: app_inv_step)

text \<open>Every event but another signal brings the end nearer.\<close>

definition app_left :: "app_group \<Rightarrow> nat" where
  "app_left s = http_left (ag_api s) + http_left (ag_internal s) + grpc_left (ag_grpc s) + length (eg_left (ag_group s))"

lemma app_left_start: "app_left app_start = 16"
  by (simp add: app_left_def app_start_def http_left_def grpc_left_def http_start_def grpc_start_def)

lemma report_left_le: "length (eg_left (ag_group (app_report i res s))) \<le> length (eg_left (ag_group s))"
  by (auto simp: length_remove1 split: option.split)

lemma app_step_shrinks:
  assumes "app_step cfg e s = Some s'" "e \<noteq> Signal"
  shows "app_left s' < app_left s"
proof (cases e)
  case (ApiEv x)
  then obtain a where a: "http_Run (http_Address (cfg_HTTP cfg)) (app_done s) x (ag_api s) = Some a"
    and "s' = app_report 0 (http_result a) (s\<lparr>ag_api := a\<rparr>)"
    using assms by (auto split: option.splits)
  then show ?thesis using httpr.shrinks [OF a] report_left_le [of 0 "http_result a" "s\<lparr>ag_api := a\<rparr>"] by (simp add: app_left_def)
next
  case (InternalEv x)
  then obtain a where a: "http_Run (http_InternalAddress (cfg_HTTP cfg)) (app_done s) x (ag_internal s) = Some a"
    and "s' = app_report 1 (http_result a) (s\<lparr>ag_internal := a\<rparr>)"
    using assms by (auto split: option.splits)
  then show ?thesis using httpr.shrinks [OF a] report_left_le [of 1 "http_result a" "s\<lparr>ag_internal := a\<rparr>"] by (simp add: app_left_def)
next
  case (GrpcEv x)
  then obtain g where g: "grpc_Run (app_done s) x (ag_grpc s) = Some g"
    and "s' = app_report 2 (grpc_result g) (s\<lparr>ag_grpc := g\<rparr>)"
    using assms by (auto split: option.splits)
  then show ?thesis using grpcr.shrinks [OF g] report_left_le [of 2 "grpc_result g" "s\<lparr>ag_grpc := g\<rparr>"] by (simp add: app_left_def)
next
  case RelayReturns
  then show ?thesis
    using assms length_remove1_less [of 3 "eg_left (ag_group s)"] by (auto simp: app_left_def split: if_splits)
next
  case JanitorReturns
  then show ?thesis
    using assms length_remove1_less [of 4 "eg_left (ag_group s)"] by (auto simp: app_left_def split: if_splits)
qed (use assms in simp)

lemma app_events_bounded:
  "app_events cfg evs s = Some s' \<Longrightarrow> Signal \<notin> set evs \<Longrightarrow> length evs + app_left s' \<le> app_left s"
proof (induction evs arbitrary: s)
  case (Cons e evs)
  then obtain t where t: "app_step cfg e s = Some t" "app_events cfg evs t = Some s'" by (auto split: option.splits)
  then show ?case using Cons app_step_shrinks [OF t(1)] by fastforce
qed simp

lemma app_events_left: "app_events cfg evs t = Some s \<Longrightarrow> app_left s \<le> app_left t"
proof (induction evs arbitrary: t)
  case (Cons e evs)
  then obtain u where u: "app_step cfg e t = Some u" "app_events cfg evs u = Some s" by (auto split: option.splits)
  have "app_left u \<le> app_left t"
    using app_step_shrinks [OF u(1)] u(1) by (cases "e = Signal") (auto simp: app_left_def)
  then show ?case using Cons.IH [OF u(2)] by simp
qed simp

lemma app_events_signal:
  "app_events cfg evs t = Some s \<Longrightarrow> \<not> ag_signal t \<Longrightarrow> ag_signal s \<Longrightarrow> Signal \<in> set evs"
proof (induction evs arbitrary: t)
  case (Cons e evs)
  then obtain u where u: "app_step cfg e t = Some u" "app_events cfg evs u = Some s" by (auto split: option.splits)
  have "ag_signal u = ag_signal t" if "e \<noteq> Signal" using u(1) that by (cases e) (auto split: option.splits if_splits)
  then show ?case using Cons u(2) by (cases "e = Signal") auto
qed simp

lemma signal_before_nil:
  assumes run: "app_events cfg evs app_start = Some s" and nil: "group_Wait (ag_group s) = Some None"
  shows "Signal \<in> set evs"
proof -
  have "app_done s" "eg_err (ag_group s) = None"
    using app_inv_events [OF run app_inv_start] nil by (auto simp: app_inv_def)
  then have "ag_signal s" by (simp add: app_done_def group_Done_def)
  then show ?thesis using app_events_signal [OF run] by (simp add: app_start_def)
qed

text \<open>While someone still runs and the context is done, something happens that waits for no client.\<close>

fun app_sure :: "app_event \<Rightarrow> bool" where
  "app_sure Signal = False"
| "app_sure (ApiEv e) = http_sure e"
| "app_sure (InternalEv e) = http_sure e"
| "app_sure (GrpcEv e) = grpc_sure e"
| "app_sure RelayReturns = True"
| "app_sure JanitorReturns = True"

text \<open>The end is due: the shared context is done, or a goroutine of a server has failed.\<close>

definition app_ending :: "app_group \<Rightarrow> bool" where
  "app_ending s \<longleftrightarrow> app_done s \<or> http_failed (ag_api s) \<or> http_failed (ag_internal s) \<or> grpc_failed (ag_grpc s)"

lemma member_live:
  assumes inv: "app_inv s" and i: "i \<in> set (eg_left (ag_group s))"
    and due: "app_done s \<or> i = 0 \<and> http_failed (ag_api s) \<or> i = 1 \<and> http_failed (ag_internal s) \<or> i = 2 \<and> grpc_failed (ag_grpc s)"
  shows "\<exists>e s'. app_sure e \<and> app_step cfg e s = Some s'"
proof -
  have "set (eg_left (ag_group s)) \<subseteq> {0..<5}" using inv unfolding app_inv_def by blast
  then have "i < 5" using i by auto
  then consider "i = 0" | "i = 1" | "i = 2" | "i = 3" | "i = 4" by linarith
  then show ?thesis
  proof cases
    case 1
    then have "http_inv (app_done s) (ag_api s)" "http_result (ag_api s) = None" "app_done s \<or> http_failed (ag_api s)"
      using inv due i by (auto simp: app_inv_def)
    from httpr.live [OF this, of "http_Address (cfg_HTTP cfg)"] obtain e a
      where "http_sure e" "http_Run (http_Address (cfg_HTTP cfg)) (app_done s) e (ag_api s) = Some a" by blast
    then show ?thesis by (intro exI [of _ "ApiEv e"]) simp
  next
    case 2
    then have "http_inv (app_done s) (ag_internal s)" "http_result (ag_internal s) = None"
      "app_done s \<or> http_failed (ag_internal s)"
      using inv due i by (auto simp: app_inv_def)
    from httpr.live [OF this, of "http_InternalAddress (cfg_HTTP cfg)"] obtain e a
      where "http_sure e" "http_Run (http_InternalAddress (cfg_HTTP cfg)) (app_done s) e (ag_internal s) = Some a" by blast
    then show ?thesis by (intro exI [of _ "InternalEv e"]) simp
  next
    case 3
    then have "grpc_inv (app_done s) (ag_grpc s)" "grpc_result (ag_grpc s) = None" "app_done s \<or> grpc_failed (ag_grpc s)"
      using inv due i by (auto simp: app_inv_def)
    from grpcr.live [OF this] obtain e g where "grpc_sure e" "grpc_Run (app_done s) e (ag_grpc s) = Some g" by blast
    then show ?thesis by (intro exI [of _ "GrpcEv e"]) simp
  next
    case 4
    then show ?thesis using due i by (intro exI [of _ RelayReturns]) simp
  next
    case 5
    then show ?thesis using due i by (intro exI [of _ JanitorReturns]) simp
  qed
qed

lemma app_live:
  assumes inv: "app_inv s" and due: "app_ending s" and left: "eg_left (ag_group s) \<noteq> []"
  shows "\<exists>e s'. app_sure e \<and> app_step cfg e s = Some s'"
proof (cases "app_done s")
  case True
  then show ?thesis using member_live [OF inv, of "hd (eg_left (ag_group s))"] left by simp
next
  case False
  then have all: "set (eg_left (ag_group s)) = {0..<5}" using inv unfolding app_inv_def by blast
  consider "http_failed (ag_api s)" | "http_failed (ag_internal s)" | "grpc_failed (ag_grpc s)"
    using due False by (auto simp: app_ending_def)
  moreover have "0 \<in> set (eg_left (ag_group s))" "1 \<in> set (eg_left (ag_group s))" "2 \<in> set (eg_left (ag_group s))"
    unfolding all by simp_all
  note this [THEN member_live [OF inv]]
  ultimately show ?thesis by cases blast+
qed

lemma app_ending_step:
  assumes "app_ending s" "app_step cfg e s = Some s'"
  shows "app_ending s'"
proof -
  have "app_done s'" if "app_done s"
    using assms(2) that
    by (cases e) (auto split: option.splits if_splits intro: app_done_report(1), auto simp: app_done_def group_Done_def)
  moreover have "http_failed (ag_api s')" if "http_failed (ag_api s)"
    using assms(2) that httpr.failed_stays [OF that] by (cases e) (auto split: option.splits if_splits)
  moreover have "http_failed (ag_internal s')" if "http_failed (ag_internal s)"
    using assms(2) that httpr.failed_stays [OF that] by (cases e) (auto split: option.splits if_splits)
  moreover have "grpc_failed (ag_grpc s')" if "grpc_failed (ag_grpc s)"
    using assms(2) that grpcr.failed_stays [OF that] by (cases e) (auto split: option.splits if_splits)
  ultimately show ?thesis using assms(1) by (auto simp: app_ending_def)
qed

lemma app_finishes:
  assumes "app_inv s" "app_ending s"
  shows "\<exists>evs s'. list_all app_sure evs \<and> app_events cfg evs s = Some s' \<and> eg_left (ag_group s') = []"
  using assms
proof (induction "app_left s" arbitrary: s rule: less_induct)
  case less
  show ?case
  proof (cases "eg_left (ag_group s) = []")
    case True
    then show ?thesis by (intro exI [of _ "[]"]) simp
  next
    case False
    then obtain e t where t: "app_sure e" "app_step cfg e s = Some t" using app_live [OF less.prems] by blast
    then have "e \<noteq> Signal" by auto
    then obtain evs s' where "list_all app_sure evs" "app_events cfg evs t = Some s'" "eg_left (ag_group s') = []"
      using less.hyps [OF app_step_shrinks [OF t(2)]] app_inv_step [OF less.prems(1) t(2)] app_ending_step [OF less.prems(2) t(2)]
      by blast
    then show ?thesis using t by (intro exI [of _ "e # evs"]) simp
  qed
qed

text \<open>
  C27: the process stops when it must, and only then. From any state of the five runners in which a
  signal has come, a runner has failed, or a server's listening or stopping has, the group can always
  run to its end, even if no client lets go of its connection, and no sequence of its events is longer
  than 16. When
  it has ended without error a signal had come, and however it ended both HTTP servers were shut
  down and the gRPC server was stopped, or never listened.
\<close>

theorem process_stops:
  assumes run: "app_events cfg evs app_start = Some s"
  shows "(app_done s \<or> http_failed (ag_api s) \<or> http_failed (ag_internal s) \<or> grpc_failed (ag_grpc s) \<longrightarrow>
      (\<exists>evs' s'. list_all app_sure evs' \<and> app_events cfg evs' s = Some s' \<and> group_Wait (ag_group s') \<noteq> None))
    \<and> (Signal \<notin> set evs' \<and> app_events cfg evs' s = Some s' \<longrightarrow> length evs' \<le> 16)
    \<and> (group_Wait (ag_group s) = Some r \<longrightarrow>
        (r = None \<longrightarrow> Signal \<in> set evs) \<and> hs_shutdown (ag_api s) \<and> hs_shutdown (ag_internal s)
        \<and> (gs_stopping (ag_grpc s) \<or> (\<exists>e. gs_phase (ag_grpc s) = ListenFailed e)))"
proof (intro conjI impI)
  have inv: "app_inv s" using app_inv_events [OF run app_inv_start] .
  show "\<exists>evs' s'. list_all app_sure evs' \<and> app_events cfg evs' s = Some s' \<and> group_Wait (ag_group s') \<noteq> None"
    if "app_done s \<or> http_failed (ag_api s) \<or> http_failed (ag_internal s) \<or> grpc_failed (ag_grpc s)"
    using app_finishes [OF inv, of cfg] that by (auto simp: app_ending_def)
  have le: "app_left s \<le> 16" using app_events_left [OF run] app_left_start by simp
  show "length evs' \<le> 16" if "Signal \<notin> set evs' \<and> app_events cfg evs' s = Some s'"
    using app_events_bounded [of cfg evs' s s'] that le by simp
  assume w: "group_Wait (ag_group s) = Some r"
  show "Signal \<in> set evs" if "r = None"
    using w that by (intro signal_before_nil [OF run]) simp
  show "hs_shutdown (ag_api s)" "hs_shutdown (ag_internal s)"
    using w inv by (auto simp: app_inv_def http_inv_def http_result_def)
  show "gs_stopping (ag_grpc s) \<or> (\<exists>e. gs_phase (ag_grpc s) = ListenFailed e)"
    using w inv by (cases "gs_phase (ag_grpc s)") (auto simp: app_inv_def grpc_inv_def grpc_result_def)
qed

text \<open>A signal while everything runs, and a port that is taken.\<close>

definition sample_stop :: "app_event list" where
  "sample_stop = [GrpcEv (GrpcListen None), Signal, ApiEv ShutdownCalled, RelayReturns, ApiEv (ListenReturns ErrServerClosed),
     ApiEv (ShutdownReturns None), GrpcEv GracefulStopCalled, GrpcEv (ServeReturns None), GrpcEv ForceStop,
     GrpcEv (GracefulStopReturns False), InternalEv ShutdownCalled, InternalEv (ShutdownReturns None), JanitorReturns,
     InternalEv (ListenReturns ErrServerClosed)]"

definition sample_taken :: "app_event list" where
  "sample_taken = [ApiEv (ListenReturns (NetError ''bind: address already in use''))]"

lemmas sample_app_defs = app_start_def http_start_def grpc_start_def group_Go_def upt_rec app_done_def group_Done_def
  app_report_def group_Return_def http_result_def grpc_result_def group_Wait_def ErrServerClosed_def

theorem process_stops_witness:
  "(\<exists>s. app_events default_config sample_stop app_start = Some s \<and> group_Wait (ag_group s) = Some None \<and> hs_shutdown (ag_api s))
   \<and> (\<exists>s evs s'. app_events default_config sample_taken app_start = Some s
        \<and> list_all app_sure evs \<and> app_events default_config evs s = Some s' \<and> group_Wait (ag_group s') \<noteq> None)"
proof
  obtain s where s: "app_events default_config sample_stop app_start = Some s" "group_Wait (ag_group s) = Some None"
    by (simp add: sample_stop_def sample_app_defs)
  then show "\<exists>s. app_events default_config sample_stop app_start = Some s \<and> group_Wait (ag_group s) = Some None \<and> hs_shutdown (ag_api s)"
    using process_stops [OF s(1), of undefined undefined None] by blast
  have "\<exists>s. app_events default_config sample_taken app_start = Some s \<and> http_failed (ag_api s)"
    by (simp add: sample_taken_def sample_app_defs http_failed_def)
  then obtain s where "app_events default_config sample_taken app_start = Some s" "http_failed (ag_api s)" by blast
  then show "\<exists>s evs s'. app_events default_config sample_taken app_start = Some s
        \<and> list_all app_sure evs \<and> app_events default_config evs s = Some s' \<and> group_Wait (ag_group s') \<noteq> None"
    using process_stops [of default_config sample_taken s] by blast
qed

section \<open>Start and end (main.go)\<close>

record app_env =
  ae_pg_parse :: "go_error option"
  ae_pg_new :: "go_error option"
  ae_pg_ping :: "go_error option"
  ae_vk_new :: "go_error option"
  ae_vk_ping :: "go_error option"
  ae_mq :: "go_error option"
  ae_declare :: "go_error option"
  ae_publisher :: "go_error option"
  ae_close_mq :: "go_error option"
  ae_close_publisher :: "go_error option"
  ae_wait :: "go_error option"

datatype resource = PgPool | VkClient | MqConn | EventPublisher

datatype app_action = Opened resource | Closed resource | CloseFailed resource | Serving

text \<open>
  An opener answers an error or success, with the opens and closes it made; a ping that fails closes what was opened.
\<close>

definition openPostgres :: "app_env \<Rightarrow> go_error option \<times> app_action list" where
  "openPostgres env =
     (case ae_pg_parse env of
        Some err \<Rightarrow> (Some (errorf_w ''parse pg config: '' err), [])
      | None \<Rightarrow>
          (case ae_pg_new env of
             Some err \<Rightarrow> (Some (errorf_w ''create pg pool: '' err), [])
           | None \<Rightarrow>
               (case ae_pg_ping env of
                  Some err \<Rightarrow> (Some (errorf_w ''ping pg database: '' err), [Opened PgPool, Closed PgPool])
                | None \<Rightarrow> (None, [Opened PgPool]))))"

definition openValkey :: "app_env \<Rightarrow> go_error option \<times> app_action list" where
  "openValkey env =
     (case ae_vk_new env of
        Some err \<Rightarrow> (Some (errorf_w ''create valkey client: '' err), [])
      | None \<Rightarrow>
          (case ae_vk_ping env of
             Some err \<Rightarrow> (Some (errorf_w ''ping valkey: '' err), [Opened VkClient, Closed VkClient])
           | None \<Rightarrow> (None, [Opened VkClient])))"

definition openRabbitMQ :: "app_env \<Rightarrow> go_error option \<times> app_action list" where
  "openRabbitMQ env =
     (case ae_mq env of
        Some err \<Rightarrow> (Some (errorf_w ''connect rabbitmq: '' err), [])
      | None \<Rightarrow> (None, [Opened MqConn]))"

definition bus_NewPublisher :: "app_env \<Rightarrow> go_error option \<times> app_action list" where
  "bus_NewPublisher env =
     (case ae_declare env of
        Some err \<Rightarrow> (Some (errorf_w ''bus declare exchange: '' err), [])
      | None \<Rightarrow>
          (case ae_publisher env of
             Some err \<Rightarrow> (Some (errorf_w ''bus new publisher: '' err), [])
           | None \<Rightarrow> (None, [Opened EventPublisher])))"

definition bus_Close :: "app_env \<Rightarrow> go_error option" where
  "bus_Close env = map_option (errorf_w ''bus close: '') (ae_close_publisher env)"

text \<open>\<open>closeWithTimeout\<close> reports a failed close and goes on.\<close>

definition closeWithTimeout :: "resource \<Rightarrow> go_error option \<Rightarrow> app_action list" where
  "closeWithTimeout name err = (case err of Some _ \<Rightarrow> [CloseFailed name] | None \<Rightarrow> [Closed name])"

text \<open>
  \<open>http.Server\<close> with its timeouts, as the constructors of \<open>server.go\<close> fill it in; \<open>newAPIServer\<close> builds the
  chain and the router from the configuration.
\<close>

record 's api_server =
  as_Addr :: string
  as_Handler :: "'s handler"
  as_ReadTimeout :: int
  as_WriteTimeout :: int
  as_IdleTimeout :: int
  as_ShutdownTimeout :: int

record server_cfg =
  sc_Addr :: string
  sc_ReadTimeout :: int
  sc_WriteTimeout :: int
  sc_IdleTimeout :: int
  sc_ShutdownTimeout :: int

definition NewAPIServer :: "'s handler \<Rightarrow> server_cfg \<Rightarrow> 's api_server" where
  "NewAPIServer h cfg =
     \<lparr>as_Addr = sc_Addr cfg, as_Handler = h, as_ReadTimeout = sc_ReadTimeout cfg, as_WriteTimeout = sc_WriteTimeout cfg,
      as_IdleTimeout = sc_IdleTimeout cfg, as_ShutdownTimeout = sc_ShutdownTimeout cfg\<rparr>"

text \<open>
  The internal server sets no write and no idle timeout. For \<open>net/http\<close> a write timeout of zero is none, so a
  profile may take its time; an idle timeout of zero stands for the read timeout.
\<close>

definition NewInternalServer :: "'s handler \<Rightarrow> server_cfg \<Rightarrow> 's api_server" where
  "NewInternalServer h cfg =
     \<lparr>as_Addr = sc_Addr cfg, as_Handler = h, as_ReadTimeout = sc_ReadTimeout cfg, as_WriteTimeout = 0,
      as_IdleTimeout = 0, as_ShutdownTimeout = sc_ShutdownTimeout cfg\<rparr>"

definition newAPIServer ::
  "(cors_config \<Rightarrow> go_error + 's middleware) \<Rightarrow> (int \<Rightarrow> go_error + 's middleware) \<Rightarrow> config \<Rightarrow> 's processor
    \<Rightarrow> (string \<Rightarrow> go_error + uuid) \<Rightarrow> go_error + 's api_server" where
  "newAPIServer cors_NewMiddleware gzhttp_NewWrapper cfg svc v =
     (case NewMiddleware cors_NewMiddleware gzhttp_NewWrapper
        \<lparr>mc_MaxBodyBytes = http_MaxBodyBytes (cfg_HTTP cfg), mc_CompressMinBytes = http_CompressMinBytes (cfg_HTTP cfg),
         mc_CORSAllowedOrigins = http_CORSAllowedOrigins (cfg_HTTP cfg), mc_CORSMaxAge = http_CORSMaxAge (cfg_HTTP cfg),
         mc_HSTSEnabled = http_HSTSEnabled (cfg_HTTP cfg), mc_HSTSMaxAge = http_HSTSMaxAge (cfg_HTTP cfg)\<rparr> of
        Inl err \<Rightarrow> Inl err
      | Inr mw \<Rightarrow>
          Inr (NewAPIServer (mw (NewMux svc (http_Auth v)))
            \<lparr>sc_Addr = http_Address (cfg_HTTP cfg), sc_ReadTimeout = http_ReadTimeout (cfg_HTTP cfg),
             sc_WriteTimeout = http_WriteTimeout (cfg_HTTP cfg), sc_IdleTimeout = http_IdleTimeout (cfg_HTTP cfg),
             sc_ShutdownTimeout = cfg_ShutdownTimeout cfg\<rparr>))"

text \<open>
  \<open>run\<close>, one definition per stage: a stage opens its resource, defers the close, and goes on; a deferred
  close happens whatever the rest answered.
\<close>

definition run_servers :: "app_env \<Rightarrow> go_error + 's api_server \<Rightarrow> go_error option \<times> app_action list" where
  "run_servers env apiSrv = (case apiSrv of Inl err \<Rightarrow> (Some err, []) | Inr _ \<Rightarrow> (ae_wait env, [Serving]))"

definition run_publisher :: "app_env \<Rightarrow> go_error + 's api_server \<Rightarrow> go_error option \<times> app_action list" where
  "run_publisher env apiSrv =
     (case bus_NewPublisher env of
        (Some err, tr) \<Rightarrow> (Some err, tr)
      | (None, tr) \<Rightarrow>
          (case run_servers env apiSrv of
             (r, tr1) \<Rightarrow> (r, tr @ tr1 @ closeWithTimeout EventPublisher (bus_Close env))))"

definition run_rabbitmq :: "app_env \<Rightarrow> go_error + 's api_server \<Rightarrow> go_error option \<times> app_action list" where
  "run_rabbitmq env apiSrv =
     (case openRabbitMQ env of
        (Some err, tr) \<Rightarrow> (Some err, tr)
      | (None, tr) \<Rightarrow>
          (case run_publisher env apiSrv of
             (r, tr1) \<Rightarrow> (r, tr @ tr1 @ closeWithTimeout MqConn (ae_close_mq env))))"

definition run_valkey :: "app_env \<Rightarrow> go_error + 's api_server \<Rightarrow> go_error option \<times> app_action list" where
  "run_valkey env apiSrv =
     (case openValkey env of
        (Some err, tr) \<Rightarrow> (Some err, tr)
      | (None, tr) \<Rightarrow> (case run_rabbitmq env apiSrv of (r, tr1) \<Rightarrow> (r, tr @ tr1 @ [Closed VkClient])))"

definition app_run :: "go_error option \<Rightarrow> app_env \<Rightarrow> go_error + 's api_server \<Rightarrow> go_error option \<times> app_action list" where
  "app_run verified env apiSrv =
     (case verified of
        Some err \<Rightarrow> (Some err, [])
      | None \<Rightarrow>
          (case openPostgres env of
             (Some err, tr) \<Rightarrow> (Some err, tr)
           | (None, tr) \<Rightarrow> (case run_valkey env apiSrv of (r, tr1) \<Rightarrow> (r, tr @ tr1 @ [Closed PgPool]))))"

text \<open>\<open>main\<close>: the exit code and what it prints, a line on standard error or an entry of the log.\<close>

datatype main_line = LoadConfigFailed go_error | ApplicationFailed go_error

definition storefront_main ::
  "go_error + config \<Rightarrow> (config \<Rightarrow> go_error option \<times> app_action list) \<Rightarrow> nat \<times> main_line list \<times> app_action list" where
  "storefront_main parsed run =
     (case config_Load parsed of
        Inl err \<Rightarrow> (1, [LoadConfigFailed err], [])
      | Inr cfg \<Rightarrow>
          (case run cfg of
             (Some err, tr) \<Rightarrow> (1, [ApplicationFailed err], tr)
           | (None, tr) \<Rightarrow> (0, [], tr)))"

lemma main_exit_zero:
  "fst (storefront_main parsed run) = 0 \<longleftrightarrow> (\<exists>cfg. config_Load parsed = Inr cfg \<and> fst (run cfg) = None)"
  by (auto simp: storefront_main_def split: sum.split prod.split option.split)

text \<open>A configuration that is refused opens nothing.\<close>

lemma main_refused: "config_Load parsed = Inl err \<Longrightarrow> storefront_main parsed run = (1, [LoadConfigFailed err], [])"
  by (simp add: storefront_main_def)

text \<open>
  What a trace of opens and closes must be: closes match the latest open, and serving happens with
  all four resources open. The result is what is still open; None is a trace out of order.
\<close>

fun trace_ok :: "resource list \<Rightarrow> app_action list \<Rightarrow> resource list option" where
  "trace_ok held [] = Some held"
| "trace_ok held (Opened r # tr) = trace_ok (r # held) tr"
| "trace_ok held (Closed r # tr) = (case held of x # rest \<Rightarrow> if x = r then trace_ok rest tr else None | [] \<Rightarrow> None)"
| "trace_ok held (CloseFailed r # tr) = (case held of x # rest \<Rightarrow> if x = r then trace_ok rest tr else None | [] \<Rightarrow> None)"
| "trace_ok held (Serving # tr) =
     (if held = [EventPublisher, MqConn, VkClient, PgPool] then trace_ok held tr else None)"

lemma trace_ok_append: "trace_ok held (a @ b) = (case trace_ok held a of None \<Rightarrow> None | Some h \<Rightarrow> trace_ok h b)"
  by (induction held a rule: trace_ok.induct) (auto split: list.split)

text \<open>Each stage, with what was open before it: it leaves just that open, and served only if it did not fail.\<close>

definition stage_ok :: "resource list \<Rightarrow> app_env \<Rightarrow> go_error option \<times> app_action list \<Rightarrow> bool" where
  "stage_ok held env res \<longleftrightarrow>
     trace_ok held (snd res) = Some held \<and> (Serving \<in> set (snd res) \<longrightarrow> fst res = ae_wait env)
     \<and> (Serving \<notin> set (snd res) \<longrightarrow> fst res \<noteq> None)"

lemma closeWithTimeout_ok:
  "trace_ok (r # held) (closeWithTimeout r e) = Some held" "Serving \<notin> set (closeWithTimeout r e)"
  by (simp_all add: closeWithTimeout_def split: option.split)

lemma stage_bracket:
  assumes "stage_ok (r # held) env (out, tr)" "trace_ok (r # held) tr' = Some held" "Serving \<notin> set tr'"
  shows "stage_ok held env (out, Opened r # tr @ tr')"
  using assms by (simp add: stage_ok_def trace_ok_append)

lemma servers_stage: "stage_ok [EventPublisher, MqConn, VkClient, PgPool] env (run_servers env api)"
  by (simp add: stage_ok_def run_servers_def split: sum.split)

text \<open>A stage that fails to open its resource, or opens it, goes on and closes it.\<close>

lemma open_stage:
  assumes opened: "fst opening \<noteq> None \<and> trace_ok held (snd opening) = Some held \<and> Serving \<notin> set (snd opening)
      \<or> opening = (None, [Opened r])"
    and rest: "stage_ok (r # held) env rest" and close: "trace_ok (r # held) tr' = Some held" "Serving \<notin> set tr'"
  shows "stage_ok held env (case opening of (Some err, tr) \<Rightarrow> (Some err, tr)
    | (None, tr) \<Rightarrow> (case rest of (out, tr1) \<Rightarrow> (out, tr @ tr1 @ tr')))"
  using opened
proof
  assume "opening = (None, [Opened r])"
  then show ?thesis using stage_bracket [OF _ close, of env "fst rest" "snd rest"] rest by (simp add: split_beta)
qed (auto simp: stage_ok_def split: prod.split)

lemma publisher_stage: "stage_ok [MqConn, VkClient, PgPool] env (run_publisher env api)"
  unfolding run_publisher_def
  by (rule open_stage [OF _ servers_stage closeWithTimeout_ok]) (simp add: bus_NewPublisher_def split: option.split)

lemma rabbitmq_stage: "stage_ok [VkClient, PgPool] env (run_rabbitmq env api)"
  unfolding run_rabbitmq_def
  by (rule open_stage [OF _ publisher_stage closeWithTimeout_ok]) (simp add: openRabbitMQ_def split: option.split)

lemma valkey_stage: "stage_ok [PgPool] env (run_valkey env api)"
  unfolding run_valkey_def
  by (rule open_stage [OF _ rabbitmq_stage]) (simp_all add: openValkey_def split: option.split)

lemma pool_stage:
  "stage_ok [] env (app_run None env api)"
  unfolding app_run_def
  by (simp, intro open_stage [OF _ valkey_stage]) (simp_all add: openPostgres_def split: option.split)

text \<open>
  C26: what \<open>run\<close> opens it closes. Whatever the libraries answer while the process starts, serves and
  ends, the pool, the cache client, the broker connection and the publisher are closed once each in
  the reverse order of their opening, also when a later stage fails; serving happens with all four
  open and only after \<open>Verify\<close> found the schema current: unless the migration library answers that no migration
  is pending, nothing is opened and \<open>run\<close> fails. It answers nil only if it served and the runners ended
  after a signal.
\<close>

theorem run_closes_what_it_opens:
  assumes run: "app_run (migrations_Verify g ce db) env (newAPIServer cors gz cfg svc v) = (r, tr)"
    and served: "app_events cfg evs app_start = Some s" "group_Wait (ag_group s) = Some (ae_wait env)"
  shows "trace_ok [] tr = Some []
    \<and> (migrations_Verify g ce db \<noteq> None \<longrightarrow> tr = [] \<and> r = migrations_Verify g ce db)
    \<and> (gz_HasPending g db \<noteq> Inr False \<longrightarrow> tr = [] \<and> r \<noteq> None)
    \<and> (Serving \<in> set tr \<longrightarrow> r = ae_wait env \<and> (\<exists>api. newAPIServer cors gz cfg svc v = Inr api))
    \<and> (r = None \<longrightarrow> Serving \<in> set tr \<and> Signal \<in> set evs)"
proof (cases "migrations_Verify g ce db")
  case None
  have api: "\<exists>a. api = Inr a" if "app_run None env api = (r, tr)" "Serving \<in> set tr" for api :: "go_error + 'a api_server"
  proof (cases api)
    case (Inl e)
    then have "Serving \<notin> set (snd (run_servers env api))" by (simp add: run_servers_def)
    then show ?thesis
      using that
      by (auto simp: app_run_def run_valkey_def run_rabbitmq_def run_publisher_def openPostgres_def openValkey_def
          openRabbitMQ_def bus_NewPublisher_def closeWithTimeout_ok(2) split: option.splits prod.splits)
  qed simp
  have stage: "trace_ok [] tr = Some []" "Serving \<in> set tr \<longrightarrow> r = ae_wait env" "Serving \<notin> set tr \<longrightarrow> r \<noteq> None"
    using pool_stage [of env "newAPIServer cors gz cfg svc v"] run None by (simp_all add: stage_ok_def)
  moreover have "Signal \<in> set evs" if "ae_wait env = None"
    using served that by (intro signal_before_nil [OF served(1)]) simp
  moreover have "gz_HasPending g db = Inr False" using None by (simp add: migrations_Verify_None_iff)
  ultimately show ?thesis using None api [OF run [unfolded None]] by (cases "Serving \<in> set tr") auto
next
  case (Some e)
  then have "r = Some e" "tr = []" using run by (simp_all add: app_run_def)
  then show ?thesis using Some by simp
qed

text \<open>A run that serves until a signal; closing the publisher fails at the end.\<close>

definition sample_app_env :: app_env where
  "sample_app_env = \<lparr>ae_pg_parse = None, ae_pg_new = None, ae_pg_ping = None, ae_vk_new = None,
     ae_vk_ping = None, ae_mq = None, ae_declare = None, ae_publisher = None, ae_close_mq = None,
     ae_close_publisher = Some (NetError ''gone''), ae_wait = None\<rparr>"

text \<open>A migration library over the list of applied versions, of four in all.\<close>

definition sample_goose :: "nat list goose" where
  "sample_goose = \<lparr>gz_locker = None, gz_provider = (\<lambda>_. None),
     gz_Up = (\<lambda>d. let vs = filter (\<lambda>v. v \<notin> set d) [1, 2, 3, 4] in
       (Inr (map (\<lambda>v. \<lparr>mr_Version = int v, mr_Direction = ''up'', mr_Duration = 1000\<rparr>) vs), d @ vs)),
     gz_Down = (\<lambda>d. if d = [] then (Inl ErrNotFound, d)
       else (Inr \<lparr>mr_Version = int (last d), mr_Direction = ''down'', mr_Duration = 1000\<rparr>, butlast d)),
     gz_Status = (\<lambda>d. Inr (map (\<lambda>v. \<lparr>ms_Version = int v, ms_State = (if v \<in> set d then ''applied'' else ''pending''),
       ms_AppliedAt = (if v \<in> set d then Some ''2024-01-01T00:00:00Z'' else None), ms_Path = itoa (int v) @ ''.sql''\<rparr>) [1, 2, 3, 4])),
     gz_HasPending = (\<lambda>d. Inr (\<not> {1, 2, 3, 4} \<subseteq> set d))\<rparr>"

definition sample_connect :: connect_env where
  "sample_connect = \<lparr>ce_parse = None, ce_ping = None\<rparr>"

theorem run_closes_what_it_opens_witness:
  "let (r, tr) = app_run (migrations_Verify sample_goose sample_connect [1, 2, 3, 4]) sample_app_env (newAPIServer (\<lambda>_. Inl ErrNotFound) (\<lambda>_. Inr (\<lambda>h. h)) default_config
       (service_processor (\<lambda>x. x) (NewPostgres 86400000000000) sample_service
          \<lparr>dr_newV7 = 40, dr_event = 50, dr_now = 0, dr_random = ''r''\<rparr>) (\<lambda>t. Inl ErrInvalidToken))
   in r = None \<and> trace_ok [] tr = Some [] \<and> Serving \<in> set tr"
proof -
  let ?api = "newAPIServer (\<lambda>_. Inl ErrNotFound) (\<lambda>_. Inr (\<lambda>h. h)) default_config
       (service_processor (\<lambda>x. x) (NewPostgres 86400000000000) sample_service
          \<lparr>dr_newV7 = 40, dr_event = 50, dr_now = 0, dr_random = ''r''\<rparr>) (\<lambda>t. Inl ErrInvalidToken)"
  obtain api where api: "?api = Inr api"
    by (simp add: newAPIServer_def NewMiddleware_def compression_def csrf_def corsPolicy_def default_config_def)
  obtain s where s: "app_events default_config sample_stop app_start = Some s" "group_Wait (ag_group s) = Some None"
    by (simp add: sample_stop_def sample_app_defs)
  have verified: "migrations_Verify sample_goose sample_connect [1, 2, 3, 4] = None"
    by (simp add: migrations_Verify_None_iff sample_goose_def sample_connect_def)
  have "fst (app_run (migrations_Verify sample_goose sample_connect [1, 2, 3, 4]) sample_app_env (Inr api)) = None"
    unfolding verified
    by (simp add: app_run_def run_valkey_def run_rabbitmq_def run_publisher_def openPostgres_def openValkey_def
        openRabbitMQ_def bus_NewPublisher_def run_servers_def sample_app_env_def)
  moreover obtain r tr where run: "app_run (migrations_Verify sample_goose sample_connect [1, 2, 3, 4]) sample_app_env ?api = (r, tr)" by fastforce
  moreover have "group_Wait (ag_group s) = Some (ae_wait sample_app_env)" using s(2) by (simp add: sample_app_env_def)
  ultimately show ?thesis
    using run_closes_what_it_opens [OF run s(1)] by (auto simp: api)
qed

end
