(* ===== verification/Urls.thy ===== *)
theory Urls
  imports Config Net_Url
begin

text \<open>
  The connection URLs of \<open>internal/config/config.go\<close>: rendered with \<open>net/url\<close>, and read back as the database driver
  and the broker's client do to learn user, password and host.
\<close>

section \<open>The connection URLs (config.go)\<close>

definition rabbitmq_URL :: "rabbitmq_config \<Rightarrow> string" where
  "rabbitmq_URL r =
     url_String \<lparr>u_Scheme = ''amqp'', u_User = Some (UserPassword (rmq_User r) (secret_Reveal (rmq_Password r))),
       u_Host = JoinHostPort (rmq_Host r) (itoa (rmq_Port r)), u_Path = ''/'', u_RawQuery = ''''\<rparr>"

definition postgres_DSN :: "postgres_config \<Rightarrow> string" where
  "postgres_DSN p =
     url_String \<lparr>u_Scheme = ''postgres'', u_User = Some (UserPassword (pg_User p) (secret_Reveal (pg_Password p))),
       u_Host = JoinHostPort (pg_Host p) (itoa (pg_Port p)), u_Path = pg_Database p,
       u_RawQuery = values_Encode ''sslmode'' (pg_SSLMode p)\<rparr>"

section \<open>They read back\<close>

definition host_char :: "char \<Rightarrow> bool" where
  "host_char c \<longleftrightarrow> is_alnum c \<or> c \<in> set ''-_.~''"

definition host_text :: "string \<Rightarrow> bool" where
  "host_text h \<longleftrightarrow> list_all (\<lambda>c. host_char c \<or> c \<in> set '':[]'') h"

lemma host_char_plain: "host_char c \<or> c \<in> set '':[]'' \<Longrightarrow> \<not> shouldEscape EncodeHost c \<and> c \<noteq> CHR ''%''"
proof -
  have "\<not> is_alnum (CHR ''%'')" by (simp add: is_alnum_def byte_val_def)
  then show "host_char c \<or> c \<in> set '':[]'' \<Longrightarrow> \<not> shouldEscape EncodeHost c \<and> c \<noteq> CHR ''%''"
    by (auto simp: host_char_def shouldEscape_def)
qed

lemma host_text_plain:
  "host_text h \<Longrightarrow> url_escape EncodeHost h = h \<and> url_unescape EncodeHost h = Some h"
proof (induction h)
  case (Cons c h)
  then have "\<not> shouldEscape EncodeHost c \<and> c \<noteq> CHR ''%''" by (intro host_char_plain) (simp add: host_text_def)
  then show ?case using Cons by (simp add: host_text_def url_escape_def escape_char_def)
qed (simp add: url_escape_def)

lemma host_text_chars:
  assumes "host_text h" "c \<in> set h"
  shows "c \<notin> set ''@/?#'' \<and> 32 \<le> byte_val c \<and> byte_val c \<noteq> 127"
proof -
  have "\<forall>x\<in>set ''@/?#''. \<not> (host_char x \<or> x \<in> set '':[]'')" by (simp add: host_char_def is_alnum_def byte_val_def)
  moreover have c: "host_char c \<or> c \<in> set '':[]''" using assms by (simp add: host_text_def list_all_iff)
  moreover have "32 \<le> byte_val c \<and> byte_val c \<noteq> 127" if "is_alnum c" using that by (auto simp: is_alnum_def Let_def)
  moreover have "32 \<le> byte_val c \<and> byte_val c \<noteq> 127" if "c \<in> set ''-_.~:[]''" using that by (auto simp: byte_val_def)
  ultimately show ?thesis by (auto simp: host_char_def)
qed

lemma digits_host: "list_all is_digit s \<Longrightarrow> list_all host_char s"
  by (auto simp: list_all_iff is_digit_def host_char_def is_alnum_def byte_val_def Let_def)

text \<open>An address of the sixth version, without a zone, is of such characters too.\<close>

lemma is_hex_char: "is_hex c \<Longrightarrow> host_char c"
  by (auto simp: is_hex_def hex_value_def host_char_def is_alnum_def Let_def split: if_splits)

lemma set_split_on: "c \<in> set s \<Longrightarrow> c = x \<or> (\<exists>f\<in>set (split_on x s). c \<in> set f)"
  by (induction s) (auto split: list.splits)

lemma ipv4_chars: "ipv4_text s \<Longrightarrow> c \<in> set s \<Longrightarrow> host_char c"
  using set_split_on [of c s "CHR ''.''"] digits_host
  by (auto simp: ipv4_text_def ipv4_field_def list_all_iff Let_def) (auto simp: host_char_def)

lemma v6_chars: "v6_fields i ell s \<Longrightarrow> c \<in> set s \<Longrightarrow> host_char c \<or> c = CHR '':''"
proof (induction i ell s rule: v6_fields.induct)
  case (1 i ell s)
  define g r where "g = takeWhile is_hex s" and "r = dropWhile is_hex s"
  have s: "s = g @ r" by (simp add: g_def r_def)
  have g: "host_char x" if "x \<in> set g" for x
    using that is_hex_char unfolding g_def by (auto dest: set_takeWhileD)
  have i: "\<not> 8 \<le> i" "\<not> (g = [] \<or> length g > 4)"
    using "1.prems"(1) v6_fields.simps [of i ell s] by (auto simp: g_def r_def Let_def split: if_splits)
  show ?case
  proof (cases r)
    case Nil
    then show ?thesis using "1.prems"(2) s g by auto
  next
    case (Cons x t)
    show ?thesis
    proof (cases "x = CHR ''.''")
      case True
      then have "ipv4_text s"
        using "1.prems"(1) v6_fields.simps [of i ell s] i Cons by (simp add: g_def r_def Let_def)
      then show ?thesis using ipv4_chars "1.prems"(2) by blast
    next
      case False
      then obtain d u where t: "x = CHR '':''" "t = d # u"
        "if d = CHR '':'' then \<not> ell \<and> (if u = [] then i + 1 < 8 else v6_fields (i + 1) True u) else v6_fields (i + 1) ell t"
        using "1.prems"(1) v6_fields.simps [of i ell s] i Cons
        by (auto simp: g_def [symmetric] r_def [symmetric] Let_def split: if_splits list.splits)
      note IH = "1.IH" [OF i(1) g_def r_def i(2) Cons False, of d u]
      have "host_char c \<or> c = CHR '':''" if "c \<in> set t"
        using that t IH by (cases "d = CHR '':''"; cases "u = []") auto
      then show ?thesis using "1.prems"(2) s g Cons t(1) by auto
    qed
  qed
qed

lemma ipv6_chars:
  assumes "ipv6_text h" "CHR ''%'' \<notin> set h"
  shows "\<forall>c\<in>set h. host_char c \<or> c = CHR '':''" "CHR '':'' \<in> set h"
proof -
  have s: "takeWhile (\<lambda>c. c \<noteq> CHR ''%'') h = h" using assms(2) by (auto simp: takeWhile_eq_all_conv)
  have "h = take 2 h @ drop 2 h" by simp
  then show "\<forall>c\<in>set h. host_char c \<or> c = CHR '':''"
    using assms(1) v6_chars [of 0 True "drop 2 h"] v6_chars [of 0 False h]
    unfolding ipv6_text_def s Let_def
    by (metis (no_types, lifting) Un_iff append_Nil2 empty_iff empty_set set_ConsD set_append)
  have "take 1 (dropWhile (\<lambda>c. c \<notin> set ''.:%'') h) = '':''" using assms(1) by (simp add: ipv6_text_def Let_def)
  then show "CHR '':'' \<in> set h"
    by (metis One_nat_def list.set_intros(1) set_dropWhileD in_set_takeD)
qed

text \<open>The hosts of a configuration: a name, an address of the fourth version, or one of the sixth without a zone.\<close>

definition config_host :: "string \<Rightarrow> bool" where
  "config_host h \<longleftrightarrow> list_all host_char h \<or> ipv6_text h \<and> CHR ''%'' \<notin> set h"

lemma host_port_text:
  assumes "config_host h" "0 \<le> p"
  defines "hp \<equiv> JoinHostPort h (itoa p)"
  shows "host_text hp" "hp \<noteq> []" "parse_host hp = Some hp"
proof -
  have digits: "list_all is_digit (itoa p)" using assms(2) list_all_digit_nat_digits by (simp add: itoa_def)
  note port = digits_host [OF digits]
  have nb: "\<not> host_char (CHR ''['')" "\<not> host_char (CHR '']'')" "\<not> host_char (CHR '':'')"
    by (simp_all add: host_char_def is_alnum_def byte_val_def)
  have "host_text hp \<and> hp \<noteq> [] \<and> parse_host hp = Some hp"
  proof (cases "list_all host_char h")
    case True
    then have no: "CHR '':'' \<notin> set h" "CHR ''['' \<notin> set h" using nb by (auto simp: list_all_iff)
    have eq: "hp = h @ CHR '':'' # itoa p" using no(1) by (simp add: hp_def JoinHostPort_def)
    have plain: "host_text hp" using True port by (auto simp: eq host_text_def list_all_iff)
    have "CHR ''['' \<notin> set hp" using no(2) port nb by (auto simp: eq list_all_iff)
    then have "CHR ''['' \<notin> set (drop 1 hp)" "take 1 hp \<noteq> ''[''"
      by (auto dest: in_set_dropD simp: take_Suc split: list.splits) (cases hp; simp)
    moreover have "snd (cut_at CHR '':'' hp) = itoa p" by (simp add: eq cut_at_append no(1))
    ultimately show ?thesis using digits plain host_text_plain [OF plain] by (simp add: parse_host_def eq)
  next
    case False
    then have v6: "ipv6_text h" "CHR ''%'' \<notin> set h" using assms(1) by (auto simp: config_host_def)
    note cs = ipv6_chars [OF v6]
    have eq: "hp = ''['' @ h @ '']'' @ CHR '':'' # itoa p" using cs(2) by (simp add: hp_def JoinHostPort_def)
    have no: "CHR ''['' \<notin> set h" "CHR ''['' \<notin> set (itoa p)" "CHR '']'' \<notin> set (CHR '':'' # itoa p)"
      using cs(1) port nb by (auto simp: list_all_iff)
    have plain: "host_text hp" "host_text h" "host_text (CHR '':'' # itoa p)"
      using cs(1) port by (auto simp: eq host_text_def list_all_iff)
    have zone: "cut_zone s = (s, [])" if "CHR ''%'' \<notin> set s" for s
      using that by (induction s) auto
    have "cut_last CHR '']'' hp = (''['' @ h, CHR '':'' # itoa p)"
      using cut_last_append [OF no(3), of "''['' @ h"] by (simp add: eq)
    then have "parse_host hp = Some hp"
      using no(1,2) zone [OF v6(2)] host_text_plain [OF plain(2)] host_text_plain [OF plain(3)] v6(1) digits
      by (simp add: parse_host_def optional_port_def) (simp add: eq)
    then show ?thesis using plain(1) by (simp add: eq)
  qed
  then show "host_text hp" "hp \<noteq> []" "parse_host hp = Some hp" by simp_all
qed

lemma parse_user_reads_back:
  assumes "user \<noteq> [] \<or> pw \<noteq> []"
  shows "parse_user (Userinfo_String (UserPassword user pw)) = Some (user, Some pw)"
proof -
  let ?e = "url_escape EncodeUserPassword"
  have "list_all userinfo_char (?e s)" for s
    using set_url_escape user_char_safe by (auto simp: list_all_iff)
  moreover have "userinfo_char (CHR '':'')" by (simp add: userinfo_char_def)
  moreover have "CHR '':'' \<notin> set (?e user)" using url_delims(1) by (intro escape_avoids) simp
  ultimately show ?thesis
    using assms by (auto simp: parse_user_def Userinfo_String_def UserPassword_def cut_at_append url_unescape_escape)
qed

text \<open>A path is rooted when rendered under an authority.\<close>

definition rooted :: "string \<Rightarrow> string" where
  "rooted path = (if take 1 path = ''/'' then path else CHR ''/'' # path)"

lemma path_text:
  assumes "u_Path u \<noteq> ''''"
  obtains P where "(if EscapedPath u \<noteq> '''' \<and> take 1 (EscapedPath u) \<noteq> ''/'' then ''/'' else '''') @ EscapedPath u = CHR ''/'' # P"
    "url_unescape EncodePath (CHR ''/'' # P) = Some (rooted (u_Path u))" "\<forall>c\<in>set P. url_safe EncodePath c \<or> c = CHR ''*''"
proof (cases "u_Path u = ''*''")
  case True
  then show thesis by (intro that [of "''*''"]) (simp_all add: EscapedPath_def rooted_def)
next
  case False
  obtain c r where cr: "u_Path u = c # r" using assms by (cases "u_Path u") auto
  have slash: "escape_char EncodePath (CHR ''/'') = ''/''" by (simp add: escape_char_def shouldEscape_def)
  have eq: "EscapedPath u = escape_char EncodePath c @ url_escape EncodePath r"
    using False cr by (auto simp: EscapedPath_def url_escape_def)
  show thesis
  proof (cases "c = CHR ''/''")
    case True
    have "\<forall>c\<in>set (url_escape EncodePath r). url_safe EncodePath c" using set_url_escape by blast
    then show thesis using True eq slash
      by (intro that [of "url_escape EncodePath r"]) (simp_all add: cr rooted_def url_unescape_escape)
  next
    case False
    have "take 1 (escape_char EncodePath c) \<noteq> ''/''" "escape_char EncodePath c \<noteq> []"
      using False by (simp_all add: escape_char_def)
    then have first: "EscapedPath u \<noteq> ''''" "take 1 (EscapedPath u) \<noteq> ''/''"
      by (simp_all add: eq) (cases "escape_char EncodePath c"; simp)+
    have all: "EscapedPath u = url_escape EncodePath (u_Path u)" using \<open>u_Path u \<noteq> ''*''\<close> by (simp add: EscapedPath_def)
    have "\<forall>c\<in>set (EscapedPath u). url_safe EncodePath c" unfolding all using set_url_escape by blast
    then show thesis using first False
      by (intro that [of "EscapedPath u"]) (simp_all add: all url_unescape_escape rooted_def cr)
  qed
qed


lemma url_reads_back:
  assumes scheme: "u_Scheme u \<in> {''amqp'', ''postgres''}" and user: "u_User u = Some (UserPassword name pw)" "name \<noteq> [] \<or> pw \<noteq> []"
    and host: "u_Host u = JoinHostPort h (itoa p)" "config_host h" "0 \<le> p"
    and path: "u_Path u \<noteq> ''''" and query: "\<forall>c\<in>set (u_RawQuery u). url_safe EncodeQueryComponent c \<or> c = CHR ''=''"
  shows "url_Parse (url_String u) = Some (u\<lparr>u_Path := rooted (u_Path u)\<rparr>)"
proof -
  note hp = host_port_text [OF host(2,3)]
  obtain P where P: "(if EscapedPath u \<noteq> '''' \<and> take 1 (EscapedPath u) \<noteq> ''/'' then ''/'' else '''') @ EscapedPath u = CHR ''/'' # P"
    "url_unescape EncodePath (CHR ''/'' # P) = Some (rooted (u_Path u))" "\<forall>c\<in>set P. url_safe EncodePath c \<or> c = CHR ''*''"
    using path_text [OF path] by blast
  define ui where "ui = Userinfo_String (UserPassword name pw)"
  define q where "q = (if u_RawQuery u \<noteq> '''' then CHR ''?'' # u_RawQuery u else '''')"
  define auth where "auth = ui @ CHR ''@'' # u_Host u"
  have ui: "\<forall>c\<in>set ui. url_safe EncodeUserPassword c \<or> c = CHR '':''"
    using set_url_escape by (auto simp: ui_def Userinfo_String_def UserPassword_def)
  have uin: "c \<notin> set ui" if "c \<in> set ''@/?#''" for c using ui url_delims(1) that by auto
  have hn: "c \<notin> set (u_Host u)" if "c \<in> set ''@/?#''" for c
    using host_text_chars [OF hp(1)] that by (auto simp: host(1))
  have Pn: "CHR ''?'' \<notin> set P" "CHR ''#'' \<notin> set P" using P(3) url_delims(2) by auto
  have qn: "CHR ''#'' \<notin> set q" using query url_delims(3) by (auto simp: q_def)
  have "url_escape EncodeHost (u_Host u) = u_Host u" "u_Host u \<noteq> ''''"
    using host_text_plain [OF hp(1)] hp(2) by (simp_all add: host(1))
  moreover have "u_Scheme u \<noteq> ''''" using scheme by auto
  ultimately have "url_String u = u_Scheme u @ '':'' @ ''//'' @ (ui @ ''@'') @ u_Host u
      @ ((if EscapedPath u \<noteq> '''' \<and> take 1 (EscapedPath u) \<noteq> ''/'' then ''/'' else '''') @ EscapedPath u) @ q"
    by (simp add: url_String_def user(1) ui_def q_def Let_def)
  then have rendered: "url_String u = u_Scheme u @ CHR '':'' # (''//'' @ auth @ CHR ''/'' # P) @ q"
    unfolding P(1) by (simp add: auth_def)
  have sc: "CHR '':'' \<notin> set (u_Scheme u)" "CHR ''#'' \<notin> set (u_Scheme u)" using scheme by auto
  have "CHR ''#'' \<notin> set (url_String u)"
    using sc(2) uin hn Pn qn by (simp add: rendered auth_def)
  then have c1: "cut_at CHR ''#'' (url_String u) = (url_String u, [])" by (rule cut_at_none)
  have sch: "list_all (\<lambda>c. is_alnum c \<or> c \<in> set ''+-.'') (u_Scheme u)" "is_alnum (hd (u_Scheme u))" "\<not> is_digit (hd (u_Scheme u))"
    using scheme by (auto simp: is_alnum_def is_digit_def byte_val_def)
  have "takeWhile (\<lambda>c. is_alnum c \<or> c \<in> set ''+-.'') (u_Scheme u @ CHR '':'' # t) = u_Scheme u" for t
  proof -
    have "\<not> (is_alnum (CHR '':'') \<or> CHR '':'' \<in> set ''+-.'')" by (simp add: is_alnum_def byte_val_def)
    then show ?thesis using sch(1) by (induction "u_Scheme u") (auto simp: list_all_iff takeWhile_append)
  qed
  then have c2: "get_scheme (url_String u) = Some (u_Scheme u, (''//'' @ auth @ CHR ''/'' # P) @ q)"
    unfolding rendered get_scheme_def using sch(2,3) scheme by (auto simp: Let_def)
  have "CHR ''?'' \<notin> set (''//'' @ auth @ CHR ''/'' # P)" using uin hn Pn by (simp add: auth_def)
  then have c3: "cut_at CHR ''?'' ((''//'' @ auth @ CHR ''/'' # P) @ q) = (''//'' @ auth @ CHR ''/'' # P, u_RawQuery u)"
    using cut_at_none cut_at_append by (cases "u_RawQuery u = ''''") (simp_all add: q_def del: append_Cons append_assoc)
  have "CHR ''/'' \<notin> set auth" using uin hn by (simp add: auth_def)
  then have a: "takeWhile (\<lambda>c. c \<noteq> CHR ''/'') (auth @ CHR ''/'' # P) = auth" by (rule takeWhile_until)
  have pa: "parse_authority auth = Some (Some (name, Some pw), u_Host u)"
    using hn hp(3) parse_user_reads_back [OF user(2)] by (simp add: parse_authority_def auth_def cut_last_append ui_def host(1))
  have "32 \<le> byte_val c \<and> byte_val c \<noteq> 127" if "c \<in> set (url_String u)" for c
  proof -
    define W where "W = set ''amqp'' \<union> set ''postgres'' \<union> set '':/@*=?''"
    have W: "set (u_Scheme u) \<subseteq> W" "set '':/@*=?'' \<subseteq> W" using scheme by (auto simp: W_def)
    have "c \<in> W \<Longrightarrow> 32 \<le> byte_val c \<and> byte_val c \<noteq> 127" by (auto simp: W_def byte_val_def)
    moreover have "c \<in> W \<or> c \<in> set (u_Host u)
        \<or> url_safe EncodeUserPassword c \<or> url_safe EncodePath c \<or> url_safe EncodeQueryComponent c"
      using that W ui P(3) query by (auto simp: rendered auth_def q_def split: if_splits)
    ultimately show ?thesis using url_safe_printable host_text_chars [OF hp(1), of c] by (auto simp: host(1))
  qed
  then have ctl: "\<not> list_ex (\<lambda>c. byte_val c < 32 \<or> byte_val c = 127) (url_String u)" by (fastforce simp: list_ex_iff)
  have name: "u_Scheme u \<noteq> ''''" "map ascii_lower (u_Scheme u) = u_Scheme u" "url_String u \<noteq> ''*''"
    using scheme by (auto simp: ascii_lower_def byte_val_def rendered)
  show ?thesis
    unfolding url_Parse_def c1 prod.case c2 option.case c3
    using ctl name a pa P(2) user(1)
    by (auto simp: Let_def UserPassword_def intro: url.equality)
qed

lemma values_read_back: "ParseQuery (values_Encode k v) = [Some (k, v)]"
proof -
  let ?e = "url_escape EncodeQueryComponent"
  have "CHR ''&'' \<notin> set (values_Encode k v)" "CHR ''='' \<notin> set (?e k)"
    using url_delims(3) escape_avoids by (simp_all add: values_Encode_def)
  then show ?thesis
    by (simp add: ParseQuery_def split_on_none parse_pair_def values_Encode_def cut_at_append url_unescape_escape)
qed

text \<open>
  C21: the credentials reach the servers as configured. Whatever bytes the user name, the password and
  the SSL mode have (a slash, a colon, an at sign, a percent sign, a blank), the URL that the code renders reads
  back, by the rules of \<open>net/url\<close>, as exactly that user and password, the host with its port, and the mode as the
  one query parameter; and whatever bytes the database name has, as that name after the one slash that starts
  a path, unless the name brings a slash of its own, which then is that one. The host is a name of letters, digits, dots, dashes, underscores and
  tildes or an address of either version without a zone, the port is not negative, and the user is not empty,
  as the environment's parser requires.
\<close>

theorem connection_urls_read_back:
  assumes pg: "config_host (pg_Host p)" "0 \<le> pg_Port p" "pg_User p \<noteq> ''''" "pg_Database p \<noteq> ''''"
    and mq: "config_host (rmq_Host r)" "0 \<le> rmq_Port r" "rmq_User r \<noteq> ''''"
  shows "(\<exists>u. url_Parse (postgres_DSN p) = Some u \<and> u_Scheme u = ''postgres''
        \<and> u_User u = Some (pg_User p, Some (secret_Reveal (pg_Password p)))
        \<and> u_Host u = JoinHostPort (pg_Host p) (itoa (pg_Port p))
        \<and> u_Path u = (if take 1 (pg_Database p) = ''/'' then pg_Database p else CHR ''/'' # pg_Database p)
        \<and> ParseQuery (u_RawQuery u) = [Some (''sslmode'', pg_SSLMode p)])
    \<and> (\<exists>u. url_Parse (rabbitmq_URL r) = Some u \<and> u_Scheme u = ''amqp''
        \<and> u_User u = Some (rmq_User r, Some (secret_Reveal (rmq_Password r)))
        \<and> u_Host u = JoinHostPort (rmq_Host r) (itoa (rmq_Port r)) \<and> u_Path u = ''/'' \<and> u_RawQuery u = '''')"
proof
  let ?u = "\<lparr>u_Scheme = ''postgres'', u_User = Some (UserPassword (pg_User p) (secret_Reveal (pg_Password p))),
       u_Host = JoinHostPort (pg_Host p) (itoa (pg_Port p)), u_Path = pg_Database p,
       u_RawQuery = values_Encode ''sslmode'' (pg_SSLMode p)\<rparr>"
  have "\<forall>c\<in>set (values_Encode k v). url_safe EncodeQueryComponent c \<or> c = CHR ''=''" for k v
    using set_url_escape by (auto simp: values_Encode_def)
  then have "url_Parse (postgres_DSN p) = Some (?u\<lparr>u_Path := rooted (pg_Database p)\<rparr>)"
    unfolding postgres_DSN_def using pg url_reads_back [of ?u] by simp
  then show "\<exists>u. url_Parse (postgres_DSN p) = Some u \<and> u_Scheme u = ''postgres''
        \<and> u_User u = Some (pg_User p, Some (secret_Reveal (pg_Password p)))
        \<and> u_Host u = JoinHostPort (pg_Host p) (itoa (pg_Port p))
        \<and> u_Path u = (if take 1 (pg_Database p) = ''/'' then pg_Database p else CHR ''/'' # pg_Database p)
        \<and> ParseQuery (u_RawQuery u) = [Some (''sslmode'', pg_SSLMode p)]"
    by (simp add: values_read_back UserPassword_def rooted_def)
next
  let ?u = "\<lparr>u_Scheme = ''amqp'', u_User = Some (UserPassword (rmq_User r) (secret_Reveal (rmq_Password r))),
       u_Host = JoinHostPort (rmq_Host r) (itoa (rmq_Port r)), u_Path = ''/'', u_RawQuery = ''''\<rparr>"
  have "url_Parse (rabbitmq_URL r) = Some (?u\<lparr>u_Path := rooted ''/''\<rparr>)"
    unfolding rabbitmq_URL_def using mq url_reads_back [of ?u] by simp
  then show "\<exists>u. url_Parse (rabbitmq_URL r) = Some u \<and> u_Scheme u = ''amqp''
        \<and> u_User u = Some (rmq_User r, Some (secret_Reveal (rmq_Password r)))
        \<and> u_Host u = JoinHostPort (rmq_Host r) (itoa (rmq_Port r)) \<and> u_Path u = ''/'' \<and> u_RawQuery u = ''''"
    by (simp add: rooted_def UserPassword_def)
qed

text \<open>A password made of delimiters, on a host given by its address.\<close>

lemma sample_v6: "config_host ''2001:db8::1''"
proof -
  have "v6_fields 0 False ''2001:db8::1''" by code_simp
  then show ?thesis by (simp add: config_host_def ipv6_text_def)
qed

theorem connection_urls_read_back_witness:
  "\<exists>u. url_Parse (postgres_DSN ((cfg_Postgres default_config)\<lparr>pg_Password := ''a:b@c/d?e#f g%'', pg_Host := ''2001:db8::1''\<rparr>)) = Some u
     \<and> u_User u = Some (''u'', Some ''a:b@c/d?e#f g%'') \<and> u_Host u = ''[2001:db8::1]:'' @ itoa 5432 \<and> u_Path u = ''/d''"
proof -
  have h: "config_host ''mq''"
    by (simp add: config_host_def host_char_def is_alnum_def byte_val_def)
  have host: "JoinHostPort ''2001:db8::1'' (itoa 5432) = ''[2001:db8::1]:'' @ itoa 5432" by (simp add: JoinHostPort_def)
  define p where "p = (cfg_Postgres default_config)\<lparr>pg_Password := ''a:b@c/d?e#f g%'', pg_Host := ''2001:db8::1''\<rparr>"
  have p: "pg_Host p = ''2001:db8::1''" "pg_Port p = 5432" "pg_User p = ''u''" "pg_Database p = ''d''" "pg_Password p = ''a:b@c/d?e#f g%''"
    unfolding p_def default_config_def by simp_all
  have r: "rmq_Host (cfg_RabbitMQ default_config) = ''mq''" "rmq_Port (cfg_RabbitMQ default_config) = 5672"
    "rmq_User (cfg_RabbitMQ default_config) \<noteq> ''''"
    unfolding default_config_def by simp_all
  have "\<exists>u. url_Parse (postgres_DSN p) = Some u \<and> u_User u = Some (pg_User p, Some (secret_Reveal (pg_Password p)))
      \<and> u_Host u = JoinHostPort (pg_Host p) (itoa (pg_Port p)) \<and> u_Path u = ''/d''"
    using connection_urls_read_back [of p "cfg_RabbitMQ default_config", unfolded p(1,2,4) r(1,2), OF sample_v6 _ _ _ h _ r(3)]
    unfolding p(1,2,3) by auto
  then show ?thesis unfolding p host secret_Reveal_def by (simp only: p_def)
qed

end
