(* ===== verification/Wiring.thy ===== *)
theory Wiring
  imports App Urls Transports
begin

text \<open>
  What \<open>cmd/storefront/main.go\<close> puts together from the configuration before it starts the runners: the
  settings of the connections, the service, the two HTTP servers, the gRPC server, the relay and the
  janitor, with the constructors they come from.
\<close>

section \<open>The internal port (router.go, probes.go)\<close>

record 's internal_handler =
  ih_db :: "'s \<Rightarrow> go_error option \<times> 's"
  ih_cache :: "'s \<Rightarrow> go_error option \<times> 's"

definition NewInternalHandler ::
  "('s \<Rightarrow> go_error option \<times> 's) \<Rightarrow> ('s \<Rightarrow> go_error option \<times> 's) \<Rightarrow> 's internal_handler" where
  "NewInternalHandler db cache = \<lparr>ih_db = db, ih_cache = cache\<rparr>"

text \<open>
  The handlers of \<open>net/http/pprof\<close>, and the mux's own redirect of \<open>/debug/pprof\<close> to the subtree below it.
\<close>

record 's pprof =
  pp_Index :: "'s handler"
  pp_Profile :: "'s handler"
  pp_Trace :: "'s handler"
  pp_Redirect :: "'s handler"

text \<open>
  The profiling routes name no method and \<open>/debug/pprof/\<close> is a subtree, of which the mux picks the most
  specific pattern; the probes are as in \<open>serve_mux\<close>.
\<close>

definition probe_routes :: "'s internal_handler \<Rightarrow> 's route list" where
  "probe_routes hh =
     [\<lparr>rt_method = ''GET'', rt_path = [Lit ''healthz''], rt_handler = Healthz\<rparr>,
      \<lparr>rt_method = ''GET'', rt_path = [Lit ''readyz''], rt_handler = Readyz (ih_db hh) (ih_cache hh)\<rparr>]"

definition NewInternalMux :: "'s pprof \<Rightarrow> 's internal_handler \<Rightarrow> 's handler" where
  "NewInternalMux pprof hh r w s =
     (if take 2 (rq_path r) = [''debug'', ''pprof''] then
        (case drop 2 (rq_path r) of
           [] \<Rightarrow> pp_Redirect pprof r w s
         | x # xs \<Rightarrow>
             if xs = [] \<and> x = ''profile'' then pp_Profile pprof r w s
             else if xs = [] \<and> x = ''trace'' then pp_Trace pprof r w s
             else pp_Index pprof r w s)
      else serve_mux (probe_routes hh) r w s)"

section \<open>The gRPC server's settings (server.go)\<close>

record grpc_cfg =
  gc_Addr :: string
  gc_RequestTimeout :: int
  gc_MaxRequestBytes :: int
  gc_ShutdownTimeout :: int
  gc_Reflection :: bool

record 's grpc_srv =
  gs_cfg :: grpc_cfg
  gs_svc :: "'s processor"
  gs_ver :: "string \<Rightarrow> go_error + uuid"

definition NewServer :: "grpc_cfg \<Rightarrow> 's processor \<Rightarrow> (string \<Rightarrow> go_error + uuid) \<Rightarrow> 's grpc_srv" where
  "NewServer cfg svc v = \<lparr>gs_cfg = cfg, gs_svc = svc, gs_ver = v\<rparr>"

text \<open>
  The services \<open>newServer\<close> registers, by name; \<open>reflection.Register\<close> adds the two versions of its own.
\<close>

definition registered_services :: "grpc_cfg \<Rightarrow> string list" where
  "registered_services cfg =
     [''catalog.v1.ProductService'', ''order.v1.OrderService'', ''grpc.health.v1.Health'']
     @ (if gc_Reflection cfg then [''grpc.reflection.v1.ServerReflection'', ''grpc.reflection.v1alpha.ServerReflection''] else [])"

text \<open>
  A call on the assembled server. The library reads the message before any interceptor runs, and refuses one
  longer than the limit with \<open>ResourceExhausted\<close>.
\<close>

datatype grpc_answer = Served "rpc outcome" | ResourceExhausted

definition assembled_server ::
  "'s grpc_srv \<Rightarrow> int \<Rightarrow> nat \<Rightarrow> ctx \<Rightarrow> request \<Rightarrow> 's \<Rightarrow> grpc_answer \<times> 's" where
  "assembled_server srv now len cx req s =
     (if int len > gc_MaxRequestBytes (gs_cfg srv) then (ResourceExhausted, s)
      else case grpc_serve now (gc_RequestTimeout (gs_cfg srv)) (gs_ver srv) (gs_svc srv) cx req s of
             (r, s1) \<Rightarrow> (Served r, s1))"

text \<open>It always answers, and a message over the limit reaches no handler.\<close>

lemma assembled_answers:
  "fst (assembled_server srv now len cx req s) \<noteq> Served Panicked"
  "int len > gc_MaxRequestBytes (gs_cfg srv) \<Longrightarrow> assembled_server srv now len cx req s = (ResourceExhausted, s)"
proof -
  obtain r s' where "grpc_serve now (gc_RequestTimeout (gs_cfg srv)) (gs_ver srv) (gs_svc srv) cx req s = (Returned r, s')"
    unfolding grpc_serve_eq by (metis requireAuth_returns)
  then show "fst (assembled_server srv now len cx req s) \<noteq> Served Panicked" by (simp add: assembled_server_def)
qed (simp add: assembled_server_def)

section \<open>The relay and the janitor (relay.go, janitor.go)\<close>

record outbox_relay =
  or_listener :: listener
  or_cfg :: relay_config

definition outbox_New :: "listener \<Rightarrow> relay_config \<Rightarrow> outbox_relay" where
  "outbox_New l cfg = \<lparr>or_listener = l, or_cfg = cfg\<rparr>"

text \<open>\<open>publishWithTimeout\<close>: the publisher is called with the deadline its context carries.\<close>

definition publishWithTimeout :: "outbox_relay \<Rightarrow> (int \<Rightarrow> 'b publish) \<Rightarrow> int \<Rightarrow> 'b publish" where
  "publishWithTimeout r pub now rec b = pub (now + PublishTimeout (or_cfg r)) rec b"

record janitor =
  jn_interval :: int

definition NewJanitor :: "int \<Rightarrow> janitor" where
  "NewJanitor interval = \<lparr>jn_interval = interval\<rparr>"

section \<open>What run builds (main.go)\<close>

record pool_settings =
  ps_DSN :: string
  ps_MaxConns :: int
  ps_MinConns :: int
  ps_MaxConnLifetime :: int

definition pool_config :: "postgres_config \<Rightarrow> pool_settings" where
  "pool_config cfg = \<lparr>ps_DSN = postgres_DSN cfg, ps_MaxConns = pg_MaxOpenConns cfg, ps_MinConns = pg_MaxIdleConns cfg,
     ps_MaxConnLifetime = pg_ConnMaxLifetime cfg\<rparr>"

record valkey_settings =
  vs_InitAddress :: "string list"
  vs_Password :: string
  vs_SelectDB :: int

definition valkey_option :: "valkey_config \<Rightarrow> valkey_settings" where
  "valkey_option cfg = \<lparr>vs_InitAddress = [valkey_Address cfg], vs_Password = secret_Reveal (vkc_Password cfg),
     vs_SelectDB = vkc_DB cfg\<rparr>"

record 's wiring =
  wr_pool :: pool_settings
  wr_valkey :: valkey_settings
  wr_broker :: string
  wr_verifier :: verifier
  wr_api :: "'s api_server"
  wr_internal :: "'s api_server"
  wr_grpc :: "'s grpc_srv"
  wr_relay :: outbox_relay
  wr_janitor :: janitor

definition internal_server :: "config \<Rightarrow> 's pprof \<Rightarrow> 's internal_handler \<Rightarrow> 's api_server" where
  "internal_server cfg pprof ih =
     NewInternalServer (NewInternalMux pprof ih)
       \<lparr>sc_Addr = http_InternalAddress (cfg_HTTP cfg), sc_ReadTimeout = http_ReadTimeout (cfg_HTTP cfg),
        sc_WriteTimeout = 0, sc_IdleTimeout = 0, sc_ShutdownTimeout = cfg_ShutdownTimeout cfg\<rparr>"

definition grpc_server_of :: "config \<Rightarrow> 's processor \<Rightarrow> (string \<Rightarrow> go_error + uuid) \<Rightarrow> 's grpc_srv" where
  "grpc_server_of cfg srv v =
     NewServer \<lparr>gc_Addr = grpc_Address (cfg_GRPC cfg), gc_RequestTimeout = grpc_RequestTimeout (cfg_GRPC cfg),
       gc_MaxRequestBytes = grpc_MaxRequestBytes (cfg_GRPC cfg), gc_ShutdownTimeout = cfg_ShutdownTimeout cfg,
       gc_Reflection = grpc_Reflection (cfg_GRPC cfg)\<rparr> srv v"

text \<open>The channel of \<open>queries.go\<close> that both \<open>LISTEN\<close> and \<open>NOTIFY\<close> name.\<close>

definition OutboxChannel :: string where "OutboxChannel = ''outbox_wakeup''"

definition relay_of :: "config \<Rightarrow> pg_pool \<Rightarrow> outbox_relay" where
  "relay_of cfg pool = outbox_New (NewListener pool OutboxChannel)
     \<lparr>BatchSize = BatchSize (cfg_Outbox cfg), PollInterval = PollInterval (cfg_Outbox cfg),
      PublishTimeout = PublishTimeout (cfg_Outbox cfg), MaxAttempts = MaxAttempts (cfg_Outbox cfg)\<rparr>"

text \<open>
  \<open>run\<close> from \<open>openPostgres\<close> to the error group, the connections given. The API server may be refused; all
  else is built whatever the settings are. \<open>dr\<close> is what the request at hand draws.
\<close>

definition run_wiring ::
  "(cors_config \<Rightarrow> go_error + svc middleware) \<Rightarrow> (int \<Rightarrow> go_error + svc middleware) \<Rightarrow> svc pprof
    \<Rightarrow> (svc \<Rightarrow> go_error option \<times> svc) \<Rightarrow> (svc \<Rightarrow> go_error option \<times> svc) \<Rightarrow> (string \<Rightarrow> string)
    \<Rightarrow> (string \<Rightarrow> string \<Rightarrow> go_error + string) \<Rightarrow> draws \<Rightarrow> pg_pool \<Rightarrow> config \<Rightarrow> go_error + svc wiring" where
  "run_wiring cors gz pprof pingDB pingCache sha256 parse_claims dr pool cfg =
     (let repo = NewPostgres (idem_TTL (cfg_Idempotency cfg));
          vCache = NewCache (vkc_TTL (cfg_Valkey cfg)) (vkc_NegTTL (cfg_Valkey cfg));
          srv = service_processor sha256 repo (NewService vCache (svc_LoadTimeout (cfg_Service cfg))) dr;
          verifier = NewVerifier (secret_Reveal (auth_JWTSecret (cfg_Auth cfg)))
      in case newAPIServer cors gz cfg srv (Verify parse_claims verifier) of
           Inl err \<Rightarrow> Inl err
         | Inr api \<Rightarrow>
             Inr \<lparr>wr_pool = pool_config (cfg_Postgres cfg), wr_valkey = valkey_option (cfg_Valkey cfg),
               wr_broker = rabbitmq_URL (cfg_RabbitMQ cfg), wr_verifier = verifier, wr_api = api,
               wr_internal = internal_server cfg pprof (NewInternalHandler pingDB pingCache),
               wr_grpc = grpc_server_of cfg srv (Verify parse_claims verifier),
               wr_relay = relay_of cfg pool, wr_janitor = NewJanitor (idem_PurgeInterval (cfg_Idempotency cfg))\<rparr>)"

section \<open>What an accepted configuration builds\<close>

lemma newAPIServer_fields:
  assumes "newAPIServer cors gz cfg svc v = Inr api"
  shows "as_Addr api = http_Address (cfg_HTTP cfg)" "as_ReadTimeout api = http_ReadTimeout (cfg_HTTP cfg)"
    "as_WriteTimeout api = http_WriteTimeout (cfg_HTTP cfg)" "as_IdleTimeout api = http_IdleTimeout (cfg_HTTP cfg)"
    "as_ShutdownTimeout api = cfg_ShutdownTimeout cfg"
  using assms by (auto simp: newAPIServer_def NewAPIServer_def split: sum.splits)

text \<open>How long \<open>net/http\<close> keeps an idle connection: an idle timeout of zero stands for the read timeout.\<close>

definition idle_limit :: "'s api_server \<Rightarrow> int" where
  "idle_limit srv = (if as_IdleTimeout srv \<noteq> 0 then as_IdleTimeout srv else as_ReadTimeout srv)"

text \<open>
  C20: a configuration that \<open>Load\<close> accepts builds a process that works. The three listeners have three
  addresses. The API server bounds the reading of a request, the writing of its answer and an idle connection;
  the internal server bounds reading and idling and, by design, leaves the writing of an answer (a
  profile) without a limit; both servers, and the gRPC server, shut down within a positive time. A gRPC call
  has a positive deadline and messages may have a positive size. The pool may open connections and keeps no
  more idle than it may open. Neither background loop spins: the janitor waits a positive time between
  purges, and the relay, whatever its drains, waits and pauses answer, goes on at once only after a full batch
  (or when its context ends): after a failed drain it pauses a positive time of at most thirty seconds, after
  any other it waits for a notification, a poll interval at most, and pauses an interval when that wait
  fails (for poll intervals below the 146 years at which doubling overflows).
\<close>

theorem accepted_config_wires:
  assumes load: "config_Load parsed = Inr cfg" "PollInterval (cfg_Outbox cfg) < 2 ^ 62"
    and wired: "run_wiring cors gz pprof pingDB pingCache sha256 parse_claims dr pool cfg = Inr wr"
  shows "distinct [as_Addr (wr_api wr), as_Addr (wr_internal wr), gc_Addr (gs_cfg (wr_grpc wr))]
    \<and> (\<forall>d\<in>{as_ReadTimeout (wr_api wr), as_WriteTimeout (wr_api wr), as_IdleTimeout (wr_api wr), as_ShutdownTimeout (wr_api wr),
        idle_limit (wr_api wr), as_ReadTimeout (wr_internal wr), idle_limit (wr_internal wr), as_ShutdownTimeout (wr_internal wr), gc_RequestTimeout (gs_cfg (wr_grpc wr)),
        gc_ShutdownTimeout (gs_cfg (wr_grpc wr)), gc_MaxRequestBytes (gs_cfg (wr_grpc wr)), jn_interval (wr_janitor wr),
        BatchSize (or_cfg (wr_relay wr)), PollInterval (or_cfg (wr_relay wr)), PublishTimeout (or_cfg (wr_relay wr)),
        MaxAttempts (or_cfg (wr_relay wr)), ps_MaxConns (wr_pool wr), ps_MaxConnLifetime (wr_pool wr)}. 0 < d)
    \<and> as_WriteTimeout (wr_internal wr) = 0
    \<and> 0 \<le> ps_MinConns (wr_pool wr) \<and> ps_MinConns (wr_pool wr) \<le> ps_MaxConns (wr_pool wr)
    \<and> 32 \<le> length (v_secret (wr_verifier wr))
    \<and> (\<exists>rounds. fst (relay_Run (or_cfg (wr_relay wr)) envs (or_listener (wr_relay wr))) = concat rounds
        \<and> list_all2 (round_paced (or_cfg (wr_relay wr))) (take (length rounds) envs) rounds)"
proof -
  have ok: "config_validate cfg = None"
    using load(1) by (auto simp: config_Load_def load_checked_def split: sum.splits option.splits)
  obtain srv v api where api: "newAPIServer cors gz cfg srv v = Inr api"
    and wr: "wr_api wr = api" "wr_internal wr = internal_server cfg pprof (NewInternalHandler pingDB pingCache)"
      "gs_cfg (wr_grpc wr) = gs_cfg (grpc_server_of cfg srv v)" "wr_relay wr = relay_of cfg pool"
      "wr_janitor wr = NewJanitor (idem_PurgeInterval (cfg_Idempotency cfg))" "wr_pool wr = pool_config (cfg_Postgres cfg)"
      "v_secret (wr_verifier wr) = auth_JWTSecret (cfg_Auth cfg)"
    using wired by (auto simp: run_wiring_def Let_def NewVerifier_def secret_Reveal_def grpc_server_of_def NewServer_def split: sum.splits)
  have relay: "or_cfg (wr_relay wr) = cfg_Outbox cfg" by (simp add: wr relay_of_def outbox_New_def)
  have valid: "http_validate (cfg_HTTP cfg) = None" "grpc_validate (cfg_GRPC cfg) = None" "postgres_validate (cfg_Postgres cfg) = None"
    "outbox_validate (cfg_Outbox cfg) = None" "idempotency_validate (cfg_Idempotency cfg) = None" "auth_validate (cfg_Auth cfg) = None"
    "0 < cfg_ShutdownTimeout cfg" "validateListenAddresses cfg = None"
    using ok by (simp_all add: config_validate_def errors_Join_None)
  note fields = newAPIServer_fields [OF api]
  have d: "distinct [as_Addr (wr_api wr), as_Addr (wr_internal wr), gc_Addr (gs_cfg (wr_grpc wr))]"
    using valid(8) by (auto simp: wr fields internal_server_def NewInternalServer_def grpc_server_of_def NewServer_def
        validateListenAddresses_def split: if_splits)
  have poll: "0 < PollInterval (cfg_Outbox cfg)" using valid(4) by (simp add: outbox_validate_def errors_Join_None)
  note paced = relay_Run_paced [OF poll load(2), of envs "or_listener (wr_relay wr)"]
  have pool: "0 \<le> ps_MinConns (wr_pool wr) \<and> ps_MinConns (wr_pool wr) \<le> ps_MaxConns (wr_pool wr)
      \<and> 0 < ps_MaxConns (wr_pool wr) \<and> 0 < ps_MaxConnLifetime (wr_pool wr)"
    using valid(3) by (auto simp: wr pool_config_def postgres_validate_def errors_Join_None validateConnLimits_def split: if_splits)
  show ?thesis
    using d pool paced valid(1,2,4-7)
    by (auto simp: relay) (auto simp: idle_limit_def wr fields internal_server_def NewInternalServer_def grpc_server_of_def NewServer_def
        NewJanitor_def http_validate_def grpc_validate_def outbox_validate_def idempotency_validate_def auth_validate_def
        errors_Join_None secret_Reveal_def minJWTSecretBytes_def split: if_splits)
qed


lemma default_accepted: "config_validate default_config = None"
proof -
  have "validateListenAddresses default_config = None"
    by (simp add: validateListenAddresses_def http_Address_def http_InternalAddress_def grpc_Address_def
        JoinHostPort_inject default_config_def)
  then show ?thesis
    by (simp add: config_validate_def errors_Join_None http_validate_def grpc_validate_def postgres_validate_def
        valkey_validate_def outbox_validate_def service_validate_def idempotency_validate_def auth_validate_def
        validateResponseDeadline_def validateConnLimits_def secret_Reveal_def minJWTSecretBytes_def)
      (simp add: default_config_def)
qed

definition sample_pprof :: "'s pprof" where
  "sample_pprof = \<lparr>pp_Index = Healthz, pp_Profile = Healthz, pp_Trace = Healthz, pp_Redirect = Healthz\<rparr>"

theorem accepted_config_wires_witness:
  "\<exists>wr. run_wiring (\<lambda>_. Inl ErrNotFound) (\<lambda>_. Inr (\<lambda>h. h)) sample_pprof (Pair None) (Pair None) (\<lambda>x. x) (\<lambda>_ _. Inl ErrNotFound)
      sample_draws \<lparr>checked_out = [], hijacked = [], next_conn = 0\<rparr> default_config = Inr wr
    \<and> distinct [as_Addr (wr_api wr), as_Addr (wr_internal wr), gc_Addr (gs_cfg (wr_grpc wr))]
    \<and> (\<exists>rounds. fst (relay_Run (or_cfg (wr_relay wr)) (replicate 3 (sample_env (2, False, None) False)) (or_listener (wr_relay wr)))
          = concat rounds
        \<and> list_all2 (round_paced (or_cfg (wr_relay wr))) (take (length rounds) (replicate 3 (sample_env (2, False, None) False))) rounds)"
proof -
  let ?run = "run_wiring (\<lambda>_. Inl ErrNotFound) (\<lambda>_. Inr (\<lambda>h. h)) sample_pprof (Pair None) (Pair None) (\<lambda>x. x) (\<lambda>_ _. Inl ErrNotFound)
      sample_draws \<lparr>checked_out = [], hijacked = [], next_conn = 0\<rparr> default_config"
  have "http_CORSAllowedOrigins (cfg_HTTP default_config) = []" by (simp add: default_config_def)
  then obtain wr where wr: "?run = Inr wr"
    by (simp add: run_wiring_def Let_def newAPIServer_def NewMiddleware_def compression_def csrf_def corsPolicy_def)
  have ok: "config_Load (Inr default_config) = Inr default_config"
    by (rule load_accepts) (rule default_accepted)
  have "PollInterval (cfg_Outbox default_config) < 2 ^ 62" by (simp add: default_config_def)
  then show ?thesis using accepted_config_wires [OF ok _ wr, of "replicate 3 (sample_env (2, False, None) False)"] wr by blast
qed

section \<open>Two ports\<close>

lemma no_route:
  assumes "list_all (\<lambda>rt. match_path (rt_path rt) (rq_path r) = None) routes"
  shows "serve_mux routes r w s = served (http_Error ''404 page not found'' 404 w) s"
proof -
  have "find (\<lambda>rt. match_method (rt_method rt) (rq_method r) \<and> match_path (rt_path rt) (rq_path r) \<noteq> None) routes = None"
    using assms by (auto simp: find_None_iff list_all_iff)
  then show ?thesis using assms by (auto simp: serve_mux_def list_ex_iff list_all_iff)
qed

lemma readyz_route:
  assumes "rq_path r = [''readyz'']" "rq_method r = ''GET''"
  shows "NewInternalMux pprof hh r w s = Readyz (ih_db hh) (ih_cache hh) (r\<lparr>rq_path_id := ''''\<rparr>) w s"
  using assms by (simp add: NewInternalMux_def probe_routes_def serve_mux_def match_method_def)

text \<open>
  two ports, two sets of routes. The public port knows nothing outside \<open>/v1\<close>: probes and profiling
  are not found there, and the state does not change. The internal port knows nothing under \<open>/v1\<close>, so
  no API call gets past authentication by using it. Readiness answers 204 exactly when database and
  cache both answer their pings, and 503 otherwise; liveness always answers 204.
\<close>

theorem two_ports:
  assumes path: "rq_path r = x # rest" and fresh: "rw_status w = None"
  shows "(x \<noteq> ''v1'' \<longrightarrow> NewMux P auth r w s = served (http_Error ''404 page not found'' 404 w) s)
    \<and> (x = ''v1'' \<longrightarrow> NewInternalMux pprof hh r w s = served (http_Error ''404 page not found'' 404 w) s)
    \<and> (rq_path r = [''healthz''] \<and> rq_method r = ''GET'' \<longrightarrow>
        NewInternalMux pprof hh r w s = served (WriteHeader 204 w) s)
    \<and> (rq_path r = [''readyz''] \<and> rq_method r = ''GET'' \<longrightarrow>
        status_of (fst (snd (NewInternalMux pprof hh r w s)))
          = (if fst (ih_db hh s) = None \<and> fst (ih_cache hh (snd (ih_db hh s))) = None then 204 else 503))"
proof (intro conjI impI)
  assume "x \<noteq> ''v1''"
  then show "NewMux P auth r w s = served (http_Error ''404 page not found'' 404 w) s"
    unfolding NewMux_def by (intro no_route) (simp add: api_routes_def path)
next
  assume "x = ''v1''"
  then show "NewInternalMux pprof hh r w s = served (http_Error ''404 page not found'' 404 w) s"
    unfolding NewInternalMux_def by (simp add: path no_route probe_routes_def)
next
  assume "rq_path r = [''healthz''] \<and> rq_method r = ''GET''"
  then show "NewInternalMux pprof hh r w s = served (WriteHeader 204 w) s"
    by (simp add: NewInternalMux_def probe_routes_def serve_mux_def match_method_def Healthz_def)
next
  assume "rq_path r = [''readyz''] \<and> rq_method r = ''GET''"
  then show "status_of (fst (snd (NewInternalMux pprof hh r w s)))
      = (if fst (ih_db hh s) = None \<and> fst (ih_cache hh (snd (ih_db hh s))) = None then 204 else 503)"
    using fresh
    by (auto simp: readyz_route Readyz_def served_def status_of_def WriteHeader_def http_Error_eq split: prod.split option.split)
qed

theorem two_ports_witness:
  "status_of (fst (snd (NewInternalMux sample_pprof (NewInternalHandler (Pair None) (Pair (Some ErrUnavailable)))
     (sample_http ''GET'' [''readyz''] [] '''') fresh_writer (0 :: nat)))) = 503"
  using two_ports [of "sample_http ''GET'' [''readyz''] [] ''''" "''readyz''" "[]" fresh_writer undefined undefined "0 :: nat" sample_pprof
      "NewInternalHandler (Pair None) (Pair (Some ErrUnavailable))"]
  by (simp add: sample_http_def fresh_status NewInternalHandler_def)


section \<open>The defaults (config.go)\<close>

text \<open>The settings without a default, by the names of their variables.\<close>

record required_env =
  PG_HOST :: string
  PG_PORT :: int
  PG_USER :: string
  PG_PASSWORD :: secret
  PG_DB :: string
  VALKEY_HOST :: string
  VALKEY_PORT :: int
  VALKEY_PASSWORD :: secret
  RABBITMQ_HOST :: string
  RABBITMQ_PORT :: int
  RABBITMQ_USER :: string
  RABBITMQ_PASSWORD :: secret
  AUTH_JWT_SECRET :: secret

text \<open>What the \<open>env\<close> and \<open>envDefault\<close> tags give when nothing else is set.\<close>

definition env_defaults :: "required_env \<Rightarrow> config" where
  "env_defaults rq =
     \<lparr>cfg_HTTP = \<lparr>http_Host = '''', http_Port = 8080, http_InternalPort = 8081, http_ReadTimeout = 5 * 10 ^ 9,
        http_WriteTimeout = 10 * 10 ^ 9, http_IdleTimeout = 120 * 10 ^ 9, http_RequestTimeout = 2 * 10 ^ 9,
        http_MaxBodyBytes = 1048576, http_CompressMinBytes = 1024, http_CORSAllowedOrigins = [],
        http_CORSMaxAge = 600, http_HSTSEnabled = False, http_HSTSMaxAge = 31536000\<rparr>,
      cfg_GRPC = \<lparr>grpc_Host = '''', grpc_Port = 9090, grpc_RequestTimeout = 2 * 10 ^ 9,
        grpc_MaxRequestBytes = 1048576, grpc_Reflection = False\<rparr>,
      cfg_Postgres = \<lparr>pg_Host = PG_HOST rq, pg_Port = PG_PORT rq, pg_User = PG_USER rq, pg_Password = PG_PASSWORD rq,
        pg_Database = PG_DB rq, pg_SSLMode = ''disable'', pg_MaxOpenConns = 25, pg_MaxIdleConns = 5,
        pg_ConnMaxLifetime = 30 * 60 * 10 ^ 9\<rparr>,
      cfg_Valkey = \<lparr>vkc_Host = VALKEY_HOST rq, vkc_Port = VALKEY_PORT rq, vkc_Password = VALKEY_PASSWORD rq, vkc_DB = 0,
        vkc_TTL = 5 * 60 * 10 ^ 9, vkc_NegTTL = 60 * 10 ^ 9\<rparr>,
      cfg_RabbitMQ = \<lparr>rmq_Host = RABBITMQ_HOST rq, rmq_Port = RABBITMQ_PORT rq, rmq_User = RABBITMQ_USER rq,
        rmq_Password = RABBITMQ_PASSWORD rq\<rparr>,
      cfg_Outbox = \<lparr>BatchSize = 25, PollInterval = 5 * 10 ^ 9, PublishTimeout = 2 * 10 ^ 9, MaxAttempts = 10\<rparr>,
      cfg_Service = \<lparr>svc_LoadTimeout = 10 ^ 9\<rparr>,
      cfg_Idempotency = \<lparr>idem_TTL = 24 * 3600 * 10 ^ 9, idem_PurgeInterval = 3600 * 10 ^ 9\<rparr>,
      cfg_LogLevel = 0,
      cfg_Auth = \<lparr>auth_JWTSecret = AUTH_JWT_SECRET rq\<rparr>,
      cfg_ShutdownTimeout = 10 * 10 ^ 9\<rparr>"

lemma defaults_distinct: "validateListenAddresses (env_defaults rq) = None"
  by (simp add: validateListenAddresses_def http_Address_def http_InternalAddress_def grpc_Address_def
      JoinHostPort_inject env_defaults_def)

text \<open>
  the defaults are safe. With nothing but the required settings, the process starts exactly when the
  signing key has 32 bytes; no attempts limit blocks the outbox (it stays below the 1024 at which the backoff
  overflows), and the cache under the default lifetimes and load timeout never answers a hit that differs
  from the table once the writers' tombstones are in, in any interleaving of readers and writers.
\<close>

theorem defaults_are_safe:
  assumes "protocol_reach (NewCache (vkc_TTL (cfg_Valkey (env_defaults rq))) (vkc_NegTTL (cfg_Valkey (env_defaults rq)))) key
      (milliseconds (svc_LoadTimeout (cfg_Service (env_defaults rq)))) s"
    and "cp_pending s = 0" "cache_Get NoFault (cp_now s) key (cp_vk s) = Inr e" "en_Hit e"
  shows "(config_validate (env_defaults rq) = None \<longleftrightarrow> 32 \<le> length (AUTH_JWT_SECRET rq))
    \<and> MaxAttempts (cfg_Outbox (env_defaults rq)) \<le> 1024
    \<and> cp_row s = (if en_Found e then Some (en_Product e) else None)"
proof (intro conjI)
  show "config_validate (env_defaults rq) = None \<longleftrightarrow> 32 \<le> length (AUTH_JWT_SECRET rq)"
    using defaults_distinct [of rq]
    by (simp add: config_validate_def errors_Join_None http_validate_def grpc_validate_def postgres_validate_def
        valkey_validate_def outbox_validate_def service_validate_def idempotency_validate_def auth_validate_def
        validateResponseDeadline_def validateConnLimits_def secret_Reveal_def minJWTSecretBytes_def)
      (simp add: env_defaults_def linorder_not_less)
  show "MaxAttempts (cfg_Outbox (env_defaults rq)) \<le> 1024" by (simp add: env_defaults_def)
  show "cp_row s = (if en_Found e then Some (en_Product e) else None)"
    by (rule hit_is_current [OF assms(1) _ _ _ assms(2-4)])
      (simp_all add: env_defaults_def NewCache_def milliseconds_def)
qed

definition sample_required :: required_env where
  "sample_required = \<lparr>PG_HOST = ''db'', PG_PORT = 5432, PG_USER = ''u'', PG_PASSWORD = ''p'', PG_DB = ''d'',
     VALKEY_HOST = ''cache'', VALKEY_PORT = 6379, VALKEY_PASSWORD = ''p'', RABBITMQ_HOST = ''mq'', RABBITMQ_PORT = 5672,
     RABBITMQ_USER = ''u'', RABBITMQ_PASSWORD = ''p'', AUTH_JWT_SECRET = replicate 32 CHR ''k''\<rparr>"

theorem defaults_are_safe_witness:
  "config_validate (env_defaults sample_required) = None"
proof -
  let ?v = "NewCache (vkc_TTL (cfg_Valkey (env_defaults sample_required))) (vkc_NegTTL (cfg_Valkey (env_defaults sample_required)))"
  have ms: "0 < milliseconds (vk_ttl ?v)" "milliseconds (svc_LoadTimeout (cfg_Service (env_defaults sample_required))) = 1000"
    by (simp_all add: env_defaults_def NewCache_def milliseconds_def)
  let ?s1 = "(sample_start (Some sample_cached))\<lparr>cp_flights := [0 \<mapsto>
    \<lparr>fl_prev = zero_entry, fl_deadline = 1000, fl_read = Some (Some sample_cached)\<rparr>]\<rparr>"
  let ?s = "?s1\<lparr>cp_vk := sample_filled ?v 0 (\<lambda>_. None), cp_flights := (cp_flights ?s1)(0 := None)\<rparr>"
  have "protocol_step ?v ''k'' 1000 ?s1 ?s"
    by (rule fill [where f = NoFault and p = sample_cached
          and fl = "\<lparr>fl_prev = zero_entry, fl_deadline = 1000, fl_read = Some (Some sample_cached)\<rparr>"
          and r = "fst (cache_Set ?v NoFault 0 ''k'' sample_cached zero_entry (\<lambda>_. None))"])
      (simp_all add: sample_start_def sample_filled_def)
  then have reach: "protocol_reach ?v ''k'' (milliseconds (svc_LoadTimeout (cfg_Service (env_defaults sample_required)))) ?s"
    unfolding ms(2) using move [OF sample_flight_reach] by simp
  have get: "cache_Get NoFault (cp_now ?s) ''k'' (cp_vk ?s) = Inr
      \<lparr>en_Product = sample_cached, en_Hit = True, en_Found = True, en_exists = True, en_token = []\<rparr>"
    using sample_filled_get [OF ms(1), of 0 "\<lambda>_. None"] by (simp add: sample_start_def live_value_def)
  have pend: "cp_pending ?s = 0" by (simp add: sample_start_def)
  have "32 \<le> length (AUTH_JWT_SECRET sample_required)" by (simp add: sample_required_def)
  then show ?thesis using defaults_are_safe [OF reach pend get] by simp
qed

end
