(* ===== verification/Token.thy ===== *)
theory Token
  imports Config Transports
begin

text \<open>
  \<open>cmd/token/main.go\<close> with \<open>internal/auth/authtest\<close>: the command that prints a signed token for manual
  calls, and that the service takes such a token. Signing is the JWT library's, the argument \<open>sign\<close>; what
  is asked of it together with its parser is \<open>jwt_reads_back\<close>.
\<close>

section \<open>Signing (authtest/token.go)\<close>

record claims =
  cl_Subject :: string
  cl_ExpiresAt :: int

text \<open>\<open>Token\<close> panics when signing fails: None.\<close>

definition authtest_Token ::
  "(claims \<Rightarrow> string \<Rightarrow> go_error + string) \<Rightarrow> string \<Rightarrow> uuid \<Rightarrow> int \<Rightarrow> string option" where
  "authtest_Token sign secret sub exp =
     (case sign \<lparr>cl_Subject = uuid_string sub, cl_ExpiresAt = exp\<rparr> secret of
        Inl err \<Rightarrow> None | Inr tok \<Rightarrow> Some tok)"

section \<open>The command (cmd/token/main.go)\<close>

definition subID :: "uuid \<Rightarrow> string \<Rightarrow> go_error + uuid" where
  "subID fresh sub = (if sub = '''' then Inr fresh else uuid_Parse sub)"

text \<open>How it ends: a line on standard output, a message on standard error and status 1, or a panic.\<close>

datatype token_exit = Printed string | Failed string go_error | TokenPanic

definition token_main ::
  "(claims \<Rightarrow> string \<Rightarrow> go_error + string) \<Rightarrow> go_error + auth_config \<Rightarrow> uuid \<Rightarrow> int \<Rightarrow> string \<Rightarrow> int \<Rightarrow> token_exit" where
  "token_main sign parsed fresh now sub ttl =
     (case LoadAuth parsed of
        Inl err \<Rightarrow> Failed ''load auth: '' err
      | Inr cfg \<Rightarrow>
          (case subID fresh sub of
             Inl err \<Rightarrow> Failed ''sub: '' err
           | Inr i \<Rightarrow>
               (case authtest_Token sign (secret_Reveal (auth_JWTSecret cfg)) i (now + ttl) of
                  None \<Rightarrow> TokenPanic | Some line \<Rightarrow> Printed line)))"

section \<open>What it prints is accepted\<close>

text \<open>
  What the JWT library documents of HS256: signing succeeds, and the parser, at time \<open>t\<close> and with the same
  secret, answers the subject of a token that has not expired. A \<open>NumericDate\<close> keeps whole seconds.
\<close>

definition jwt_reads_back ::
  "(claims \<Rightarrow> string \<Rightarrow> go_error + string) \<Rightarrow> (string \<Rightarrow> string \<Rightarrow> go_error + string) \<Rightarrow> int \<Rightarrow> bool" where
  "jwt_reads_back sign parse_claims t \<longleftrightarrow>
     (\<forall>c secret. \<exists>tok. sign c secret = Inr tok
        \<and> (t < cl_ExpiresAt c - cl_ExpiresAt c mod 1000000000 \<longrightarrow> parse_claims secret tok = Inr (cl_Subject c)))"

lemma bearer_scheme: "BearerToken (''Bearer '' @ tok) = Some tok"
  by (rule BearerToken_intro) (simp add: equal_fold_def)

text \<open>
  A token the command prints opens the private routes. With an accepted key and a subject that is
  empty or a UUID, the command prints a token and never panics; until the second before its lifetime
  ends, both transports take that token in a bearer header, verified with the key of the same
  configuration, as the asked-for user, or as the fresh one. With any other subject it fails and prints
  nothing.
\<close>

theorem dev_token_accepted:
  assumes load: "LoadAuth parsed = Inr cfg" and jwt: "jwt_reads_back sign parse_claims t"
    and header: "map_of (rq_header r) ''Authorization'' = Some (''Bearer '' @ tok)"
      "cx_metadata cx = Some md" "map_of md ''authorization'' = Some [''Bearer '' @ tok]"
  shows "case subID fresh sub of
      Inl err \<Rightarrow> token_main sign parsed fresh now sub ttl = Failed ''sub: '' err
    | Inr i \<Rightarrow> (\<exists>line. token_main sign parsed fresh now sub ttl = Printed line)
        \<and> (token_main sign parsed fresh now sub ttl = Printed tok \<and> t < now + ttl - (now + ttl) mod 1000000000 \<longrightarrow>
            http_caller (Verify parse_claims (NewVerifier (secret_Reveal (auth_JWTSecret cfg)))) r = Some i
            \<and> verified_caller (Verify parse_claims (NewVerifier (secret_Reveal (auth_JWTSecret cfg)))) cx = Some i)"
proof (cases "subID fresh sub")
  case (Inl err)
  then show ?thesis using load by (simp add: token_main_def)
next
  case (Inr i)
  let ?secret = "secret_Reveal (auth_JWTSecret cfg)" and ?c = "\<lparr>cl_Subject = uuid_string i, cl_ExpiresAt = now + ttl\<rparr>"
  obtain line where line: "sign ?c ?secret = Inr line"
    "t < now + ttl - (now + ttl) mod 1000000000 \<Longrightarrow> parse_claims ?secret line = Inr (uuid_string i)"
    using jwt unfolding jwt_reads_back_def by (metis claims.select_convs)
  have main: "token_main sign parsed fresh now sub ttl = Printed line"
    using load Inr line(1) by (simp add: token_main_def authtest_Token_def)
  moreover have "Verify parse_claims (NewVerifier ?secret) line = Inr i" if "t < now + ttl - (now + ttl) mod 1000000000"
    using line(2) [OF that] by (simp add: Verify_def NewVerifier_def)
  ultimately show ?thesis
    using Inr header
    by (auto simp: http_caller_def get_first_def verified_caller_def bearerFromContext_def md_Get_def
        bearer_scheme [simplified])
qed

text \<open>A library whose token is the secret, the expiry and the subject in a row, read at time 7.\<close>

definition sample_sign :: "claims \<Rightarrow> string \<Rightarrow> go_error + string" where
  "sample_sign c secret = Inr (secret @ (if 7 < cl_ExpiresAt c - cl_ExpiresAt c mod 1000000000 then ''+'' else ''-'') @ cl_Subject c)"

definition sample_parse :: "string \<Rightarrow> string \<Rightarrow> go_error + string" where
  "sample_parse secret tok =
     (if take (Suc (length secret)) tok = secret @ ''+'' then Inr (drop (Suc (length secret)) tok) else Inl ErrInvalidToken)"

theorem dev_token_accepted_witness:
  "let secret = ''0123456789abcdef0123456789abcdef''; tok = secret @ ''+'' @ uuid_string 5 in
   token_main sample_sign (Inr \<lparr>auth_JWTSecret = secret\<rparr>) 5 0 '''' 3600000000000 = Printed tok
   \<and> http_caller (Verify sample_parse (NewVerifier secret)) (sample_http ''GET'' [''v1'', ''orders''] [(''Authorization'', ''Bearer '' @ tok)] '''') = Some 5"
proof -
  let ?secret = "''0123456789abcdef0123456789abcdef''"
  let ?tok = "?secret @ ''+'' @ uuid_string 5"
  have load: "LoadAuth (Inr \<lparr>auth_JWTSecret = ?secret\<rparr>) = Inr \<lparr>auth_JWTSecret = ?secret\<rparr>"
    by (simp add: LoadAuth_def load_checked_def auth_validate_def minJWTSecretBytes_def secret_Reveal_def)
  have jwt: "jwt_reads_back sample_sign sample_parse 7"
    by (auto simp: jwt_reads_back_def sample_sign_def sample_parse_def)
  have main: "token_main sample_sign (Inr \<lparr>auth_JWTSecret = ?secret\<rparr>) 5 0 '''' 3600000000000 = Printed ?tok"
    using load by (simp add: token_main_def subID_def authtest_Token_def sample_sign_def secret_Reveal_def)
  show ?thesis
    using dev_token_accepted [OF load jwt, where tok = ?tok and fresh = 5 and sub = "''''" and now = 0 and ttl = 3600000000000
        and r = "sample_http ''GET'' [''v1'', ''orders''] [(''Authorization'', ''Bearer '' @ ?tok)] ''''"
        and cx = "\<lparr>cx_user = None, cx_metadata = Some [(''authorization'', [''Bearer '' @ ?tok])], cx_deadline = None\<rparr>"
        and md = "[(''authorization'', [''Bearer '' @ ?tok])]"] main
    by (simp add: Let_def subID_def sample_http_def secret_Reveal_def)
qed

end
