(* ===== verification/Spec2Isabelle.thy ===== *)
theory Spec2Isabelle
  imports System Concurrency Relays Coherence Http_Decode Wiring Token
begin

text \<open>
  Verification of storefront, a Go service that sells products: a catalogue and orders in Postgres,
  idempotency keys for orders, a transactional outbox relayed to RabbitMQ, a Valkey cache in front of
  the catalogue, and the same API over HTTP and gRPC.

  \<^bold>\<open>The program and its parts.\<close> A request enters through a transport (\<open>internal/transport/http\<close>,
  \<open>internal/transport/grpc\<close>), which authenticates it (\<open>internal/auth\<close>), decodes it into the domain types
  (\<open>internal/domain\<close>) and calls the service (\<open>internal/service\<close>). The service reads products through the
  cache (\<open>internal/cache\<close>) and does everything else in the store (\<open>internal/store\<close>), one transaction per
  write, each of which queues an event (\<open>internal/event\<close>) in the outbox table. The relay
  (\<open>internal/outbox\<close>), woken by the listener (\<open>internal/pg\<close>), drains that table to the broker
  (\<open>internal/bus\<close>); the janitor (\<open>internal/pg\<close>) purges expired idempotency keys. \<open>cmd/storefront\<close> opens the
  connections and runs the servers, the relay and the janitor in one error group; \<open>cmd/migrate\<close> and
  \<open>migrations\<close> bring the schema up to date; \<open>cmd/token\<close> prints a token for manual calls.

  \<^bold>\<open>Which theory models which part.\<close>
  \<^item> \<open>Prelude\<close>, \<open>Uuid\<close>, \<open>Go_Error\<close>: lists by key, the collections of simplification rules, 64-bit
    wrap-around, decimal texts; UUIDs as 128-bit words with their text and its parser; error values
    with \<open>errors.Is\<close>.
  \<^item> \<open>Domain\<close>, \<open>Event\<close>, \<open>Json_Text\<close>: the domain types with validation, cursors and pages; events and
    records; JSON values, their text and its parser, with the round trip.
  \<^item> \<open>Database\<close>: the tables of \<open>migrations/*.sql\<close> as records with their constraints, and each statement of
    \<open>queries.go\<close> as a function on the tables. \<open>Tx\<close>: the connection, a script of faults for its next
    statements (an error, or a commit whose answer is lost), \<open>withTx\<close> and \<open>mapDBError\<close>.
  \<^item> \<open>Keyset\<close>: the contract of a keyset listing as a locale, interpreted on products in
    \<open>Product_Store\<close> and on orders in \<open>Order_Store\<close>; these two, \<open>Idempotency_Store\<close> and \<open>Outbox_Store\<close> are
    the store's operations, file by file.
  \<^item> \<open>Bus\<close>, \<open>Listener\<close>, \<open>Relay\<close>, \<open>Janitor\<close>: the publisher, the life cycle of the \<open>LISTEN\<close> connection and the
    two background loops.
  \<^item> \<open>Cache\<close>, \<open>Cache_Protocol\<close>, \<open>Service\<close>: the cache over the Valkey commands it sends; readers and writers
    interleaved as a step relation; the service's operations.
  \<^item> \<open>Coherence\<close>: reads and writes of the service in sequence, over a cache that starts empty, and what becomes of
    an entry when the answer to a commit is lost.
  \<^item> \<open>Config\<close>: the settings, their validation and loading. \<open>Net_Url\<close>: the escaping, the hosts and the parsing of
    \<open>net/url\<close>, as far as the code uses them; \<open>Urls\<close>: the connection URLs over it. \<open>Auth\<close>: bearer tokens and the caller's identity. \<open>Token\<close>: the token command.
  \<^item> \<open>Processor\<close>: the interface both transports call, as a locale interpreted on the service. \<open>Grpc\<close>: handlers,
    interceptors and their chain. \<open>Http_Codec\<close>, \<open>Http\<close>, \<open>Http_Decode\<close>, \<open>Http_Calls\<close>: the JSON codec and
    response types, the handlers, router, middleware and probes, what decoding reads, and what the
    API promises. \<open>Transports\<close>: the two transports side by side.
  \<^item> \<open>Servers\<close>: the \<open>Run\<close> methods of both servers, with the contract of a runner as a locale interpreted on
    each. \<open>Migrations\<close>: \<open>migrations.go\<close> and \<open>cmd/migrate\<close>. \<open>App\<close>: \<open>cmd/storefront/main.go\<close>, its resources and
    its runners. \<open>Wiring\<close>: what \<open>main.go\<close> builds from the configuration, with the constructors, the defaults
    and the router of the internal port.
  \<^item> \<open>Changes\<close>: the five kinds of change a transaction may make to the tables, as an inductive specification
    that every operation of the store is shown to keep to. \<open>System\<close>: the whole service as a step relation
    (requests over both transports, relay rounds, purges, and whatever happens to clocks, connections
    and the cache in between), its reachable states and what holds in all of them. Which operation a request
    runs is settled once, for any effect, in the locale \<open>processor_effect\<close>, interpreted on the service.
  \<^item> \<open>Concurrency\<close>: the writing transactions of the store side by side, one SQL statement of one of them at a
    time, with the locks Postgres gives a transaction on the rows and keys it writes.
  \<^item> \<open>Relays\<close>: the rounds of any number of relays interleaved call by call with each other and with writers.

  State is passed explicitly: \<open>conn\<close> (tables, clock, fault script) for the store, \<open>svc\<close> (a connection, the
  Valkey keys, the time, the cache's faults) for the service, a response writer for HTTP. Errors are
  values of \<open>go_error\<close>, results are \<open>go_error + 'a\<close>. Identifiers, times and random texts the code draws are
  arguments. Integers keep their width where it matters: wrap-around of 64-bit durations in the
  backoff, \<open>INTEGER\<close> and \<open>BIGINT\<close> columns, 64-bit JSON numbers.

  \<^bold>\<open>What the lemmas show.\<close> \<open>Tx\<close>: a transaction applies all of its statements or none, under any script.
  \<open>Product_Store\<close>, \<open>Order_Store\<close>: each operation's outcome on every branch; paging lists everything once and
  ends; users see only their orders. \<open>Idempotency_Store\<close>: a retried order is replayed, a reused key
  refused, a new order has exactly its documented outcomes. \<open>Outbox_Store\<close>: a round of the relay refines
  one pass over the pending rows; no event is lost. \<open>Relay\<close>, \<open>Janitor\<close>, \<open>Listener\<close>: backoff, progress, rounds
  that wait unless their batch was full, no leaked connection, live keys kept. \<open>Cache\<close>, \<open>Cache_Protocol\<close>,
  \<open>Service\<close>: entries round-trip, no interleaving leaves a stale hit while loads are shorter than the tombstone's
  life, writes leave the cache coherent when their tombstones arrive. \<open>Coherence\<close>: then reads answer what the table
  holds in every history from an empty cache; but a commit in doubt leaves its product stale until the entry expires.
  \<open>Config\<close>: the accepted configurations are exactly those within the listed bounds. \<open>Grpc\<close>, \<open>Http_Calls\<close>: an
  error reply means nothing changed, order calls need a verified token, the chains always answer.
  \<open>Transports\<close> and this theory: both transports do the same, so that an order is placed once whichever way
  its retry comes. \<open>System\<close>: in every reachable state the tables are whole, stock and sold units add up, every
  order is announced by exactly one event and no event is lost; an order's retry is a replay after any history;
  and from every reachable state the outbox can be emptied. \<open>Concurrency\<close>: interleaved transactions leave
  what the same operations leave one after the other, but for the numbers of the outbox rows; they never deadlock;
  and the events of one product, its creations and deletions included, tell its versions in order and without a gap. \<open>Relays\<close>: relays need no leader, since no
  two hold the same event and nothing is lost or, once a round committed, sent again. \<open>Http\<close>: one reply to each request,
  with the status the access log has. \<open>Http_Calls\<close>: the chain refuses foreign writes and bodies above the limit.
  \<open>Urls\<close>: users, passwords and databases of any bytes survive the
  URLs. \<open>Servers\<close>, \<open>App\<close>, \<open>Wiring\<close>: an accepted configuration builds a process that works, whose ports are
  separate and whose loops never spin; it opens nothing while a migration is pending, stops after a signal or an
  error, and closes what it opened. \<open>Token\<close>: its tokens are accepted.

  \<^bold>\<open>Bounds and fuel.\<close> Following cursors takes fuel; the theorems show that one step per row, and one more,
  is enough. The relay, the janitor, the servers and the process are driven by lists of observations or
  events, of any length; \<open>process_stops\<close> bounds the events after which the runners have ended (16, the
  events its two HTTP servers, the gRPC server and the group have in all). In \<open>System\<close> histories have any length;
  \<open>backlog_delivered\<close> names the number of rounds that empties the outbox. JSON parsing recurses on the
  length of its input; \<open>Http_Decode\<close> shows that the length tests in the member loop never cut a body short.

  \<^bold>\<open>Third-party code.\<close> SHA-256, the JWT parser and signer, the AMQP client, the CORS and compression middlewares and
  the migration library are arguments of the definitions that use them. Of Postgres, Valkey, \<open>net/http\<close>,
  \<open>errgroup\<close> and the gRPC server, the documented behaviour of the calls the code makes is written out.

  \<^bold>\<open>Not modelled.\<close> Generated code under \<open>api/gen\<close> beyond its messages; the handler that formats log lines
  (\<open>config/logger.go\<close>) and the lines the components log for operators, of which only the access logs and the output of
  the commands are; the alignment of the migration status table; the bodies of the profiling handlers; the
  parsing of environment variables, which is the library's; the test helpers. Deadlines appear as faults of
  the calls they cut short. A step of \<open>System\<close> is a whole request, round or purge; that whole operations may stand
  for interleaved ones is what \<open>Concurrency\<close> shows for the writes of the store and \<open>Relays\<close> for the rounds of relays.
  The janitor's statement is a transaction of its own and is not interleaved further; the cache has its own interleavings
  in \<open>Cache_Protocol\<close>.
\<close>

section \<open>One order, two transports\<close>

text \<open>
  An order is placed once, whichever way the client comes. If a request to place an order stored
  one, through HTTP or through gRPC and whatever the client saw of it, then the same request by the
  same user under the same idempotency key, within the retention time and on a healthy connection,
  is answered through gRPC and through HTTP alike with that order, marked as a replay, and neither
  rows nor cache change.
\<close>

theorem order_placed_once_across_transports:
  assumes req: "grpc_request_of r = Some (CreateOrderRequest raw q)"
    and w: "rw_status w = None" "map_of (rw_header w) ''Idempotency-Replayed'' = None"
    and caller: "http_caller verify r = Some u" "verified_caller verify cx = Some u"
    and key: "get_first (rq_header r) ''Idempotency-Key'' = metadata_key cx"
    and first: "sv' = snd (snd (NewMux (service_processor sha256 pg srv dr) (http_Auth verify) r w sv))
      \<or> sv' = snd (grpc_serve now d verify (service_processor sha256 pg srv dr) cx (CreateOrderRequest raw q) sv)"
    and wf: "db_wf (tables (sv_conn sv))" "keys_settled sha256 (tables (sv_conn sv))"
    and effect: "orders (tables (sv_conn sv')) \<noteq> orders (tables (sv_conn sv))"
    and retry: "script (sv_conn tv) = []" "tables (sv_conn tv) = tables (sv_conn sv')"
      "clock (sv_conn tv) \<le> clock (sv_conn sv) + interval_us (idempotencyTTL pg)"
  shows "\<exists>x w'. grpc_serve now' d verify (service_processor sha256 pg srv dr') cx (CreateOrderRequest raw q) tv
        = (Returned \<lparr>rp_header = [(''idempotency-replayed'', ''true'')], rp_reply = Inr (CreateOrderResponse x)\<rparr>, tv)
    \<and> NewMux (service_processor sha256 pg srv dr') (http_Auth verify) r w tv = (True, w', tv)
    \<and> status_of w' = 201 \<and> map_of (rw_header w') ''Idempotency-Replayed'' = Some ''true''
    \<and> rw_body w' = rw_body w @ [if encodable (proto_order_json x) then Json (proto_order_json x) else PlainText msgEncodeFailed]
    \<and> op_id x = uuid_string (dr_newV7 dr)"
proof -
  have "keeps_rows (clock (sv_conn tv)) (tables (sv_conn sv')) (tables (sv_conn tv))"
    by (simp add: retry(2) keeps_rows_same)
  then show ?thesis
    using placed_order_answers [OF req w caller key first wf effect retry(1) _ _ retry(3)] retry(2) by simp
qed

theorem order_placed_once_across_transports_witness:
  "\<exists>x w'. NewMux sample_processor (http_Auth sample_verify) sample_post fresh_writer sample_retry = (True, w', sample_retry)
    \<and> status_of w' = 201 \<and> map_of (rw_header w') ''Idempotency-Replayed'' = Some ''true''
    \<and> rw_body w' = [if encodable (proto_order_json x) then Json (proto_order_json x) else PlainText msgEncodeFailed]
    \<and> op_id x = uuid_string 40"
proof -
  have post: "http_caller sample_verify sample_post = Some 1" using sample_post_facts(2) sample_caller by simp
  have fresh: "rw_status fresh_writer = None" "map_of (rw_header fresh_writer) ''Idempotency-Replayed'' = None"
    by (simp_all add: fresh_status)
  show ?thesis
    using order_placed_once_across_transports [OF sample_post_facts(1) fresh post sample_caller sample_post_facts(3) _
        sample_retry_facts, where dr = sample_draws and srv = sample_service and now = 0 and d = 5
        and now' = 9 and dr' = sample_draws]
    by (auto simp: sample_first_def sample_draws_def fresh_status)
qed

end
